(* ===== verification/Prelude.thy ===== *)
theory Prelude
  imports Main "HOL-Library.Char_ord" "HOL-Library.List_Lexorder"
begin

text \<open>
  Shared vocabulary of the development: the type synonyms that name the model's basic types, the
  JavaScript and SQL idioms every component uses (tables as lists of rows, guarded updates,
  deduplication), the named collections of facts, and the generic locales that the components
  interpret: keyed row tables, transition systems with an invariant, and capped exponential
  backoff.
\<close>

section \<open>Basic types\<close>

text \<open>
  Identifiers, digests and names are the source's strings. A \<open>Date\<close> is its \<open>getTime()\<close>, a number of
  milliseconds, which may be negative; durations are milliseconds too. A clock that is read several
  times by one operation is a function from the index of the read to the time it returns.
\<close>

type_synonym ident = string
type_synonym time = int
type_synonym clock = "nat \<Rightarrow> time"
type_synonym bytes = "nat list"

named_theorems table_simps \<open>lookup and update in tables of rows\<close>
named_theorems step_simps \<open>how an operation changes each table it touches\<close>
named_theorems inv_intros \<open>every operation keeps the component's invariant\<close>

section \<open>Results that may throw\<close>

text \<open>A thrown \<open>Error\<close> is \<open>Inl\<close>; \<open>bindE\<close> is the sequencing of two statements of which the first may
  throw, and \<open>guardE\<close> is \<open>if (c) throw e\<close>.\<close>

definition bindE :: "'e + 'a \<Rightarrow> ('a \<Rightarrow> 'e + 'b) \<Rightarrow> 'e + 'b" where
  "bindE r k = (case r of Inl e \<Rightarrow> Inl e | Inr a \<Rightarrow> k a)"

definition guardE :: "bool \<Rightarrow> 'e \<Rightarrow> 'e + unit" where
  "guardE c e = (if c then Inl e else Inr ())"

lemma bindE_simps [simp]:
  "bindE (Inl e) k = Inl e"
  "bindE (Inr a) k = k a"
  by (simp_all add: bindE_def)

lemma bindE_Inr_iff [simp]: "bindE r k = Inr b \<longleftrightarrow> (\<exists>a. r = Inr a \<and> k a = Inr b)"
  by (cases r) simp_all

lemma bindE_Inl_iff: "bindE r k = Inl e \<longleftrightarrow> r = Inl e \<or> (\<exists>a. r = Inr a \<and> k a = Inl e)"
  by (cases r) auto

lemma guardE_Inr_iff [simp]: "guardE c e = Inr u \<longleftrightarrow> \<not> c"
  by (simp add: guardE_def)

lemma guardE_Inl_iff [simp]: "guardE c e = Inl e' \<longleftrightarrow> c \<and> e = e'"
  by (auto simp: guardE_def)

lemma guardE_simps:
  "guardE True e = Inl e"
  "guardE False e = Inr ()"
  by (simp_all add: guardE_def)

section \<open>JavaScript lists\<close>

text \<open>\<open>[...new Set(xs)]\<close> keeps the first occurrence of each element.\<close>

fun dedup :: "'a list \<Rightarrow> 'a list" where
  "dedup [] = []"
| "dedup (x # xs) = x # filter (\<lambda>y. y \<noteq> x) (dedup xs)"

lemma set_dedup [simp]: "set (dedup xs) = set xs"
  by (induction xs) auto

lemma distinct_dedup [simp]: "distinct (dedup xs)"
  by (induction xs) auto

section \<open>Tables of rows\<close>

text \<open>
  \<open>SELECT ... WHERE p LIMIT 1\<close> is \<open>List.find p\<close>; \<open>UPDATE ... SET f WHERE p\<close> is \<open>update_where p f\<close>. A
  table with a primary key holds pairwise distinct keys.
\<close>

definition update_where :: "('r \<Rightarrow> bool) \<Rightarrow> ('r \<Rightarrow> 'r) \<Rightarrow> 'r list \<Rightarrow> 'r list" where
  "update_where p f rows = map (\<lambda>r. if p r then f r else r) rows"

definition row_by :: "('r \<Rightarrow> 'k) \<Rightarrow> 'k \<Rightarrow> 'r list \<Rightarrow> 'r option" where
  "row_by key k rows = List.find (\<lambda>r. key r = k) rows"

definition set_row :: "('r \<Rightarrow> 'k) \<Rightarrow> 'k \<Rightarrow> ('r \<Rightarrow> 'r) \<Rightarrow> 'r list \<Rightarrow> 'r list" where
  "set_row key k f rows = update_where (\<lambda>r. key r = k) f rows"

lemma update_where_Nil [simp]: "update_where p f [] = []"
  by (simp add: update_where_def)

lemma update_where_Cons [simp]:
  "update_where p f (r # rows) = (if p r then f r else r) # update_where p f rows"
  by (simp add: update_where_def)

lemma update_where_append [simp]:
  "update_where p f (xs @ ys) = update_where p f xs @ update_where p f ys"
  by (simp add: update_where_def)

lemma length_update_where [simp]: "length (update_where p f rows) = length rows"
  by (simp add: update_where_def)

lemma in_update_where:
  "r' \<in> set (update_where p f rows) \<longleftrightarrow>
     (\<exists>r \<in> set rows. (p r \<and> r' = f r) \<or> (\<not> p r \<and> r' = r))"
  by (auto simp: update_where_def)

lemma map_update_where:
  assumes "\<And>r. r \<in> set rows \<Longrightarrow> p r \<Longrightarrow> g (f r) = g r"
  shows "map g (update_where p f rows) = map g rows"
  using assms by (induction rows) auto

lemma update_where_id: "(\<And>r. r \<in> set rows \<Longrightarrow> \<not> p r) \<Longrightarrow> update_where p f rows = rows"
  by (induction rows) auto

lemma row_by_Nil [simp]: "row_by key k [] = None"
  by (simp add: row_by_def)

lemma row_by_Cons [simp]:
  "row_by key k (r # rows) = (if key r = k then Some r else row_by key k rows)"
  by (simp add: row_by_def)

lemma row_by_SomeD: "row_by key k rows = Some r \<Longrightarrow> r \<in> set rows \<and> key r = k"
  by (induction rows) (auto split: if_splits)

lemma row_by_None_iff [table_simps]: "row_by key k rows = None \<longleftrightarrow> k \<notin> key ` set rows"
  by (induction rows) auto

lemma row_by_mem:
  assumes "distinct (map key rows)" and "r \<in> set rows"
  shows "row_by key (key r) rows = Some r"
  using assms by (induction rows) (auto simp: image_iff)

lemma row_by_append [table_simps]:
  "row_by key k (xs @ ys) = (case row_by key k xs of Some r \<Rightarrow> Some r | None \<Rightarrow> row_by key k ys)"
  by (induction xs) auto

lemma row_by_update_where_keep:
  assumes "\<And>r. key (f r) = key r"
  shows "row_by key k (update_where p f rows) =
    (case row_by key k rows of None \<Rightarrow> None | Some r \<Rightarrow> Some (if p r then f r else r))"
  using assms by (induction rows) auto

lemma find_SomeD: "List.find p xs = Some x \<Longrightarrow> x \<in> set xs \<and> p x"
  by (induction xs) (auto split: if_splits)

lemma find_None_iff2: "List.find p xs = None \<longleftrightarrow> (\<forall>x \<in> set xs. \<not> p x)"
  by (induction xs) auto

lemma row_by_set_row_const [table_simps]:
  "key v = k \<Longrightarrow> row_by key k' (set_row key k (\<lambda>_. v) rows) =
     (if k' = k then map_option (\<lambda>_. v) (row_by key k rows) else row_by key k' rows)"
  by (induction rows) (auto simp: set_row_def)

lemma map_key_set_row_const [table_simps]: "key v = k \<Longrightarrow> map key (set_row key k (\<lambda>_. v) rows) = map key rows"
  by (induction rows) (auto simp: set_row_def)

lemma in_set_row: "r' \<in> set (set_row key k f rows) \<longleftrightarrow> (\<exists>r \<in> set rows. r' = (if key r = k then f r else r))"
  by (auto simp: set_row_def in_update_where)

lemma row_by_update_view:
  assumes "\<And>r. r \<in> set rows \<Longrightarrow> p r \<Longrightarrow> key (f r) = key r \<and> g (f r) = g r"
  shows "map_option g (row_by key k (update_where p f rows)) = map_option g (row_by key k rows)"
  using assms by (induction rows) auto

text \<open>
  What a client relies on when it reads and writes one row of a table: a lookup after a guarded
  update sees exactly that row changed, the keys stay as they were, and an inserted row with a fresh
  key is found.
\<close>

locale keyed_table =
  fixes key :: "'r \<Rightarrow> 'k"
    and get :: "'k \<Rightarrow> 'r list \<Rightarrow> 'r option"
    and put :: "'k \<Rightarrow> ('r \<Rightarrow> 'r) \<Rightarrow> 'r list \<Rightarrow> 'r list"
  assumes get_mem: "get k rows = Some r \<Longrightarrow> r \<in> set rows \<and> key r = k"
    and get_unique: "distinct (map key rows) \<Longrightarrow> r \<in> set rows \<Longrightarrow> get (key r) rows = Some r"
    and get_put: "(\<And>r. key (f r) = key r) \<Longrightarrow>
      get k' (put k f rows) = (if k' = k then map_option f (get k rows) else get k' rows)"
    and put_mem: "r' \<in> set (put k f rows) \<longleftrightarrow>
      (\<exists>r \<in> set rows. r' = (if key r = k then f r else r))"
    and keys_put: "(\<And>r. key (f r) = key r) \<Longrightarrow> map key (put k f rows) = map key rows"
begin

lemma put_other: "(\<And>r. key (f r) = key r) \<Longrightarrow> k' \<noteq> k \<Longrightarrow> get k' (put k f rows) = get k' rows"
  by (simp add: get_put)

lemma distinct_put: "(\<And>r. key (f r) = key r) \<Longrightarrow> distinct (map key (put k f rows)) \<longleftrightarrow> distinct (map key rows)"
  by (simp add: keys_put)

lemma put_all:
  assumes "\<forall>r \<in> set rows. P r" and "\<And>r. r \<in> set rows \<Longrightarrow> key r = k \<Longrightarrow> P (f r)"
  shows "\<forall>r \<in> set (put k f rows). P r"
  using assms by (auto simp: put_mem)

lemma mem_get_iff:
  "distinct (map key rows) \<Longrightarrow> r \<in> set rows \<longleftrightarrow> get (key r) rows = Some r"
  using get_mem get_unique by blast

end

lemma keyed_table_rows: "keyed_table key (row_by key) (set_row key)"
proof
  fix k rows r
  show "row_by key k rows = Some r \<Longrightarrow> r \<in> set rows \<and> key r = k"
    by (rule row_by_SomeD)
next
  fix rows r
  show "distinct (map key rows) \<Longrightarrow> r \<in> set rows \<Longrightarrow> row_by key (key r) rows = Some r"
    by (rule row_by_mem)
next
  fix f k k' rows
  assume keep: "\<And>r. key (f r) = key r"
  show "row_by key k' (set_row key k f rows) =
      (if k' = k then map_option f (row_by key k rows) else row_by key k' rows)"
    unfolding set_row_def using keep by (induction rows) auto
next
  fix r' k f rows
  show "(r' \<in> set (set_row key k f rows)) = (\<exists>r \<in> set rows. r' = (if key r = k then f r else r))"
    by (auto simp: set_row_def in_update_where)
next
  fix f k rows
  assume "\<And>r. key (f r) = key r"
  then show "map key (set_row key k f rows) = map key rows"
    by (simp add: set_row_def map_update_where)
qed

section \<open>Transition systems\<close>

text \<open>
  A component whose operations can run in any order: an initial state, a step relation with one rule
  per operation, and an invariant that holds at the start and that every step keeps.
\<close>

inductive reaches :: "('s \<Rightarrow> 's \<Rightarrow> bool) \<Rightarrow> 's \<Rightarrow> 's \<Rightarrow> bool" for step where
  refl: "reaches step s s"
| snoc: "reaches step s t \<Longrightarrow> step t u \<Longrightarrow> reaches step s u"

lemma reaches_one: "step s t \<Longrightarrow> reaches step s t"
  by (blast intro: reaches.intros)

lemma reaches_trans: "reaches step t u \<Longrightarrow> reaches step s t \<Longrightarrow> reaches step s u"
  by (induction rule: reaches.induct) (blast intro: reaches.snoc)+

locale invariant_system =
  fixes step :: "'s \<Rightarrow> 's \<Rightarrow> bool"
    and inv :: "'s \<Rightarrow> bool"
  assumes step_inv: "inv s \<Longrightarrow> step s t \<Longrightarrow> inv t"
begin

lemma reaches_inv: "reaches step s t \<Longrightarrow> inv s \<Longrightarrow> inv t"
  by (induction rule: reaches.induct) (blast intro: step_inv)+

end

text \<open>A system that also has a monotone relation between the states before and after a run.\<close>

locale monotone_system = invariant_system +
  fixes le :: "'s \<Rightarrow> 's \<Rightarrow> bool"
  assumes le_refl: "le s s"
    and le_trans: "le s t \<Longrightarrow> le t u \<Longrightarrow> le s u"
    and step_le: "inv s \<Longrightarrow> step s t \<Longrightarrow> le s t"
begin

lemma reaches_le: "reaches step s t \<Longrightarrow> inv s \<Longrightarrow> le s t"
proof (induction rule: reaches.induct)
  case (refl s)
  show ?case by (rule le_refl)
next
  case (snoc s t u)
  then have "inv t" by (blast intro: reaches_inv)
  then show ?case using snoc le_trans step_le by blast
qed

end

section \<open>Capped exponential backoff\<close>

text \<open>\<open>Math.min(base * 2 ** n, cap)\<close>.\<close>

definition backoff_ms :: "int \<Rightarrow> int \<Rightarrow> nat \<Rightarrow> int" where
  "backoff_ms base cap n = min (base * 2 ^ n) cap"

locale backoff_policy =
  fixes base cap :: int
    and delay :: "nat \<Rightarrow> int"
  assumes base_pos: "0 < base"
    and base_le_cap: "base \<le> cap"
    and delay_eq: "delay n = backoff_ms base cap n"
begin

lemma delay_bounds: "base \<le> delay n \<and> delay n \<le> cap"
proof -
  have "base * 1 \<le> base * 2 ^ n"
    using base_pos by (intro mult_left_mono) auto
  then show ?thesis
    using base_le_cap by (simp add: delay_eq backoff_ms_def)
qed

lemma delay_mono: "m \<le> n \<Longrightarrow> delay m \<le> delay n"
  using base_pos by (simp add: delay_eq backoff_ms_def min.coboundedI1 min.coboundedI2 power_increasing)

lemma delay_pos: "0 < delay n"
  using delay_bounds [of n] base_pos by linarith

lemma delay_doubles:
  assumes "base * 2 ^ Suc n \<le> cap"
  shows "delay (Suc n) = 2 * delay n"
proof -
  have "0 < base * 2 ^ n" using base_pos by simp
  then have "base * 2 ^ n \<le> cap" using assms by simp
  then show ?thesis using assms by (simp add: delay_eq backoff_ms_def)
qed

end

end
