(* ===== verification/Duration.thy ===== *)
theory Duration
  imports Prelude
begin

text \<open>
  Duration strings of template timeouts (\<^verbatim>\<open>packages/contracts/src/common/duration.ts\<close>): the
  regular expression \<^verbatim>\<open>^(\d+)(ms|s|m|h)$\<close> as a greedy digit prefix followed by one of the four
  units, and \<open>parseDurationMs\<close>, which throws on every other string. Amounts are exact numbers here;
  the source computes them as doubles, which agree up to \<open>2^53\<close>.
\<close>

definition UNIT_MS :: "(string \<times> nat) list" where
  "UNIT_MS = [(''ms'', 1), (''s'', 1000), (''m'', 60000), (''h'', 3600000)]"

definition is_digit :: "char \<Rightarrow> bool" where
  "is_digit c \<longleftrightarrow> 48 \<le> (of_char c :: nat) \<and> (of_char c :: nat) \<le> 57"

definition digit_value :: "char \<Rightarrow> nat" where
  "digit_value c = of_char c - 48"

definition number_of_digits :: "string \<Rightarrow> nat" where
  "number_of_digits ds = foldl (\<lambda>n c. 10 * n + digit_value c) 0 ds"

text \<open>\<open>DURATION_RE.exec\<close>: the two capture groups, or no match.\<close>

definition duration_match :: "string \<Rightarrow> (string \<times> string) option" where
  "duration_match v =
     (let amount = takeWhile is_digit v; rest = dropWhile is_digit v
      in if amount \<noteq> [] \<and> rest \<in> set (map fst UNIT_MS) then Some (amount, rest) else None)"

definition isDuration :: "string \<Rightarrow> bool" where
  "isDuration v \<longleftrightarrow> duration_match v \<noteq> None"

datatype duration_error = InvalidDuration string | InvalidDurationUnit string

definition parseDurationMs :: "string \<Rightarrow> duration_error + nat" where
  "parseDurationMs v =
     (case duration_match v of
        None \<Rightarrow> Inl (InvalidDuration v)
      | Some (amount, u) \<Rightarrow>
          (case map_of UNIT_MS u of
             None \<Rightarrow> Inl (InvalidDurationUnit v)
           | Some unit \<Rightarrow> Inr (number_of_digits amount * unit)))"

section \<open>Parsing\<close>

lemma UNIT_MS_keys: "u \<in> set (map fst UNIT_MS) \<longleftrightarrow> u \<in> {''ms'', ''s'', ''m'', ''h''}"
  by (simp add: UNIT_MS_def)

lemma takeWhile_digits: "list_all is_digit ds \<Longrightarrow> u = [] \<or> \<not> is_digit (hd u) \<Longrightarrow>
    takeWhile is_digit (ds @ u) = ds \<and> dropWhile is_digit (ds @ u) = u"
  by (induction ds) (cases u; auto)+

lemma unit_not_digit: "u \<in> set (map fst UNIT_MS) \<Longrightarrow> u \<noteq> [] \<and> \<not> is_digit (hd u)"
  by (auto simp: UNIT_MS_def is_digit_def)

lemma duration_match_Some_iff:
  "duration_match v = Some (ds, u) \<longleftrightarrow>
     v = ds @ u \<and> ds \<noteq> [] \<and> list_all is_digit ds \<and> u \<in> set (map fst UNIT_MS)"
proof
  assume "duration_match v = Some (ds, u)"
  then show "v = ds @ u \<and> ds \<noteq> [] \<and> list_all is_digit ds \<and> u \<in> set (map fst UNIT_MS)"
    by (auto simp: duration_match_def Let_def list_all_iff dest: set_takeWhileD split: if_splits)
next
  assume r: "v = ds @ u \<and> ds \<noteq> [] \<and> list_all is_digit ds \<and> u \<in> set (map fst UNIT_MS)"
  then have "takeWhile is_digit v = ds \<and> dropWhile is_digit v = u"
    using takeWhile_digits [of ds u] unit_not_digit [of u] by blast
  then show "duration_match v = Some (ds, u)"
    using r by (simp add: duration_match_def)
qed

text \<open>Decimal notation, the inverse of \<open>number_of_digits\<close>.\<close>

fun decimal :: "nat \<Rightarrow> string" where
  "decimal n = (if n < 10 then [char_of (48 + n)] else decimal (n div 10) @ [char_of (48 + n mod 10)])"

declare decimal.simps [simp del]

lemma digit_char: "n < 10 \<Longrightarrow> is_digit (char_of (48 + n)) \<and> digit_value (char_of (48 + n)) = n"
  by (simp add: is_digit_def digit_value_def of_char_of)

lemma decimal_digits: "decimal n \<noteq> [] \<and> list_all is_digit (decimal n) \<and> number_of_digits (decimal n) = n"
proof (induction n rule: decimal.induct)
  case (1 n)
  show ?case
  proof (cases "n < 10")
    case True
    then show ?thesis
      by (subst (1 2 3) decimal.simps) (simp add: digit_char number_of_digits_def)
  next
    case False
    with 1 have "list_all is_digit (decimal (n div 10)) \<and> number_of_digits (decimal (n div 10)) = n div 10"
      by simp
    moreover have "digit_value (char_of (48 + n mod 10)) = n mod 10 \<and> is_digit (char_of (48 + n mod 10))"
      using digit_char [of "n mod 10"] by simp
    ultimately show ?thesis
      using False by (subst (1 2 3) decimal.simps) (simp add: number_of_digits_def)
  qed
qed

text \<open>The unit lookup after a match never fails, so \<open>InvalidDurationUnit\<close> is unreachable.\<close>

lemma parseDurationMs_unit: "parseDurationMs v \<noteq> Inl (InvalidDurationUnit w)"
  by (auto simp: parseDurationMs_def duration_match_Some_iff UNIT_MS_def split: option.splits)

lemma parseDurationMs_ok_iff: "(\<exists>n. parseDurationMs v = Inr n) \<longleftrightarrow> isDuration v"
proof (cases "duration_match v")
  case None
  then show ?thesis by (simp add: parseDurationMs_def isDuration_def)
next
  case (Some p)
  obtain ds u where p: "p = (ds, u)" by (cases p)
  then have "u \<in> set (map fst UNIT_MS)" using Some duration_match_Some_iff by blast
  then show ?thesis using Some p by (auto simp: parseDurationMs_def isDuration_def UNIT_MS_def)
qed

lemma parseDurationMs_decimal:
  assumes "map_of UNIT_MS u = Some k"
  shows "parseDurationMs (decimal n @ u) = Inr (n * k)"
proof -
  have "u \<in> set (map fst UNIT_MS)"
    using assms by (force dest: map_of_SomeD)
  then have "duration_match (decimal n @ u) = Some (decimal n, u)"
    using decimal_digits by (simp add: duration_match_Some_iff)
  then show ?thesis
    using assms decimal_digits by (simp add: parseDurationMs_def)
qed

text \<open>
  A duration string is a decimal number followed by \<open>ms\<close>, \<open>s\<close>, \<open>m\<close> or \<open>h\<close>: \<open>parseDurationMs\<close> returns
  exactly on the strings \<open>isDuration\<close> accepts, and reads every number \<open>n\<close> written in decimal with such a
  unit back as \<open>n\<close> times the unit's milliseconds.
\<close>

lemma parse_duration_roundtrip:
  "((\<exists>ms. parseDurationMs v = Inr ms) \<longleftrightarrow> isDuration v)
   \<and> parseDurationMs (decimal n @ ''ms'') = Inr n
   \<and> parseDurationMs (decimal n @ ''s'') = Inr (n * 1000)
   \<and> parseDurationMs (decimal n @ ''m'') = Inr (n * 60000)
   \<and> parseDurationMs (decimal n @ ''h'') = Inr (n * 3600000)"
  using parseDurationMs_ok_iff [of v] parseDurationMs_decimal [of "''ms''" 1 n]
    parseDurationMs_decimal [of "''s''" 1000 n] parseDurationMs_decimal [of "''m''" 60000 n]
    parseDurationMs_decimal [of "''h''" 3600000 n]
  by (simp add: UNIT_MS_def)

end
