(* ===== verification/Json.thy ===== *)
theory Json
  imports Duration
begin

text \<open>
  JSON values and the canonical form every digest is taken of
  (\<^verbatim>\<open>packages/contracts/src/common/canonical.ts\<close>), the ISO 8601 rendering of a \<open>Date\<close> that the stored
  documents carry, and the error codes shared by the REST API
  (\<^verbatim>\<open>packages/contracts/src/common/errors.ts\<close>). An object is the list of its own properties in insertion
  order; a property set to \<open>undefined\<close> is \<open>JUndefined\<close>. Numbers are integers, and keys that JavaScript
  would order as array indices (\<open>''0''\<close>, \<open>''10''\<close>) are ordered like any other key. SHA-256 and HMAC are parameters of
  the definitions that use them.
\<close>

datatype json =
    JNull | JUndefined | JBool bool | JNum int | JStr string
  | JArr "json list" | JObj "(string \<times> json) list"

text \<open>Object keys of a JavaScript object are unique and \<open>Object.keys(value).sort()\<close> sorts them.\<close>

fun sortValue :: "json \<Rightarrow> json" where
  "sortValue (JArr vs) = JArr (map sortValue vs)"
| "sortValue (JObj ps) =
     JObj (sort_key fst
       (map (\<lambda>(k, v). (k, sortValue v)) (filter (\<lambda>p. snd p \<noteq> JUndefined) ps)))"
| "sortValue v = v"

text \<open>\<open>JSON.stringify\<close>. A string is quoted with the two-character escapes and \<open>\u00XX\<close> for the other
  control characters; an \<open>undefined\<close> element of an array prints as \<open>null\<close> and an \<open>undefined\<close> property is
  left out.\<close>

definition hex_digit :: "nat \<Rightarrow> char" where
  "hex_digit n = (if n < 10 then char_of (48 + n) else char_of (87 + n))"

definition escape_char :: "char \<Rightarrow> string" where
  "escape_char c =
     (let n = (of_char c :: nat) in
      if n = 34 then [char_of (92::nat), char_of (34::nat)]
      else if n = 92 then [char_of (92::nat), char_of (92::nat)]
      else if n = 8 then char_of (92::nat) # ''b''
      else if n = 12 then char_of (92::nat) # ''f''
      else if n = 10 then char_of (92::nat) # ''n''
      else if n = 13 then char_of (92::nat) # ''r''
      else if n = 9 then char_of (92::nat) # ''t''
      else if n < 32 then char_of (92::nat) # ''u00'' @ [hex_digit (n div 16), hex_digit (n mod 16)]
      else [c])"

definition quote :: "string \<Rightarrow> string" where
  "quote s = [char_of (34::nat)] @ concat (map escape_char s) @ [char_of (34::nat)]"

definition show_int :: "int \<Rightarrow> string" where
  "show_int n = (if n < 0 then CHR ''-'' # decimal (nat (- n)) else decimal (nat n))"

fun join_with :: "string \<Rightarrow> string list \<Rightarrow> string" where
  "join_with sep [] = []"
| "join_with sep [x] = x"
| "join_with sep (x # y # ys) = x @ sep @ join_with sep (y # ys)"

fun stringify :: "json \<Rightarrow> string" where
  "stringify JNull = ''null''"
| "stringify JUndefined = ''null''"
| "stringify (JBool b) = (if b then ''true'' else ''false'')"
| "stringify (JNum n) = show_int n"
| "stringify (JStr s) = quote s"
| "stringify (JArr vs) = ''['' @ join_with '','' (map stringify vs) @ '']''"
| "stringify (JObj ps) =
     ''{'' @ join_with '',''
       (map (\<lambda>(k, v). quote k @ '':'' @ stringify v) (filter (\<lambda>p. snd p \<noteq> JUndefined) ps)) @ ''}''"

definition canonicalJson :: "json \<Rightarrow> string" where
  "canonicalJson v = stringify (sortValue v)"

definition digestOf :: "(string \<Rightarrow> string) \<Rightarrow> json \<Rightarrow> string" where
  "digestOf sha256Hex v = ''sha256:'' @ sha256Hex (canonicalJson v)"

text \<open>Reading a document the way the code does: an own property of an object, and a chain of properties;
  \<open>None\<close> is \<open>undefined\<close>.\<close>

definition own :: "string \<Rightarrow> json \<Rightarrow> json option" where
  "own k v = (case v of JObj ps \<Rightarrow> (case map_of ps k of Some JUndefined \<Rightarrow> None | r \<Rightarrow> r) | _ \<Rightarrow> None)"

fun own_path :: "string list \<Rightarrow> json \<Rightarrow> json option" where
  "own_path [] v = Some v"
| "own_path (k # ks) v = Option.bind (own k v) (own_path ks)"

section \<open>Dates\<close>

text \<open>\<open>Date.prototype.toISOString\<close>: the proleptic Gregorian date of a day number (days since
  1970-01-01), then the time of day.\<close>

definition civil_of_days :: "int \<Rightarrow> int \<times> int \<times> int" where
  "civil_of_days d =
     (let z = d + 719468;
          era = z div 146097;
          doe = z mod 146097;
          yoe = (doe - doe div 1460 + doe div 36524 - doe div 146096) div 365;
          doy = doe - (365 * yoe + yoe div 4 - yoe div 100);
          mp = (5 * doy + 2) div 153;
          day = doy - (153 * mp + 2) div 5 + 1;
          month = (if mp < 10 then mp + 3 else mp - 9);
          year = yoe + era * 400 + (if month \<le> 2 then 1 else 0)
      in (year, month, day))"

definition padded :: "nat \<Rightarrow> int \<Rightarrow> string" where
  "padded w n = (let ds = decimal (nat n) in replicate (w - length ds) (CHR ''0'') @ ds)"

definition iso_year :: "int \<Rightarrow> string" where
  "iso_year y =
     (if 0 \<le> y \<and> y \<le> 9999 then padded 4 y
      else if y < 0 then CHR ''-'' # padded 6 (- y)
      else CHR ''+'' # padded 6 y)"

definition toISOString :: "time \<Rightarrow> string" where
  "toISOString t =
     (let (y, m, d) = civil_of_days (t div 86400000);
          ms = t mod 86400000
      in iso_year y @ ''-'' @ padded 2 m @ ''-'' @ padded 2 d @ ''T'' @
         padded 2 (ms div 3600000) @ '':'' @ padded 2 (ms div 60000 mod 60) @ '':'' @
         padded 2 (ms div 1000 mod 60) @ ''.'' @ padded 3 (ms mod 1000) @ ''Z'')"

section \<open>Error codes\<close>

definition ERROR_CODES :: "(string \<times> nat) list" where
  "ERROR_CODES =
    [(''auth.invalid_key'', 401), (''auth.missing_scope'', 403), (''auth.disabled_principal'', 403),
     (''principal.not_found'', 404), (''principal.name_conflict'', 409), (''key.not_found'', 404),
     (''request.body_too_large'', 413), (''validation.invalid'', 400), (''idempotency.conflict'', 409),
     (''capacity.queue_full'', 429), (''capacity.waiters_full'', 429), (''template.not_found'', 404),
     (''template.version_not_found'', 404), (''template.version_immutable'', 409),
     (''template.not_authorized'', 403), (''workspace.not_found'', 404),
     (''workspace.external_id_conflict'', 409), (''workspace.not_ready'', 409),
     (''workspace.terminal'', 410), (''workspace.disconnected'', 503),
     (''terminal.not_declared'', 422), (''terminal.session_limit'', 409),
     (''terminal.session_not_found'', 404), (''terminal.session_closed'', 409),
     (''terminal.protocol_unsupported'', 426), (''workspace.persistence_not_enabled'', 409),
     (''workspace.preserving'', 409), (''checkpoint.not_found'', 404),
     (''checkpoint.unsupported'', 409), (''artifact.not_found'', 404),
     (''artifact.workspace_active'', 409), (''artifact.too_large'', 413),
     (''checkpoint.not_ready'', 409), (''checkpoint.none_ready'', 409), (''checkpoint.corrupt'', 409),
     (''checkpoint.quota_exceeded'', 413), (''checkpoint.in_use'', 409),
     (''restore.template_not_authorized'', 403), (''restore.image_unavailable'', 409),
     (''restore.incompatible'', 409), (''resume.unsupported'', 409),
     (''conversation.not_found'', 404), (''conversation.expired'', 410),
     (''conversation.deleted'', 410), (''operation.conflict'', 409), (''source.not_allowed'', 422),
     (''source.invalid_revision'', 422), (''secret.unavailable'', 503), (''secret.not_found'', 404),
     (''storage.capacity_exhausted'', 507), (''relay.body_too_large'', 413),
     (''relay.route_not_allowed'', 422), (''relay.streaming_unsupported'', 409),
     (''relay.deadline_exceeded'', 504), (''relay.upstream_error'', 502),
     (''agent.interrupt_unsupported'', 409), (''attachment.invalid'', 400),
     (''attachment.too_large'', 413), (''attachment.not_found'', 404), (''attachment.conflict'', 409),
     (''attachment.unsupported'', 409), (''attachment.interrupted'', 503),
     (''maintenance.active'', 503), (''maintenance.timeout'', 503), (''backup.failed'', 409),
     (''journal.pending'', 503), (''account.purged'', 409), (''account.purge_pending'', 503),
     (''recovery.required'', 503), (''recovery.failed'', 409), (''internal.error'', 500)]"

text \<open>What the code throws: an \<open>ApiError\<close> with its code, a violated database constraint, or a plain
  \<open>Error\<close> with its message.\<close>

datatype js_error = ApiError string | DbError string | PlainError string

definition error_status :: "js_error \<Rightarrow> nat option" where
  "error_status e = (case e of ApiError code \<Rightarrow> map_of ERROR_CODES code | _ \<Rightarrow> None)"

section \<open>The canonical form is independent of key order\<close>

lemma sortValue_undefined [simp]: "sortValue v = JUndefined \<longleftrightarrow> v = JUndefined"
  by (cases v) simp_all

lemma sort_key_unique:
  assumes "distinct (map f xs)" and "set xs = set ys" and "distinct (map f ys)"
  shows "sort_key f xs = sort_key f ys"
proof (rule map_sorted_distinct_set_unique)
  show "inj_on f (set (sort_key f xs) \<union> set (sort_key f ys))"
    using assms(1,2) by (simp add: distinct_map)
  have "distinct (map f (sort_key f zs))" if "distinct (map f zs)" for zs
    using that by (simp add: distinct_map)
  then show "distinct (map f (sort_key f xs))" "distinct (map f (sort_key f ys))"
    using assms by blast+
qed (use assms(2) in simp_all)

text \<open>
  Canonical JSON does not depend on the order in which an object's properties were written: two
  objects with the same properties have the same canonical text and the same digest, and properties
  set to \<open>undefined\<close> do not count.
\<close>

lemma canonical_key_order:
  assumes "distinct (map fst ps)" and "distinct (map fst qs)"
    and "set (filter (\<lambda>p. snd p \<noteq> JUndefined) ps) = set (filter (\<lambda>p. snd p \<noteq> JUndefined) qs)"
  shows "canonicalJson (JObj ps) = canonicalJson (JObj qs)
    \<and> digestOf sha256Hex (JObj ps) = digestOf sha256Hex (JObj qs)"
proof -
  let ?g = "\<lambda>(k, v). (k, sortValue v)"
  let ?F = "filter (\<lambda>p. snd p \<noteq> JUndefined)"
  have d: "distinct (map fst (map ?g (?F zs)))" if "distinct (map fst zs)" for zs
    using that by (auto simp: distinct_map_filter case_prod_unfold comp_def)
  have "sort_key fst (map ?g (?F ps)) = sort_key fst (map ?g (?F qs))"
    using assms by (intro sort_key_unique d) (simp_all only: set_map)
  then show ?thesis by (simp add: canonicalJson_def digestOf_def)
qed

lemma canonical_key_order_witness:
  "canonicalJson (JObj [(''b'', JNum 2), (''u'', JUndefined), (''a'', JNum 1)])
     = canonicalJson (JObj [(''a'', JNum 1), (''b'', JNum 2)])
   \<and> digestOf id (JObj [(''b'', JNum 2), (''u'', JUndefined), (''a'', JNum 1)])
     = digestOf id (JObj [(''a'', JNum 1), (''b'', JNum 2)])"
  by (rule canonical_key_order) auto

end
