(* ===== verification/Key_Authority.thy ===== *)
theory Key_Authority
  imports Json
begin

text \<open>
  What a machine key may do: the scopes (\<^verbatim>\<open>packages/contracts/src/common/scopes.ts\<close>), the rows of
  principals and keys (\<^verbatim>\<open>packages/runtime-contracts/src/stores/auth.ts\<close>) and the authority a key
  has at a moment, with the checks that keep a caller from granting more than it has
  (\<^verbatim>\<open>packages/runtime-core/src/keys/principal-authority.ts\<close>).
\<close>

definition SCOPES :: "string list" where
  "SCOPES =
    [''templates:read'', ''templates:write'', ''secrets:write'', ''workspaces:create'',
     ''workspaces:read'', ''workspaces:cancel'', ''workspaces:purge'', ''workspaces:recover'',
     ''principals:admin'', ''keys:read'', ''keys:write'', ''workspaces:preserve'',
     ''workspaces:restore'', ''checkpoints:read'', ''checkpoints:delete'', ''outputs:read'',
     ''conversations:read'', ''conversations:write'', ''conversations:delete'', ''services:relay'',
     ''previews:open'', ''display:view'', ''display:control'', ''attachments:write'', ''logs:read'',
     ''network:read'', ''terminal:attach'', ''terminal:read'', ''admin'']"

definition isScope :: "string \<Rightarrow> bool" where
  "isScope v \<longleftrightarrow> v \<in> set SCOPES"

definition hasScope :: "string list \<Rightarrow> string \<Rightarrow> bool" where
  "hasScope granted required \<longleftrightarrow> required \<in> set granted \<or> ''admin'' \<in> set granted"

record principal_row =
  p_id :: ident
  p_name :: string
  p_scopes :: "string list"
  p_templateNames :: "string list"
  p_disabledAt :: "time option"
  p_createdAt :: time

record machine_key_row =
  k_id :: ident
  k_principalId :: ident
  k_secretDigest :: bytes
  k_scopes :: "string list"
  k_templateNames :: "string list option"
  k_createdAt :: time
  k_expiresAt :: "time option"
  k_revokedAt :: "time option"
  k_lastUsedAt :: "time option"
  k_issuanceRequestId :: "ident option"
  k_issuanceRequestDigest :: "string option"
  k_managedPrincipalIds :: "ident list"

record key_authority =
  a_principalId :: ident
  a_scopes :: "string list"
  a_templateNames :: "string list"
  a_expiresAt :: "time option"

definition intersectTemplateGrants :: "string list \<Rightarrow> string list option \<Rightarrow> string list" where
  "intersectTemplateGrants prin key =
     (case key of
        None \<Rightarrow> prin
      | Some ks \<Rightarrow>
          if ''*'' \<in> set prin then ks
          else if ''*'' \<in> set ks then prin
          else filter (\<lambda>name. name \<in> set prin) ks)"

definition effective_scopes :: "principal_row \<Rightarrow> machine_key_row \<Rightarrow> string list" where
  "effective_scopes prin key =
     (let scopes = (if k_scopes key \<noteq> [] then k_scopes key else p_scopes prin)
      in filter (\<lambda>scope. ''admin'' \<in> set (p_scopes prin) \<or> scope \<in> set (p_scopes prin)) scopes)"

definition keyAuthority :: "principal_row \<Rightarrow> machine_key_row \<Rightarrow> time \<Rightarrow> js_error + key_authority" where
  "keyAuthority prin key at =
     (if k_revokedAt key \<noteq> None \<or> (case k_expiresAt key of None \<Rightarrow> False | Some e \<Rightarrow> e \<le> at)
      then Inl (ApiError ''auth.invalid_key'')
      else if p_disabledAt prin \<noteq> None then Inl (ApiError ''auth.disabled_principal'')
      else Inr \<lparr> a_principalId = p_id prin,
                 a_scopes = effective_scopes prin key,
                 a_templateNames = intersectTemplateGrants (p_templateNames prin) (k_templateNames key),
                 a_expiresAt = k_expiresAt key \<rparr>)"

definition assertAuthorityScope :: "key_authority \<Rightarrow> string \<Rightarrow> js_error + unit" where
  "assertAuthorityScope authority scope =
     guardE (\<not> hasScope (a_scopes authority) scope) (ApiError ''auth.missing_scope'')"

text \<open>The scopes and template names of \<open>Pick<PrincipalRow, "scopes" | "templateNames">\<close> as two
  arguments.\<close>

definition principalWithinAuthority ::
  "string list \<Rightarrow> string list \<Rightarrow> string list \<Rightarrow> string list \<Rightarrow> bool" where
  "principalWithinAuthority authScopes authTemplates scopes templateNames \<longleftrightarrow>
     (''admin'' \<in> set authScopes \<or> (\<forall>scope \<in> set scopes. scope \<in> set authScopes))
     \<and> (\<forall>name \<in> set templateNames. ''*'' \<in> set authTemplates \<or> name \<in> set authTemplates)"

definition assertPrincipalWithinAuthority ::
  "key_authority \<Rightarrow> string list \<Rightarrow> string list \<Rightarrow> js_error + unit" where
  "assertPrincipalWithinAuthority authority scopes templateNames =
     guardE (\<not> principalWithinAuthority (a_scopes authority) (a_templateNames authority) scopes templateNames)
       (ApiError ''auth.missing_scope'')"

definition RECOVERY_SCOPES :: "string list" where
  "RECOVERY_SCOPES = [''keys:read'', ''keys:write'', ''workspaces:recover'']"

definition ADMINISTRATION_SCOPES :: "string list" where
  "ADMINISTRATION_SCOPES = [''admin'', ''principals:admin'', ''secrets:write''] @ RECOVERY_SCOPES"

definition assertKeyIssueAuthority ::
  "key_authority \<Rightarrow> machine_key_row \<Rightarrow> principal_row \<Rightarrow>
   string list \<Rightarrow> string list option \<Rightarrow> time option \<Rightarrow> ident list \<Rightarrow> js_error + unit" where
  "assertKeyIssueAuthority authority caller target scopes templateNames expiresAt managed =
     (let owner = ''admin'' \<in> set (a_scopes authority);
          delegated = p_id target \<in> set (k_managedPrincipalIds caller);
          denied = ApiError ''auth.missing_scope''
      in bindE (assertAuthorityScope authority ''keys:write'') (\<lambda>_.
         bindE (guardE (case expiresAt of
                  None \<Rightarrow> True
                | Some e \<Rightarrow> (case a_expiresAt authority of None \<Rightarrow> False | Some ae \<Rightarrow> ae < e)) denied) (\<lambda>_.
         bindE (guardE (\<not> owner \<and> delegated \<and>
                  (\<exists>scope \<in> set (p_scopes target). scope \<in> set ADMINISTRATION_SCOPES)) denied) (\<lambda>_.
         bindE (if \<not> owner \<and> \<not> delegated
                then assertPrincipalWithinAuthority authority (p_scopes target) (p_templateNames target)
                else Inr ()) (\<lambda>_.
         bindE (guardE (\<not> owner \<and> delegated \<and>
                  (\<exists>scope \<in> set scopes. scope \<in> set ADMINISTRATION_SCOPES)) denied) (\<lambda>_.
         bindE (guardE (\<not> owner \<and> \<not> delegated \<and>
                  (\<exists>scope \<in> set scopes. scope \<notin> set (a_scopes authority))) denied) (\<lambda>_.
         bindE (assertPrincipalWithinAuthority (authority\<lparr>a_scopes := [''admin'']\<rparr>) []
                  (case templateNames of Some ts \<Rightarrow> ts | None \<Rightarrow> p_templateNames target)) (\<lambda>_.
         guardE (managed \<noteq> [] \<and> (\<not> owner \<or> (\<exists>scope \<in> set scopes. scope \<notin> set RECOVERY_SCOPES)))
           denied))))))))"

section \<open>Facts about grants\<close>

lemma effective_scopes_subset:
  "s \<in> set (effective_scopes p k) \<Longrightarrow>
     (''admin'' \<in> set (p_scopes p) \<or> s \<in> set (p_scopes p)) \<and> (k_scopes k \<noteq> [] \<longrightarrow> s \<in> set (k_scopes k))"
  by (auto simp: effective_scopes_def Let_def split: if_splits)

lemma keyAuthority_Inr_iff:
  "keyAuthority p k at = Inr a \<longleftrightarrow>
     k_revokedAt k = None \<and> (\<forall>e. k_expiresAt k = Some e \<longrightarrow> at < e) \<and> p_disabledAt p = None
     \<and> a = \<lparr> a_principalId = p_id p, a_scopes = effective_scopes p k,
             a_templateNames = intersectTemplateGrants (p_templateNames p) (k_templateNames k),
             a_expiresAt = k_expiresAt k \<rparr>"
  by (auto simp: keyAuthority_def split: option.splits)

text \<open>A template name is covered by a list of grants directly or by the wildcard.\<close>

definition covers :: "string list \<Rightarrow> string \<Rightarrow> bool" where
  "covers grants name \<longleftrightarrow> ''*'' \<in> set grants \<or> name \<in> set grants"

lemma covers_intersect:
  "covers (intersectTemplateGrants ps ks) name \<longleftrightarrow>
     covers ps name \<and> (case ks of None \<Rightarrow> True | Some k \<Rightarrow> covers k name)"
  by (auto simp: covers_def intersectTemplateGrants_def split: option.splits if_splits)

lemma principalWithinAuthority_iff:
  "principalWithinAuthority as ats ss ts \<longleftrightarrow>
     (''admin'' \<in> set as \<or> set ss \<subseteq> set as) \<and> (\<forall>t \<in> set ts. covers ats t)"
  by (auto simp: principalWithinAuthority_def covers_def)

lemma assertKeyIssueAuthority_Inr_iff:
  "assertKeyIssueAuthority a c tg ss tns ex ms = Inr u \<longleftrightarrow>
     hasScope (a_scopes a) ''keys:write''
     \<and> (\<exists>e. ex = Some e \<and> (\<forall>ae. a_expiresAt a = Some ae \<longrightarrow> e \<le> ae))
     \<and> (\<forall>t \<in> set (case tns of Some ts \<Rightarrow> ts | None \<Rightarrow> p_templateNames tg). covers (a_templateNames a) t)
     \<and> (if ''admin'' \<in> set (a_scopes a) then ms \<noteq> [] \<longrightarrow> set ss \<subseteq> set RECOVERY_SCOPES
        else ms = [] \<and>
          (if p_id tg \<in> set (k_managedPrincipalIds c)
           then set (p_scopes tg) \<inter> set ADMINISTRATION_SCOPES = {} \<and> set ss \<inter> set ADMINISTRATION_SCOPES = {}
           else principalWithinAuthority (a_scopes a) (a_templateNames a) (p_scopes tg) (p_templateNames tg)
             \<and> set ss \<subseteq> set (a_scopes a)))"
  by (cases ex; cases "a_expiresAt a")
     (auto simp: assertKeyIssueAuthority_def assertAuthorityScope_def assertPrincipalWithinAuthority_def
        principalWithinAuthority_iff Let_def not_less)

text \<open>
  A key never exceeds its principal: the authority of a key exists only while the key is neither
  revoked nor expired and the principal is enabled; each of its scopes is held by the principal (or the
  principal is an administrator) and by the key where the key narrows them; and it covers a template
  exactly when both the principal's and the key's grants cover it.
\<close>

lemma key_authority_bounded:
  assumes "keyAuthority p k at = Inr a"
  shows "k_revokedAt k = None \<and> (\<forall>e. k_expiresAt k = Some e \<longrightarrow> at < e) \<and> p_disabledAt p = None
    \<and> (\<forall>s \<in> set (a_scopes a). (hasScope (p_scopes p) s) \<and> (k_scopes k \<noteq> [] \<longrightarrow> s \<in> set (k_scopes k)))
    \<and> (\<forall>name. covers (a_templateNames a) name \<longleftrightarrow>
         covers (p_templateNames p) name
         \<and> (case k_templateNames k of None \<Rightarrow> True | Some ks \<Rightarrow> covers ks name))"
  using assms effective_scopes_subset [of _ p k]
  by (auto simp: keyAuthority_Inr_iff hasScope_def covers_intersect)

definition example_principal :: principal_row where
  "example_principal = \<lparr> p_id = ''p1'', p_name = ''backend'', p_scopes = [''keys:write'', ''logs:read''],
     p_templateNames = [''pi'', ''echo''], p_disabledAt = None, p_createdAt = 0 \<rparr>"

definition example_key :: machine_key_row where
  "example_key = \<lparr> k_id = ''k1'', k_principalId = ''p1'', k_secretDigest = [1, 2], k_scopes = [''logs:read'', ''admin''],
     k_templateNames = Some [''*''], k_createdAt = 0, k_expiresAt = Some 100, k_revokedAt = None,
     k_lastUsedAt = None, k_issuanceRequestId = None, k_issuanceRequestDigest = None,
     k_managedPrincipalIds = [] \<rparr>"

lemma key_authority_bounded_witness:
  "\<exists>a. keyAuthority example_principal example_key 50 = Inr a \<and> a_scopes a = [''logs:read'']
     \<and> covers (a_templateNames a) ''pi'' \<and> \<not> covers (a_templateNames a) ''other''"
proof -
  obtain a where a: "keyAuthority example_principal example_key 50 = Inr a"
    by (simp add: keyAuthority_def example_principal_def example_key_def)
  have "a_scopes a = [''logs:read'']"
    using a by (simp add: keyAuthority_Inr_iff effective_scopes_def example_principal_def example_key_def)
  moreover have "covers (a_templateNames a) ''pi'' \<and> \<not> covers (a_templateNames a) ''other''"
    using key_authority_bounded [OF a] by (simp add: covers_def example_principal_def example_key_def)
  ultimately show ?thesis using a by blast
qed

end
