(* ===== verification/Journal.thy ===== *)
theory Journal
  imports Prelude
begin

text \<open>
  The records of the recovery journal (\<^verbatim>\<open>packages/db/src/journal/events.ts\<close>): the revocations, deletions
  and grants that must survive restoring an older backup of the database, in the order they were appended. The
  journal is a file beside the database; a deployment without one is \<open>None\<close>.
\<close>

datatype journal_event =
    KeyRevoked ident time
  | KeysRevoked ident "ident list" time
  | PrincipalDisabled ident "ident list" time
  | PrincipalEnabled ident time
  | PrincipalAccess ident "string list" "string list" time
  | SecretRetired string ident time
  | TemplateRetired string string time
  | ConversationDeleted ident "ident option" "ident option" time
  | WorkspacePurged ident ident time
  | CheckpointDeleted ident ident time
  | WriterClaimed string time

definition journal_add :: "journal_event list \<Rightarrow> journal_event list option \<Rightarrow> journal_event list option" where
  "journal_add es j = map_option (\<lambda>old. old @ es) j"

end
