(* ===== verification/Auth_Store.thy ===== *)
theory Auth_Store
  imports Key_Authority Journal
begin

text \<open>
  The tables of principals and machine keys and every transaction on them
  (\<^verbatim>\<open>packages/db/src/modules/auth/\<close>), with the recovery journal they append to
  (\<^verbatim>\<open>packages/db/src/journal/events.ts\<close>). A transaction is a function from the database to either the
  error it throws, in which case nothing is committed, or its result and the database after the commit.
  The journal is a file: \<open>None\<close> when the deployment has none, otherwise the events in the order they were
  appended. Generated UUIDs and clock reads are arguments; a clock read several times is a \<open>clock\<close>.
  Primary keys and unique columns are constraints of the tables, and violating one is a \<open>DbError\<close>.
\<close>

record auth_db =
  principals :: "principal_row list"
  machineKeys :: "machine_key_row list"
  journal :: "journal_event list option"

definition journal_append :: "journal_event list \<Rightarrow> auth_db \<Rightarrow> auth_db" where
  "journal_append es d = d\<lparr>journal := map_option (\<lambda>j. j @ es) (journal d)\<rparr>"

record principal_patch =
  pp_scopes :: "string list option"
  pp_templateNames :: "string list option"
  pp_disabled :: "bool option"

record locked_authority =
  la_authority :: key_authority
  la_key :: machine_key_row
  la_target :: "principal_row option"
  la_locked :: "principal_row list"

definition lockKeyAuthority ::
  "auth_db \<Rightarrow> ident \<Rightarrow> ident option \<Rightarrow> ident list \<Rightarrow> time \<Rightarrow> js_error + locked_authority" where
  "lockKeyAuthority d keyId targetId additionalIds now =
     (case row_by k_id keyId (machineKeys d) of
        None \<Rightarrow> Inl (ApiError ''auth.invalid_key'')
      | Some key \<Rightarrow>
          (let ids = [k_principalId key] @ additionalIds @ (case targetId of None \<Rightarrow> [] | Some t \<Rightarrow> [t]);
               locked = sort_key p_id (filter (\<lambda>p. p_id p \<in> set ids) (principals d))
           in case List.find (\<lambda>p. p_id p = k_principalId key) locked of
                None \<Rightarrow> Inl (ApiError ''auth.invalid_key'')
              | Some caller \<Rightarrow>
                  bindE (keyAuthority caller key now) (\<lambda>authority.
                    Inr \<lparr> la_authority = authority, la_key = key,
                          la_target = (case targetId of None \<Rightarrow> None
                                       | Some t \<Rightarrow> List.find (\<lambda>p. p_id p = t) locked),
                          la_locked = locked \<rparr>)))"

section \<open>Keys\<close>

definition unrevokedKeyIds :: "auth_db \<Rightarrow> ident \<Rightarrow> bool \<Rightarrow> ident list" where
  "unrevokedKeyIds d principalId needed =
     (if \<not> needed then []
      else map k_id (filter (\<lambda>k. k_principalId k = principalId \<and> k_revokedAt k = None) (machineKeys d)))"

definition revokeKeyIds :: "ident list \<Rightarrow> time \<Rightarrow> auth_db \<Rightarrow> auth_db" where
  "revokeKeyIds ids at d =
     (if ids = [] then d
      else d\<lparr>machineKeys := update_where (\<lambda>k. k_id k \<in> set ids \<and> k_revokedAt k = None)
                              (\<lambda>k. k\<lparr>k_revokedAt := Some at\<rparr>) (machineKeys d)\<rparr>)"

definition assertTargetGrants :: "principal_row \<Rightarrow> machine_key_row \<Rightarrow> time \<Rightarrow> js_error + unit" where
  "assertTargetGrants prin input now =
     bindE (guardE (p_disabledAt prin \<noteq> None) (ApiError ''auth.disabled_principal'')) (\<lambda>_.
     bindE (guardE (k_issuanceRequestId input \<noteq> None \<and>
              (case k_expiresAt input of None \<Rightarrow> False | Some e \<Rightarrow> e \<le> now))
              (ApiError ''validation.invalid'')) (\<lambda>_.
     bindE (guardE (\<exists>scope \<in> set (k_scopes input).
              ''admin'' \<notin> set (p_scopes prin) \<and> scope \<notin> set (p_scopes prin))
              (ApiError ''auth.missing_scope'')) (\<lambda>_.
     guardE (case k_templateNames input of
               None \<Rightarrow> False
             | Some names \<Rightarrow> \<exists>name \<in> set names.
                 ''*'' \<notin> set (p_templateNames prin) \<and> name \<notin> set (p_templateNames prin))
       (ApiError ''template.not_authorized''))))"

text \<open>\<open>lockedPrincipal\<close> of the key inventory. The caller's authority is read at \<open>now\<close>.\<close>

definition lockedPrincipal ::
  "auth_db \<Rightarrow> machine_key_row \<Rightarrow> ident option \<Rightarrow> time \<Rightarrow> js_error + principal_row" where
  "lockedPrincipal d input actorKeyId now =
     bindE (case actorKeyId of
              None \<Rightarrow> Inr None
            | Some a \<Rightarrow> (case lockKeyAuthority d a (Some (k_principalId input)) (k_managedPrincipalIds input) now of
                          Inl e \<Rightarrow> Inl e | Inr la \<Rightarrow> Inr (Some la))) (\<lambda>actor.
     let locked = (case actor of
            Some la \<Rightarrow> la_locked la
          | None \<Rightarrow> sort_key p_id
              (filter (\<lambda>p. p_id p \<in> set (k_principalId input # k_managedPrincipalIds input)) (principals d)))
     in case List.find (\<lambda>p. p_id p = k_principalId input) locked of
          None \<Rightarrow> Inl (ApiError ''auth.invalid_key'')
        | Some prin \<Rightarrow>
            bindE (guardE (\<exists>i \<in> set (k_managedPrincipalIds input). \<not> (\<exists>p \<in> set locked. p_id p = i))
                     (ApiError ''principal.not_found'')) (\<lambda>_.
            bindE (case actor of
                     None \<Rightarrow> Inr ()
                   | Some la \<Rightarrow> assertKeyIssueAuthority (la_authority la) (la_key la) prin (k_scopes input)
                       (Some (case k_templateNames input of Some t \<Rightarrow> t | None \<Rightarrow> p_templateNames prin))
                       (k_expiresAt input) (k_managedPrincipalIds input)) (\<lambda>_.
            Inr prin)))"

record issue_result =
  ir_key :: machine_key_row
  ir_principal :: principal_row
  ir_created :: bool
  ir_conflict :: bool

definition insert_key :: "machine_key_row \<Rightarrow> auth_db \<Rightarrow> js_error + auth_db" where
  "insert_key key d =
     (if k_id key \<in> k_id ` set (machineKeys d) then Inl (DbError ''machine_keys_pkey'')
      else Inr (d\<lparr>machineKeys := machineKeys d @ [key]\<rparr>))"

text \<open>The first clock read is the caller's authority, the second the check of the requested expiry.\<close>

definition issueMachineKey ::
  "auth_db \<Rightarrow> machine_key_row \<Rightarrow> ident option \<Rightarrow> clock \<Rightarrow> js_error + (issue_result \<times> auth_db)" where
  "issueMachineKey d input actorKeyId now =
     bindE (lockedPrincipal d input actorKeyId (now 0)) (\<lambda>prin.
     case (case k_issuanceRequestId input of
             None \<Rightarrow> None
           | Some r \<Rightarrow> List.find (\<lambda>k. k_principalId k = k_principalId input \<and> k_issuanceRequestId k = Some r)
                         (machineKeys d)) of
       Some existing \<Rightarrow>
         Inr (\<lparr> ir_key = existing, ir_principal = prin, ir_created = False,
                ir_conflict = k_issuanceRequestDigest existing \<noteq> k_issuanceRequestDigest input \<rparr>, d)
     | None \<Rightarrow>
         bindE (assertTargetGrants prin input (now 1)) (\<lambda>_.
         bindE (insert_key input d) (\<lambda>d'.
         Inr (\<lparr> ir_key = input, ir_principal = prin, ir_created = True, ir_conflict = False \<rparr>, d'))))"

definition insertMachineKey :: "auth_db \<Rightarrow> machine_key_row \<Rightarrow> clock \<Rightarrow> js_error + auth_db" where
  "insertMachineKey d input now = bindE (issueMachineKey d input None now) (\<lambda>(_, d'). Inr d')"

definition listMachineKeys :: "auth_db \<Rightarrow> ident \<Rightarrow> nat \<Rightarrow> ident option \<Rightarrow> ident option \<Rightarrow> machine_key_row list" where
  "listMachineKeys d principalId limit cursor requestId =
     take limit (sort_key k_id (filter (\<lambda>k. k_principalId k = principalId
       \<and> (case cursor of None \<Rightarrow> True | Some c \<Rightarrow> c < k_id k)
       \<and> (case requestId of None \<Rightarrow> True | Some r \<Rightarrow> k_issuanceRequestId k = Some r)) (machineKeys d)))"

definition getMachineKeyWithPrincipal :: "auth_db \<Rightarrow> ident \<Rightarrow> (machine_key_row \<times> principal_row) option" where
  "getMachineKeyWithPrincipal d keyId =
     (case row_by k_id keyId (machineKeys d) of
        None \<Rightarrow> None
      | Some k \<Rightarrow> map_option (\<lambda>p. (k, p)) (row_by p_id (k_principalId k) (principals d)))"

definition listActiveMachineKeys ::
  "auth_db \<Rightarrow> time \<Rightarrow> time option \<Rightarrow> (machine_key_row \<times> principal_row) list" where
  "listActiveMachineKeys d at expiringBefore =
     sort_key (\<lambda>kp. case k_expiresAt (fst kp) of None \<Rightarrow> 0 | Some e \<Rightarrow> e) (sort_key (\<lambda>kp. k_id (fst kp))
       (filter (\<lambda>(k, p). p_disabledAt p = None \<and> k_revokedAt k = None
            \<and> (case k_expiresAt k of None \<Rightarrow> False
               | Some e \<Rightarrow> at < e \<and> (case expiringBefore of None \<Rightarrow> True | Some b \<Rightarrow> e \<le> b)))
          (concat (map (\<lambda>k. map (\<lambda>p. (k, p)) (filter (\<lambda>p. p_id p = k_principalId k) (principals d)))
             (machineKeys d)))))"

definition touchMachineKey :: "auth_db \<Rightarrow> ident \<Rightarrow> time \<Rightarrow> auth_db" where
  "touchMachineKey d keyId at =
     d\<lparr>machineKeys := update_where
        (\<lambda>k. k_id k = keyId \<and> (case k_lastUsedAt k of None \<Rightarrow> True | Some t \<Rightarrow> t < at - 60000))
        (\<lambda>k. k\<lparr>k_lastUsedAt := Some at\<rparr>) (machineKeys d)\<rparr>"

section \<open>Revocation\<close>

definition lockTarget :: "auth_db \<Rightarrow> ident \<Rightarrow> ident option \<Rightarrow> time \<Rightarrow> js_error + unit" where
  "lockTarget d principalId actorKeyId now =
     (case actorKeyId of
        None \<Rightarrow> Inr ()
      | Some a \<Rightarrow>
          bindE (lockKeyAuthority d a (Some principalId) [] now) (\<lambda>la.
          bindE (assertAuthorityScope (la_authority la) ''keys:write'') (\<lambda>_.
          case la_target la of
            None \<Rightarrow> Inl (ApiError ''principal.not_found'')
          | Some target \<Rightarrow>
              if ''admin'' \<notin> set (a_scopes (la_authority la)) \<and> k_managedPrincipalIds (la_key la) \<noteq> []
              then guardE (p_id target \<notin> set (k_managedPrincipalIds (la_key la))) (ApiError ''principal.not_found'')
              else guardE (\<not> principalWithinAuthority (a_scopes (la_authority la)) (a_templateNames (la_authority la))
                                (p_scopes target) (p_templateNames target)) (ApiError ''principal.not_found''))))"

definition revokeMachineKey ::
  "auth_db \<Rightarrow> ident \<Rightarrow> time \<Rightarrow> ident option \<Rightarrow> time \<Rightarrow> js_error + (bool \<times> auth_db)" where
  "revokeMachineKey d keyId at actorKeyId now =
     (case row_by k_id keyId (machineKeys d) of
        None \<Rightarrow> Inr (False, d)
      | Some identity \<Rightarrow>
          bindE (lockTarget d (k_principalId identity) actorKeyId now) (\<lambda>_.
          let d1 = journal_append [KeyRevoked keyId at] d;
              live = filter (\<lambda>k. k_id k = keyId \<and> k_revokedAt k = None) (machineKeys d1)
          in Inr (live \<noteq> [], d1\<lparr>machineKeys := update_where (\<lambda>k. k_id k = keyId \<and> k_revokedAt k = None)
                                   (\<lambda>k. k\<lparr>k_revokedAt := Some at\<rparr>) (machineKeys d1)\<rparr>)))"

definition revokePrincipalKeys ::
  "auth_db \<Rightarrow> ident \<Rightarrow> time \<Rightarrow> ident option \<Rightarrow> time \<Rightarrow> js_error + auth_db" where
  "revokePrincipalKeys d principalId at actorKeyId now =
     bindE (lockTarget d principalId actorKeyId now) (\<lambda>_.
     let keyIds = unrevokedKeyIds d principalId True;
         d1 = journal_append [PrincipalDisabled principalId keyIds at] d;
         d2 = d1\<lparr>principals := set_row p_id principalId (\<lambda>p. p\<lparr>p_disabledAt := Some at\<rparr>) (principals d1)\<rparr>
     in Inr (revokeKeyIds keyIds at d2))"

section \<open>Principals\<close>

definition insert_principal :: "principal_row \<Rightarrow> auth_db \<Rightarrow> js_error + auth_db" where
  "insert_principal p d =
     (if p_id p \<in> p_id ` set (principals d) then Inl (DbError ''principals_pkey'')
      else Inr (d\<lparr>principals := principals d @ [p]\<rparr>))"

definition createPrincipal ::
  "auth_db \<Rightarrow> ident \<Rightarrow> string \<Rightarrow> string list \<Rightarrow> string list \<Rightarrow> time \<Rightarrow> js_error + (principal_row \<times> auth_db)" where
  "createPrincipal d uuid name scopes templateNames now =
     (if name \<in> p_name ` set (principals d) then Inl (DbError ''principals_name_unique'')
      else let row = \<lparr> p_id = uuid, p_name = name, p_scopes = scopes, p_templateNames = templateNames,
                       p_disabledAt = None, p_createdAt = now \<rparr>
           in bindE (insert_principal row d) (\<lambda>d'. Inr (row, d')))"

definition updatePrincipal ::
  "auth_db \<Rightarrow> ident \<Rightarrow> string list \<Rightarrow> string list \<Rightarrow> principal_row option \<times> auth_db" where
  "updatePrincipal d i scopes templateNames =
     (let d' = d\<lparr>principals := set_row p_id i (\<lambda>p. p\<lparr>p_scopes := scopes, p_templateNames := templateNames\<rparr>) (principals d)\<rparr>
      in (row_by p_id i (principals d'), d'))"

definition setPrincipalDisabled :: "auth_db \<Rightarrow> ident \<Rightarrow> bool \<Rightarrow> time \<Rightarrow> auth_db" where
  "setPrincipalDisabled d i disabled now =
     d\<lparr>principals := set_row p_id i (\<lambda>p. p\<lparr>p_disabledAt := (if disabled then Some now else None)\<rparr>) (principals d)\<rparr>"

text \<open>Which journal records a change of a principal writes before its commit, and which after it.\<close>

definition principalEvents ::
  "principal_row \<Rightarrow> principal_patch \<Rightarrow> string list \<Rightarrow> string list \<Rightarrow> ident list \<Rightarrow> time \<Rightarrow>
   journal_event list \<times> journal_event list" where
  "principalEvents target patch scopes templateNames keyIds at =
     (let access = PrincipalAccess (p_id target) scopes templateNames at;
          changed = pp_scopes patch \<noteq> None \<or> pp_templateNames patch \<noteq> None;
          narrows = (\<forall>scope \<in> set scopes. scope \<in> set (p_scopes target))
            \<and> (\<forall>name \<in> set templateNames. name \<in> set (p_templateNames target))
      in ((if changed \<and> narrows then [access] else [])
            @ (if pp_disabled patch = Some True then [PrincipalDisabled (p_id target) keyIds at] else []),
          (if changed \<and> \<not> narrows then [access] else [])
            @ (if pp_disabled patch = Some False then [PrincipalEnabled (p_id target) at] else [])))"

definition createManagedPrincipal ::
  "auth_db \<Rightarrow> ident \<Rightarrow> ident \<Rightarrow> string \<Rightarrow> string list \<Rightarrow> string list \<Rightarrow> clock \<Rightarrow> js_error + (principal_row \<times> auth_db)" where
  "createManagedPrincipal d uuid actorKeyId name scopes templateNames now =
     bindE (lockKeyAuthority d actorKeyId None [] (now 0)) (\<lambda>la.
     bindE (assertAuthorityScope (la_authority la) ''principals:admin'') (\<lambda>_.
     bindE (assertPrincipalWithinAuthority (la_authority la) scopes templateNames) (\<lambda>_.
     let row = \<lparr> p_id = uuid, p_name = name, p_scopes = scopes, p_templateNames = templateNames,
                 p_disabledAt = None, p_createdAt = now 1 \<rparr>
     in if name \<in> p_name ` set (principals d) then Inl (ApiError ''principal.name_conflict'')
        else bindE (insert_principal row d) (\<lambda>d'. Inr (row, d')))))"

text \<open>The update both administration paths write: the grants, the disabled mark where the patch has
  one, and the revocation of the listed keys.\<close>

definition write_principal ::
  "ident \<Rightarrow> string list \<Rightarrow> string list \<Rightarrow> bool option \<Rightarrow> ident list \<Rightarrow> time \<Rightarrow> auth_db \<Rightarrow> auth_db" where
  "write_principal i scopes templateNames disabled keyIds at d =
     revokeKeyIds keyIds at
       (d\<lparr>principals := set_row p_id i
            (\<lambda>p. p\<lparr>p_scopes := scopes, p_templateNames := templateNames,
                   p_disabledAt := (case disabled of None \<Rightarrow> p_disabledAt p
                                    | Some b \<Rightarrow> if b then Some at else None)\<rparr>) (principals d)\<rparr>)"

definition updateManagedPrincipal ::
  "auth_db \<Rightarrow> ident \<Rightarrow> ident \<Rightarrow> principal_patch \<Rightarrow> clock \<Rightarrow> js_error + (principal_row option \<times> auth_db)" where
  "updateManagedPrincipal d actorKeyId i patch now =
     bindE (lockKeyAuthority d actorKeyId (Some i) [] (now 0)) (\<lambda>la.
     bindE (assertAuthorityScope (la_authority la) ''principals:admin'') (\<lambda>_.
     case la_target la of
       None \<Rightarrow> Inl (ApiError ''principal.not_found'')
     | Some target \<Rightarrow>
         bindE (guardE (p_id target = a_principalId (la_authority la)) (ApiError ''auth.missing_scope'')) (\<lambda>_.
         bindE (assertPrincipalWithinAuthority (la_authority la) (p_scopes target) (p_templateNames target)) (\<lambda>_.
         let scopes = (case pp_scopes patch of Some s \<Rightarrow> s | None \<Rightarrow> p_scopes target);
             templateNames = (case pp_templateNames patch of Some t \<Rightarrow> t | None \<Rightarrow> p_templateNames target)
         in bindE (assertPrincipalWithinAuthority (la_authority la) scopes templateNames) (\<lambda>_.
            let at = now 1;
                keyIds = unrevokedKeyIds d i (pp_disabled patch = Some True);
                (before, later) = principalEvents target patch scopes templateNames keyIds at;
                d1 = write_principal i scopes templateNames (pp_disabled patch) keyIds at (journal_append before d)
            in Inr (row_by p_id i (principals d1), journal_append later d1))))))"

record configured_principal =
  cp_id :: ident
  cp_name :: string
  cp_scopes :: "string list"
  cp_templateNames :: "string list"
  cp_disabled :: bool

definition principalPatch :: "principal_row \<Rightarrow> configured_principal \<Rightarrow> principal_patch" where
  "principalPatch target input =
     \<lparr> pp_scopes = (if p_scopes target = cp_scopes input then None else Some (cp_scopes input)),
       pp_templateNames = (if p_templateNames target = cp_templateNames input then None
                           else Some (cp_templateNames input)),
       pp_disabled = (if cp_disabled input = (p_disabledAt target \<noteq> None) then None
                      else Some (cp_disabled input)) \<rparr>"

definition applyConfiguredPrincipal ::
  "auth_db \<Rightarrow> configured_principal \<Rightarrow> time \<Rightarrow> js_error + (principal_row option \<times> auth_db)" where
  "applyConfiguredPrincipal d input at =
     (case row_by p_id (cp_id input) (principals d) of
        None \<Rightarrow>
          let row = \<lparr> p_id = cp_id input, p_name = cp_name input, p_scopes = cp_scopes input,
                      p_templateNames = cp_templateNames input,
                      p_disabledAt = (if cp_disabled input then Some at else None), p_createdAt = at \<rparr>
          in if cp_name input \<in> p_name ` set (principals d) then Inl (ApiError ''principal.name_conflict'')
             else bindE (insert_principal row d) (\<lambda>d'. Inr (Some row, d'))
      | Some target \<Rightarrow>
          let patch = principalPatch target input;
              keyIds = unrevokedKeyIds d (cp_id input) (pp_disabled patch = Some True);
              (before, later) = principalEvents target patch (cp_scopes input) (cp_templateNames input) keyIds at;
              d1 = write_principal (cp_id input) (cp_scopes input) (cp_templateNames input) (pp_disabled patch)
                     keyIds at (journal_append before d)
          in Inr (row_by p_id (cp_id input) (principals d1), journal_append later d1))"

section \<open>The owner\<close>

text \<open>The part of the bootstrap that writes: revoke the owner's keys when replacing, restore the
  owner's grants, insert the new key, and journal that a disabled owner is enabled again.\<close>

definition owner_tables :: "auth_db \<Rightarrow> principal_row \<Rightarrow> bool \<Rightarrow> time \<Rightarrow> auth_db" where
  "owner_tables d0 prin replace at =
     (let keyIds = unrevokedKeyIds d0 (p_id prin) True;
          d1 = (if replace then revokeKeyIds keyIds at (journal_append [KeysRevoked (p_id prin) keyIds at] d0)
                else d0)
      in d1\<lparr>principals := set_row p_id (p_id prin)
             (\<lambda>p. p\<lparr>p_scopes := [''admin''], p_templateNames := [''*''], p_disabledAt := None\<rparr>)
             (principals d1)\<rparr>)"

definition install_owner_key ::
  "auth_db \<Rightarrow> principal_row \<Rightarrow> machine_key_row \<Rightarrow> bool \<Rightarrow> time \<Rightarrow> js_error + (issue_result \<times> auth_db)" where
  "install_owner_key d0 prin input replace at =
     (let d2 = owner_tables d0 prin replace at
      in case row_by p_id (p_id prin) (principals d2) of
           None \<Rightarrow> Inl (PlainError ''required row'')
         | Some owner \<Rightarrow>
             bindE (insert_key (input\<lparr>k_principalId := p_id owner\<rparr>) d2) (\<lambda>d3.
             Inr (\<lparr> ir_key = input\<lparr>k_principalId := p_id owner\<rparr>, ir_principal = owner,
                    ir_created = True, ir_conflict = False \<rparr>,
                  journal_append (if p_disabledAt prin \<noteq> None then [PrincipalEnabled (p_id prin) at] else []) d3)))"

text \<open>\<open>input\<close> carries no principal yet. The clock is read for the expiry check, for the row that is
  inserted, and for the replacement.\<close>

definition bootstrapOwnerKey ::
  "auth_db \<Rightarrow> ident \<Rightarrow> machine_key_row \<Rightarrow> bool \<Rightarrow> clock \<Rightarrow> js_error + (issue_result \<times> auth_db)" where
  "bootstrapOwnerKey d uuid input replace now =
     bindE (guardE (case k_expiresAt input of None \<Rightarrow> True | Some e \<Rightarrow> e \<le> now 0)
              (ApiError ''validation.invalid'')) (\<lambda>_.
     bindE (if ''owner'' \<in> p_name ` set (principals d) then Inr d
            else insert_principal \<lparr> p_id = uuid, p_name = ''owner'', p_scopes = [''admin''],
                   p_templateNames = [''*''], p_disabledAt = None, p_createdAt = now 1 \<rparr> d) (\<lambda>d0.
     case List.find (\<lambda>p. p_name p = ''owner'') (principals d0) of
       None \<Rightarrow> Inl (PlainError ''required row'')
     | Some prin \<Rightarrow>
         (case List.find (\<lambda>k. k_principalId k = p_id prin \<and> k_issuanceRequestId k \<noteq> None
                   \<and> k_issuanceRequestId k = k_issuanceRequestId input) (machineKeys d0) of
            Some existing \<Rightarrow>
              Inr (\<lparr> ir_key = existing, ir_principal = prin, ir_created = False,
                     ir_conflict = k_issuanceRequestDigest existing \<noteq> k_issuanceRequestDigest input \<rparr>, d0)
          | None \<Rightarrow> install_owner_key d0 prin input replace (now 2))))"

end
