(* ===== verification/Auth_Properties.thy ===== *)
theory Auth_Properties
  imports Auth_Store
begin

text \<open>
  The invariant of the principal and key tables, that every transaction of \<open>Auth_Store\<close> keeps it, and
  what follows for any sequence of transactions: revocation is permanent, issuance is idempotent, and no
  caller grants more than it has.
\<close>

section \<open>The invariant of the tables\<close>

interpretation keys: keyed_table k_id "row_by k_id" "set_row k_id"
  by (rule keyed_table_rows)

interpretation prins: keyed_table p_id "row_by p_id" "set_row p_id"
  by (rule keyed_table_rows)

text \<open>Primary keys, the unique name, the foreign key of a machine key, and the unique pair of
  principal and issuance request.\<close>

definition request_unique :: "machine_key_row list \<Rightarrow> bool" where
  "request_unique ks \<longleftrightarrow>
     (\<forall>k \<in> set ks. \<forall>k' \<in> set ks. k_principalId k = k_principalId k' \<longrightarrow>
        k_issuanceRequestId k = k_issuanceRequestId k' \<longrightarrow> k_issuanceRequestId k \<noteq> None \<longrightarrow> k_id k = k_id k')"

definition auth_inv :: "auth_db \<Rightarrow> bool" where
  "auth_inv d \<longleftrightarrow>
     distinct (map p_id (principals d)) \<and> distinct (map p_name (principals d))
     \<and> distinct (map k_id (machineKeys d))
     \<and> k_principalId ` set (machineKeys d) \<subseteq> p_id ` set (principals d)
     \<and> request_unique (machineKeys d)"

text \<open>What no operation changes of a stored key: its identity and its grants; and a revocation
  stays.\<close>

definition key_le :: "machine_key_row \<Rightarrow> machine_key_row \<Rightarrow> bool" where
  "key_le k k' \<longleftrightarrow>
     k_id k' = k_id k \<and> k_principalId k' = k_principalId k \<and> k_secretDigest k' = k_secretDigest k
     \<and> k_scopes k' = k_scopes k \<and> k_templateNames k' = k_templateNames k \<and> k_createdAt k' = k_createdAt k
     \<and> k_expiresAt k' = k_expiresAt k \<and> k_issuanceRequestId k' = k_issuanceRequestId k
     \<and> k_issuanceRequestDigest k' = k_issuanceRequestDigest k
     \<and> k_managedPrincipalIds k' = k_managedPrincipalIds k
     \<and> (k_revokedAt k \<noteq> None \<longrightarrow> k_revokedAt k' = k_revokedAt k)"

definition auth_le :: "auth_db \<Rightarrow> auth_db \<Rightarrow> bool" where
  "auth_le d d' \<longleftrightarrow>
     (\<forall>k \<in> set (machineKeys d). \<exists>k' \<in> set (machineKeys d'). key_le k k')
     \<and> (\<forall>p \<in> set (principals d). \<exists>p' \<in> set (principals d'). p_id p' = p_id p \<and> p_name p' = p_name p)"

lemma key_le_refl [simp]: "key_le k k"
  by (simp add: key_le_def)

lemma key_le_trans: "key_le a b \<Longrightarrow> key_le b c \<Longrightarrow> key_le a c"
  by (simp add: key_le_def)

lemma auth_le_refl: "auth_le d d"
  unfolding auth_le_def using key_le_refl by blast

lemma auth_le_trans:
  assumes ab: "auth_le a b" and bc: "auth_le b c"
  shows "auth_le a c"
  unfolding auth_le_def
proof (intro conjI ballI)
  fix k assume "k \<in> set (machineKeys a)"
  then obtain k' where "k' \<in> set (machineKeys b)" "key_le k k'"
    using ab unfolding auth_le_def by blast
  moreover then obtain k'' where "k'' \<in> set (machineKeys c)" "key_le k' k''"
    using bc unfolding auth_le_def by blast
  ultimately show "\<exists>k' \<in> set (machineKeys c). key_le k k'"
    using key_le_trans by blast
next
  fix p assume "p \<in> set (principals a)"
  then obtain p' where p': "p' \<in> set (principals b)" "p_id p' = p_id p \<and> p_name p' = p_name p"
    using ab unfolding auth_le_def by blast
  then obtain p'' where "p'' \<in> set (principals c)" "p_id p'' = p_id p' \<and> p_name p'' = p_name p'"
    using bc unfolding auth_le_def by blast
  with p' show "\<exists>p' \<in> set (principals c). p_id p' = p_id p \<and> p_name p' = p_name p"
    by metis
qed

text \<open>A table of keys rewritten row by row, each row staying the same key.\<close>

lemma keys_rewritten:
  assumes "\<And>k. k \<in> set ks \<Longrightarrow> key_le k (f k)"
  shows "map k_id (map f ks) = map k_id ks"
    and "k_principalId ` set (map f ks) = k_principalId ` set ks"
    and "request_unique ks \<Longrightarrow> request_unique (map f ks)"
    and "\<forall>k \<in> set ks. \<exists>k' \<in> set (map f ks). key_le k k'"
proof -
  have le: "k_id (f k) = k_id k" "k_principalId (f k) = k_principalId k"
      "k_issuanceRequestId (f k) = k_issuanceRequestId k" if "k \<in> set ks" for k
    using assms [OF that] by (simp_all add: key_le_def)
  show "map k_id (map f ks) = map k_id ks"
    using le(1) by simp
  show "k_principalId ` set (map f ks) = k_principalId ` set ks"
    using le(2) by (simp add: image_image)
  show "request_unique (map f ks)" if u: "request_unique ks"
    unfolding request_unique_def set_map ball_simps
  proof (intro ballI impI)
    fix x y
    assume "x \<in> set ks" "y \<in> set ks" "k_principalId (f x) = k_principalId (f y)"
      "k_issuanceRequestId (f x) = k_issuanceRequestId (f y)" "k_issuanceRequestId (f x) \<noteq> None"
    then show "k_id (f x) = k_id (f y)"
      using u unfolding request_unique_def by (metis le)
  qed
  show "\<forall>k \<in> set ks. \<exists>k' \<in> set (map f ks). key_le k k'"
  proof
    fix k assume "k \<in> set ks"
    then show "\<exists>k' \<in> set (map f ks). key_le k k'"
      using assms by (intro bexI [of _ "f k"]) simp_all
  qed
qed

text \<open>Every operation changes the two tables in one of these ways.\<close>

definition keys_step :: "machine_key_row list \<Rightarrow> machine_key_row list \<Rightarrow> bool" where
  "keys_step ks ks' \<longleftrightarrow> (\<exists>f. ks' = map f ks \<and> (\<forall>k \<in> set ks. key_le k (f k)))"

definition prins_step :: "principal_row list \<Rightarrow> principal_row list \<Rightarrow> bool" where
  "prins_step ps ps' \<longleftrightarrow> (\<exists>f. ps' = map f ps \<and> (\<forall>p \<in> set ps. p_id (f p) = p_id p \<and> p_name (f p) = p_name p))"

lemma keys_step_refl [intro, simp]: "keys_step ks ks"
  unfolding keys_step_def by (rule exI [of _ id]) simp

lemma prins_step_refl [intro, simp]: "prins_step ps ps"
  unfolding prins_step_def by (rule exI [of _ id]) simp

lemma keys_step_revoke [intro]:
  "(\<And>k. c k \<Longrightarrow> k_revokedAt k = None) \<Longrightarrow>
    keys_step ks (update_where c (\<lambda>k. k\<lparr>k_revokedAt := Some at\<rparr>) ks)"
  unfolding keys_step_def update_where_def
  by (rule exI [of _ "\<lambda>k. if c k then k\<lparr>k_revokedAt := Some at\<rparr> else k"]) (simp add: key_le_def)

lemma keys_step_touch [intro]: "keys_step ks (update_where c (\<lambda>k. k\<lparr>k_lastUsedAt := Some at\<rparr>) ks)"
  unfolding keys_step_def update_where_def
  by (rule exI [of _ "\<lambda>k. if c k then k\<lparr>k_lastUsedAt := Some at\<rparr> else k"]) (simp add: key_le_def)

lemma prins_step_set_row [intro]:
  "(\<And>p. p_id (f p) = p_id p \<and> p_name (f p) = p_name p) \<Longrightarrow> prins_step ps (set_row p_id i f ps)"
  unfolding prins_step_def set_row_def update_where_def
  by (rule exI [of _ "\<lambda>p. if p_id p = i then f p else p"]) simp

lemma keys_step_revokeKeyIds [simp]: "keys_step (machineKeys d) (machineKeys (revokeKeyIds ids at d))"
  by (auto simp: revokeKeyIds_def)

lemma principals_revokeKeyIds [simp]: "principals (revokeKeyIds ids at d) = principals d"
  by (simp add: revokeKeyIds_def)

lemma journal_append_simps [simp]:
  "principals (journal_append es d) = principals d"
  "machineKeys (journal_append es d) = machineKeys d"
  by (simp_all add: journal_append_def)

lemma rewritten_inv:
  assumes "auth_inv d" and ks: "keys_step (machineKeys d) (machineKeys d')"
    and ps: "prins_step (principals d) (principals d')"
  shows "auth_inv d' \<and> auth_le d d'"
proof -
  obtain f where f: "machineKeys d' = map f (machineKeys d)" "\<And>k. k \<in> set (machineKeys d) \<Longrightarrow> key_le k (f k)"
    using ks by (auto simp: keys_step_def)
  obtain g where g: "principals d' = map g (principals d)"
      "\<And>p. p \<in> set (principals d) \<Longrightarrow> p_id (g p) = p_id p \<and> p_name (g p) = p_name p"
    using ps by (auto simp: prins_step_def)
  have ids: "map p_id (principals d') = map p_id (principals d)" "map p_name (principals d') = map p_name (principals d)"
    using g by auto
  then have pset: "p_id ` set (principals d') = p_id ` set (principals d)"
    by (metis set_map)
  note kf = keys_rewritten [of "machineKeys d" f, OF f(2)]
  have "distinct (map k_id (machineKeys d'))"
    using assms(1) kf(1) unfolding auth_inv_def f(1) by (simp only:)
  then have "auth_inv d'"
    using assms(1) kf(2,3) ids pset unfolding auth_inv_def f(1) by (simp only:)
  moreover have "\<exists>p' \<in> set (principals d'). p_id p' = p_id p \<and> p_name p' = p_name p"
    if "p \<in> set (principals d)" for p
    using g(2) [OF that] that unfolding g(1) by auto
  then have "auth_le d d'"
    using kf(4) unfolding auth_le_def f(1) by blast
  ultimately show ?thesis by blast
qed

lemma auth_leI:
  assumes "set (machineKeys d) \<subseteq> set (machineKeys d')" and "set (principals d) \<subseteq> set (principals d')"
  shows "auth_le d d'"
  unfolding auth_le_def using assms key_le_refl by blast

lemma insert_principal_inv:
  assumes inv: "auth_inv d" and ins: "insert_principal p d = Inr d'"
    and name: "p_name p \<notin> p_name ` set (principals d)"
  shows "auth_inv d' \<and> auth_le d d'"
proof -
  have d': "d' = d\<lparr>principals := principals d @ [p]\<rparr>" and new: "p_id p \<notin> p_id ` set (principals d)"
    using ins by (auto simp: insert_principal_def split: if_splits)
  have "auth_inv d'"
    using inv new name unfolding auth_inv_def d' by (simp add: subset_insertI2)
  moreover have "auth_le d d'"
    by (rule auth_leI) (simp_all add: d' subset_insertI)
  ultimately show ?thesis by blast
qed

lemma insert_key_inv:
  assumes inv: "auth_inv d" and ins: "insert_key k d = Inr d'"
    and prin: "k_principalId k \<in> p_id ` set (principals d)"
    and fresh: "\<And>k'. k' \<in> set (machineKeys d) \<Longrightarrow> k_principalId k' = k_principalId k \<Longrightarrow>
      k_issuanceRequestId k' = k_issuanceRequestId k \<Longrightarrow> k_issuanceRequestId k = None"
  shows "auth_inv d' \<and> auth_le d d'"
proof -
  have d': "d' = d\<lparr>machineKeys := machineKeys d @ [k]\<rparr>" and new: "k_id k \<notin> k_id ` set (machineKeys d)"
    using ins by (auto simp: insert_key_def split: if_splits)
  have old: "request_unique (machineKeys d)" using inv by (simp add: auth_inv_def)
  have "request_unique (machineKeys d @ [k])"
    unfolding request_unique_def
  proof (intro ballI impI)
    fix x y
    assume xy: "x \<in> set (machineKeys d @ [k])" "y \<in> set (machineKeys d @ [k])"
      "k_principalId x = k_principalId y" "k_issuanceRequestId x = k_issuanceRequestId y" "k_issuanceRequestId x \<noteq> None"
    consider "x = k" "y = k" | "x = k" "y \<in> set (machineKeys d)" | "x \<in> set (machineKeys d)" "y = k"
      | "x \<in> set (machineKeys d)" "y \<in> set (machineKeys d)"
      using xy(1,2) by auto
    then show "k_id x = k_id y"
    proof cases
      case 2 then show ?thesis using fresh [of y] xy by simp
    next
      case 3 then show ?thesis using fresh [of x] xy by simp
    next
      case 4 then show ?thesis using old xy unfolding request_unique_def by blast
    qed simp
  qed
  then have "auth_inv d'"
    using inv prin new unfolding auth_inv_def d' by simp
  moreover have "auth_le d d'"
    by (rule auth_leI) (simp_all add: d' subset_insertI)
  ultimately show ?thesis by blast
qed

section \<open>Every transaction keeps the invariant\<close>

lemma lockKeyAuthority_Inr:
  assumes run: "lockKeyAuthority d a t xs now = Inr la"
  obtains caller where "row_by k_id a (machineKeys d) = Some (la_key la)"
    and "caller \<in> set (principals d)" and "p_id caller = k_principalId (la_key la)"
    and "keyAuthority caller (la_key la) now = Inr (la_authority la)"
    and "set (la_locked la) \<subseteq> set (principals d)"
    and "\<And>tg. la_target la = Some tg \<Longrightarrow> tg \<in> set (principals d) \<and> t = Some (p_id tg)"
proof -
  obtain key where key: "row_by k_id a (machineKeys d) = Some key"
    using run by (cases "row_by k_id a (machineKeys d)") (simp_all add: lockKeyAuthority_def)
  let ?ids = "[k_principalId key] @ xs @ (case t of None \<Rightarrow> [] | Some t \<Rightarrow> [t])"
  define locked where "locked = sort_key p_id (filter (\<lambda>p. p_id p \<in> set ?ids) (principals d))"
  have sub: "set locked \<subseteq> set (principals d)" by (auto simp: locked_def)
  obtain caller where caller: "List.find (\<lambda>p. p_id p = k_principalId key) locked = Some caller"
    using run key by (cases "List.find (\<lambda>p. p_id p = k_principalId key) locked")
      (simp_all add: lockKeyAuthority_def Let_def locked_def)
  obtain au where au: "keyAuthority caller key now = Inr au"
    using run key caller by (cases "keyAuthority caller key now")
      (simp_all add: lockKeyAuthority_def Let_def locked_def)
  have la: "la = \<lparr> la_authority = au, la_key = key,
      la_target = (case t of None \<Rightarrow> None | Some t \<Rightarrow> List.find (\<lambda>p. p_id p = t) locked), la_locked = locked \<rparr>"
    using run key caller au unfolding lockKeyAuthority_def Let_def locked_def by (simp split: option.splits)
  show thesis
  proof (rule that)
    show "row_by k_id a (machineKeys d) = Some (la_key la)" using key la by simp
    show "caller \<in> set (principals d)" using find_SomeD [OF caller] sub by blast
    show "p_id caller = k_principalId (la_key la)" using find_SomeD [OF caller] la by simp
    show "keyAuthority caller (la_key la) now = Inr (la_authority la)" using au la by simp
    show "set (la_locked la) \<subseteq> set (principals d)" using sub la by simp
    show "tg \<in> set (principals d) \<and> t = Some (p_id tg)" if "la_target la = Some tg" for tg
    proof (cases t)
      case None then show ?thesis using that la by simp
    next
      case (Some u)
      then have "List.find (\<lambda>p. p_id p = u) locked = Some tg" using that la by simp
      then show ?thesis using find_SomeD sub Some by fastforce
    qed
  qed
qed

lemma find_mem_subset: "List.find p xs = Some x \<Longrightarrow> set xs \<subseteq> A \<Longrightarrow> x \<in> A \<and> p x"
  using find_SomeD by fastforce

lemma lockedPrincipal_mem:
  assumes run: "lockedPrincipal d input a now = Inr prin"
  shows "prin \<in> set (principals d) \<and> p_id prin = k_principalId input"
proof (cases a)
  case None
  let ?locked = "sort_key p_id
    (filter (\<lambda>p. p_id p \<in> set (k_principalId input # k_managedPrincipalIds input)) (principals d))"
  have "List.find (\<lambda>p. p_id p = k_principalId input) ?locked = Some prin"
    using run None by (auto simp: lockedPrincipal_def Let_def split: option.splits)
  then show ?thesis by (rule find_mem_subset) auto
next
  case (Some k)
  obtain la where la: "lockKeyAuthority d k (Some (k_principalId input)) (k_managedPrincipalIds input) now = Inr la"
    using run Some
    by (cases "lockKeyAuthority d k (Some (k_principalId input)) (k_managedPrincipalIds input) now")
       (simp_all add: lockedPrincipal_def)
  have "List.find (\<lambda>p. p_id p = k_principalId input) (la_locked la) = Some prin"
  proof (cases "List.find (\<lambda>p. p_id p = k_principalId input) (la_locked la)")
    case None
    then show ?thesis using run Some la by (simp add: lockedPrincipal_def)
  next
    case (Some q)
    then show ?thesis using run \<open>a = Some k\<close> la by (auto simp: lockedPrincipal_def)
  qed
  moreover have "set (la_locked la) \<subseteq> set (principals d)"
    using la by (rule lockKeyAuthority_Inr)
  ultimately show ?thesis by (rule find_mem_subset)
qed

lemma issue_inv:
  assumes inv: "auth_inv d" and run: "issueMachineKey d input a now = Inr (r, d')"
  shows "auth_inv d' \<and> auth_le d d'"
proof -
  let ?old = "case k_issuanceRequestId input of None \<Rightarrow> None
    | Some q \<Rightarrow> List.find (\<lambda>k. k_principalId k = k_principalId input \<and> k_issuanceRequestId k = Some q) (machineKeys d)"
  obtain prin where prin: "lockedPrincipal d input a (now 0) = Inr prin"
    using run by (auto simp: issueMachineKey_def)
  show ?thesis
  proof (cases ?old)
    case (Some k)
    then have "d' = d" using run prin by (simp add: issueMachineKey_def)
    then show ?thesis using inv auth_le_refl by simp
  next
    case None
    then have "insert_key input d = Inr d'" using run prin by (auto simp: issueMachineKey_def)
    moreover have "k_principalId input \<in> p_id ` set (principals d)"
      using lockedPrincipal_mem [OF prin] by force
    ultimately show ?thesis
      using None by (intro insert_key_inv [OF inv]) (auto simp: find_None_iff2 split: option.splits)
  qed
qed

lemma revokeMachineKey_inv:
  assumes "auth_inv d" and "revokeMachineKey d i at a now = Inr (b, d')"
  shows "auth_inv d' \<and> auth_le d d'"
  using assms(2)
  by (intro rewritten_inv [OF assms(1)]) (auto simp: revokeMachineKey_def Let_def split: option.splits)

lemma prins_step_disable [intro, simp]:
  "prins_step ps (set_row p_id i (p_disabledAt_update f) ps)"
  by (rule prins_step_set_row) simp

lemma revokePrincipalKeys_inv:
  assumes "auth_inv d" and "revokePrincipalKeys d i at a now = Inr d'"
  shows "auth_inv d' \<and> auth_le d d'"
proof (rule rewritten_inv [OF assms(1)])
  show "keys_step (machineKeys d) (machineKeys d')"
    using assms(2) by (auto simp: revokePrincipalKeys_def Let_def revokeKeyIds_def)
  show "prins_step (principals d) (principals d')"
    using assms(2) by (auto simp: revokePrincipalKeys_def Let_def)
qed

lemma write_principal_step:
  "keys_step (machineKeys d) (machineKeys (write_principal i ss ts b ids at d))"
  "prins_step (principals d) (principals (write_principal i ss ts b ids at d))"
proof -
  show "keys_step (machineKeys d) (machineKeys (write_principal i ss ts b ids at d))"
    by (auto simp: write_principal_def revokeKeyIds_def)
  show "prins_step (principals d) (principals (write_principal i ss ts b ids at d))"
    unfolding write_principal_def principals_revokeKeyIds by (auto intro!: prins_step_set_row)
qed

lemma write_principal_inv:
  assumes "auth_inv d"
  shows "auth_inv (journal_append es' (write_principal i ss ts b ids at (journal_append es d)))
    \<and> auth_le d (journal_append es' (write_principal i ss ts b ids at (journal_append es d)))"
  using write_principal_step [of "journal_append es d" i ss ts b ids at]
  by (intro rewritten_inv [OF assms]) simp_all

text \<open>What a successful update by a calling key has checked, and what it writes.\<close>

lemma updateManagedPrincipal_Inr:
  assumes "updateManagedPrincipal d a i patch now = Inr (r, d')"
  obtains la target where "lockKeyAuthority d a (Some i) [] (now 0) = Inr la"
    and "hasScope (a_scopes (la_authority la)) ''principals:admin''"
    and "la_target la = Some target" and "p_id target \<noteq> a_principalId (la_authority la)"
    and "principalWithinAuthority (a_scopes (la_authority la)) (a_templateNames (la_authority la))
           (p_scopes target) (p_templateNames target)"
    and "principalWithinAuthority (a_scopes (la_authority la)) (a_templateNames (la_authority la))
           (case pp_scopes patch of Some s \<Rightarrow> s | None \<Rightarrow> p_scopes target)
           (case pp_templateNames patch of Some t \<Rightarrow> t | None \<Rightarrow> p_templateNames target)"
    and "\<exists>es es'. d' = journal_append es' (write_principal i
           (case pp_scopes patch of Some s \<Rightarrow> s | None \<Rightarrow> p_scopes target)
           (case pp_templateNames patch of Some t \<Rightarrow> t | None \<Rightarrow> p_templateNames target)
           (pp_disabled patch) (unrevokedKeyIds d i (pp_disabled patch = Some True)) (now 1) (journal_append es d))"
proof -
  obtain la where la: "lockKeyAuthority d a (Some i) [] (now 0) = Inr la"
    and sc: "assertAuthorityScope (la_authority la) ''principals:admin'' = Inr ()"
    using assms by (auto simp: updateManagedPrincipal_def)
  obtain target where tg: "la_target la = Some target"
    using assms la sc by (cases "la_target la") (simp_all add: updateManagedPrincipal_def)
  show thesis
    using assms la sc tg
    by (intro that [of la target])
       (auto simp: updateManagedPrincipal_def assertAuthorityScope_def assertPrincipalWithinAuthority_def
          Let_def split: prod.splits)
qed

lemma updateManagedPrincipal_inv:
  assumes "auth_inv d" and "updateManagedPrincipal d a i patch now = Inr (r, d')"
  shows "auth_inv d' \<and> auth_le d d'"
  using assms(2) write_principal_inv [OF assms(1)] by (elim updateManagedPrincipal_Inr) blast

lemma applyConfiguredPrincipal_inv:
  assumes inv: "auth_inv d" and run: "applyConfiguredPrincipal d input at = Inr (r, d')"
  shows "auth_inv d' \<and> auth_le d d'"
proof (cases "row_by p_id (cp_id input) (principals d)")
  case None
  then show ?thesis
    using run by (auto simp: applyConfiguredPrincipal_def Let_def split: if_splits intro!: insert_principal_inv [OF inv])
next
  case (Some target)
  then obtain es es' ss ts b ids where
      "d' = journal_append es' (write_principal (cp_id input) ss ts b ids at (journal_append es d))"
    using run by (auto simp: applyConfiguredPrincipal_def Let_def split: prod.splits)
  then show ?thesis using write_principal_inv [OF inv] by blast
qed

lemma createPrincipal_inv:
  assumes "auth_inv d" and "createPrincipal d u name ss ts now = Inr (r, d')"
  shows "auth_inv d' \<and> auth_le d d'"
  using assms(2)
  by (auto simp: createPrincipal_def Let_def split: if_splits intro!: insert_principal_inv [OF assms(1)])

lemma createManagedPrincipal_inv:
  assumes "auth_inv d" and "createManagedPrincipal d u a name ss ts now = Inr (r, d')"
  shows "auth_inv d' \<and> auth_le d d'"
  using assms(2)
  by (auto simp: createManagedPrincipal_def Let_def split: if_splits intro!: insert_principal_inv [OF assms(1)])

lemma updatePrincipal_inv:
  assumes "auth_inv d"
  shows "auth_inv (snd (updatePrincipal d i ss ts)) \<and> auth_le d (snd (updatePrincipal d i ss ts))"
  by (rule rewritten_inv [OF assms]) (auto simp: updatePrincipal_def Let_def)

lemma setPrincipalDisabled_inv:
  assumes "auth_inv d"
  shows "auth_inv (setPrincipalDisabled d i b now) \<and> auth_le d (setPrincipalDisabled d i b now)"
  by (rule rewritten_inv [OF assms]) (auto simp: setPrincipalDisabled_def)

lemma touchMachineKey_inv:
  assumes "auth_inv d"
  shows "auth_inv (touchMachineKey d i at) \<and> auth_le d (touchMachineKey d i at)"
  by (rule rewritten_inv [OF assms]) (auto simp: touchMachineKey_def)

lemma keys_step_mem:
  assumes "keys_step ks ks'" and "k' \<in> set ks'"
  obtains k where "k \<in> set ks" and "key_le k k'"
  using assms unfolding keys_step_def by auto

lemma owner_tables_step:
  "keys_step (machineKeys d) (machineKeys (owner_tables d prin rep at))"
  "prins_step (principals d) (principals (owner_tables d prin rep at))"
  by (auto simp: owner_tables_def Let_def revokeKeyIds_def)

lemma install_owner_key_inv:
  assumes inv: "auth_inv d" and mem: "prin \<in> set (principals d)"
    and fresh: "\<And>k. k \<in> set (machineKeys d) \<Longrightarrow> k_principalId k = p_id prin \<Longrightarrow>
      k_issuanceRequestId k = k_issuanceRequestId input \<Longrightarrow> k_issuanceRequestId k = None"
    and run: "install_owner_key d prin input rep at = Inr (r, d')"
  shows "auth_inv d' \<and> auth_le d d'"
proof -
  let ?d2 = "owner_tables d prin rep at"
  obtain owner d3 es where owner: "row_by p_id (p_id prin) (principals ?d2) = Some owner"
      and d3: "insert_key (input\<lparr>k_principalId := p_id owner\<rparr>) ?d2 = Inr d3" and d': "d' = journal_append es d3"
    using run by (auto simp: install_owner_key_def Let_def split: option.splits)
  have own: "owner \<in> set (principals ?d2)" "p_id owner = p_id prin" using row_by_SomeD [OF owner] by auto
  have two: "auth_inv ?d2 \<and> auth_le d ?d2"
    using owner_tables_step by (intro rewritten_inv [OF inv])
  have "auth_inv d3 \<and> auth_le ?d2 d3"
  proof (rule insert_key_inv [OF _ d3])
    show "auth_inv ?d2" using two by simp
    show "k_principalId (input\<lparr>k_principalId := p_id owner\<rparr>) \<in> p_id ` set (principals ?d2)"
      using own(1) by simp
    fix k' assume k': "k' \<in> set (machineKeys ?d2)"
      "k_principalId k' = k_principalId (input\<lparr>k_principalId := p_id owner\<rparr>)"
      "k_issuanceRequestId k' = k_issuanceRequestId (input\<lparr>k_principalId := p_id owner\<rparr>)"
    obtain k where "k \<in> set (machineKeys d)" "key_le k k'"
      using owner_tables_step(1) k'(1) by (rule keys_step_mem)
    then show "k_issuanceRequestId (input\<lparr>k_principalId := p_id owner\<rparr>) = None"
      using fresh [of k] k'(2,3) own(2) by (simp add: key_le_def)
  qed
  then have "auth_inv d3 \<and> auth_le d d3" using two auth_le_trans by blast
  then show ?thesis unfolding d' by (simp add: auth_inv_def auth_le_def)
qed

lemma bootstrapOwnerKey_inv:
  assumes inv: "auth_inv d" and run: "bootstrapOwnerKey d u input rep now = Inr (r, d')"
  shows "auth_inv d' \<and> auth_le d d'"
proof -
  let ?row = "\<lparr> p_id = u, p_name = ''owner'', p_scopes = [''admin''], p_templateNames = [''*''],
    p_disabledAt = None, p_createdAt = now 1 \<rparr>"
  obtain d0 where d0: "(if ''owner'' \<in> p_name ` set (principals d) then Inr d else insert_principal ?row d) = Inr d0"
    using run by (auto simp: bootstrapOwnerKey_def)
  have zero: "auth_inv d0 \<and> auth_le d d0"
  proof (cases "''owner'' \<in> p_name ` set (principals d)")
    case True then show ?thesis using d0 inv auth_le_refl by simp
  next
    case False then show ?thesis using d0 insert_principal_inv [OF inv, of ?row d0] by simp
  qed
  let ?found = "List.find (\<lambda>p. p_name p = ''owner'') (principals d0)"
  obtain prin where prin: "?found = Some prin"
    using run d0 by (cases ?found) (simp_all add: bootstrapOwnerKey_def)
  let ?q = "\<lambda>k. k_principalId k = p_id prin \<and> k_issuanceRequestId k \<noteq> None
                   \<and> k_issuanceRequestId k = k_issuanceRequestId input"
  show ?thesis
  proof (cases "List.find ?q (machineKeys d0)")
    case (Some k)
    then have "d' = d0" using run d0 prin by (simp add: bootstrapOwnerKey_def)
    then show ?thesis using zero by simp
  next
    case None
    then have "install_owner_key d0 prin input rep (now 2) = Inr (r, d')"
      using run d0 prin by (simp add: bootstrapOwnerKey_def)
    moreover have "prin \<in> set (principals d0)" using find_SomeD [OF prin] by simp
    moreover have "k_issuanceRequestId k = None" if "k \<in> set (machineKeys d0)" "k_principalId k = p_id prin"
        "k_issuanceRequestId k = k_issuanceRequestId input" for k
      using None that by (auto simp: find_None_iff2)
    ultimately have "auth_inv d' \<and> auth_le d0 d'"
      using install_owner_key_inv zero by blast
    then show ?thesis using zero auth_le_trans by blast
  qed
qed

section \<open>Any sequence of transactions\<close>

inductive auth_step :: "auth_db \<Rightarrow> auth_db \<Rightarrow> bool" where
  issue: "issueMachineKey d input a now = Inr (r, d') \<Longrightarrow> auth_step d d'"
| insert_row: "insertMachineKey d input now = Inr d' \<Longrightarrow> auth_step d d'"
| revoke_key: "revokeMachineKey d i at a t = Inr (b, d') \<Longrightarrow> auth_step d d'"
| revoke_principal: "revokePrincipalKeys d i at a t = Inr d' \<Longrightarrow> auth_step d d'"
| create: "createPrincipal d u name ss ts t = Inr (p, d') \<Longrightarrow> auth_step d d'"
| create_managed: "createManagedPrincipal d u a' name ss ts now = Inr (p, d') \<Longrightarrow> auth_step d d'"
| update: "auth_step d (snd (updatePrincipal d i ss ts))"
| update_managed: "updateManagedPrincipal d a' i patch now = Inr (p', d') \<Longrightarrow> auth_step d d'"
| configure: "applyConfiguredPrincipal d cp at = Inr (p', d') \<Longrightarrow> auth_step d d'"
| disable: "auth_step d (setPrincipalDisabled d i dis t)"
| bootstrap: "bootstrapOwnerKey d u input rep now = Inr (r, d') \<Longrightarrow> auth_step d d'"
| touch: "auth_step d (touchMachineKey d i at)"

lemma insertMachineKey_inv:
  "auth_inv d \<Longrightarrow> insertMachineKey d input now = Inr d' \<Longrightarrow> auth_inv d' \<and> auth_le d d'"
  by (auto simp: insertMachineKey_def dest: issue_inv)

lemma auth_step_inv: "auth_step d d' \<Longrightarrow> auth_inv d \<Longrightarrow> auth_inv d' \<and> auth_le d d'"
proof (induction rule: auth_step.induct)
  case issue then show ?case by (rule issue_inv [rotated])
next
  case insert_row then show ?case by (rule insertMachineKey_inv [rotated])
next
  case revoke_key then show ?case by (rule revokeMachineKey_inv [rotated])
next
  case revoke_principal then show ?case by (rule revokePrincipalKeys_inv [rotated])
next
  case create then show ?case by (rule createPrincipal_inv [rotated])
next
  case create_managed then show ?case by (rule createManagedPrincipal_inv [rotated])
next
  case update then show ?case by (rule updatePrincipal_inv)
next
  case update_managed then show ?case by (rule updateManagedPrincipal_inv [rotated])
next
  case configure then show ?case by (rule applyConfiguredPrincipal_inv [rotated])
next
  case disable then show ?case by (rule setPrincipalDisabled_inv)
next
  case bootstrap then show ?case by (rule bootstrapOwnerKey_inv [rotated])
next
  case touch then show ?case by (rule touchMachineKey_inv)
qed

interpretation auth: monotone_system auth_step auth_inv auth_le
proof unfold_locales
  show "auth_inv d'" if "auth_inv d" "auth_step d d'" for d d' using auth_step_inv that by simp
  show "auth_le d d'" if "auth_inv d" "auth_step d d'" for d d' using auth_step_inv that by simp
  show "auth_le d d" for d by (rule auth_le_refl)
  show "auth_le a c" if "auth_le a b" "auth_le b c" for a b c using auth_le_trans that by simp
qed

end
