(* ===== verification/Workspace_State.thy ===== *)
theory Workspace_State
  imports Prelude
begin

text \<open>
  The workspace lifecycle of \<^verbatim>\<open>packages/contracts/src/workspaces/workspace.ts\<close>: the states, the
  table of legal transitions, the admission reasons and the reason codes, in the source's order.
\<close>

datatype workspace_state =
    Queued | Provisioning | Connected | Ready | Preserving | Terminating
  | Succeeded | Failed | Canceled | Expired | Preserved

definition WORKSPACE_STATES :: "workspace_state list" where
  "WORKSPACE_STATES =
    [Queued, Provisioning, Connected, Ready, Preserving, Terminating,
     Succeeded, Failed, Canceled, Expired, Preserved]"

fun state_name :: "workspace_state \<Rightarrow> string" where
  "state_name Queued = ''queued''"
| "state_name Provisioning = ''provisioning''"
| "state_name Connected = ''connected''"
| "state_name Ready = ''ready''"
| "state_name Preserving = ''preserving''"
| "state_name Terminating = ''terminating''"
| "state_name Succeeded = ''succeeded''"
| "state_name Failed = ''failed''"
| "state_name Canceled = ''canceled''"
| "state_name Expired = ''expired''"
| "state_name Preserved = ''preserved''"

definition isWorkspaceState :: "string \<Rightarrow> bool" where
  "isWorkspaceState v \<longleftrightarrow> list_ex (\<lambda>s. state_name s = v) WORKSPACE_STATES"

definition TERMINAL_STATES :: "workspace_state list" where
  "TERMINAL_STATES = [Succeeded, Failed, Canceled, Expired, Preserved]"

definition isTerminal :: "workspace_state \<Rightarrow> bool" where
  "isTerminal s \<longleftrightarrow> s \<in> set TERMINAL_STATES"

fun TRANSITIONS :: "workspace_state \<Rightarrow> workspace_state list" where
  "TRANSITIONS Queued = [Provisioning, Canceled, Expired]"
| "TRANSITIONS Provisioning = [Connected, Queued, Terminating, Failed, Canceled, Expired]"
| "TRANSITIONS Connected = [Ready, Preserving, Terminating, Failed, Canceled, Expired]"
| "TRANSITIONS Ready = [Preserving, Terminating, Succeeded, Failed, Canceled, Expired]"
| "TRANSITIONS Preserving = [Terminating, Preserved, Failed]"
| "TRANSITIONS Terminating = [Succeeded, Failed, Canceled, Expired]"
| "TRANSITIONS Succeeded = []"
| "TRANSITIONS Failed = []"
| "TRANSITIONS Canceled = []"
| "TRANSITIONS Expired = []"
| "TRANSITIONS Preserved = []"

definition canTransition :: "workspace_state \<Rightarrow> workspace_state \<Rightarrow> bool" where
  "canTransition src dst \<longleftrightarrow> dst \<in> set (TRANSITIONS src)"

datatype reason_code =
    AdmissionGlobalCapacity | AdmissionPrincipalCapacity | AdmissionTemplateCapacity
  | AdmissionPolicyGlobalCapacity | AdmissionActorCapacity | AdmissionDenied | AdmissionUnavailable
  | ChildExitSuccess | ChildExitFailure | SetupFailed | BootstrapFailed | RegistrationTimeout
  | HealthFailed | ChildCrash | ProviderLost | DisconnectTimeout | CanceledByCaller | DeadlineExpired
  | IdleExpired | QueueTimeout | LaunchFailed | LaunchRefused | PreserveRequested | PreservedByPolicy
  | CheckpointCreated | CheckpointFailed | CheckpointCorrupt | CheckpointQuotaExceeded
  | CheckpointStorageLost | RestoreRequested | RestoreFailed | ImageUnavailable
  | SourceResolutionFailed | SecretResolutionFailed | OperationConflict | NetworkPolicyFailed

definition ADMISSION_REASONS :: "reason_code list" where
  "ADMISSION_REASONS =
    [AdmissionGlobalCapacity, AdmissionPrincipalCapacity, AdmissionTemplateCapacity,
     AdmissionPolicyGlobalCapacity, AdmissionActorCapacity, AdmissionDenied, AdmissionUnavailable]"

text \<open>\<open>AdmissionDecision\<close>: \<open>true\<close>, \<open>false\<close>, or a refusal that names one of the policy's reasons.\<close>

datatype admission_decision = Allowed | Denied | DeniedFor reason_code

definition policy_reason :: "reason_code \<Rightarrow> bool" where
  "policy_reason r \<longleftrightarrow> r \<in> set ADMISSION_REASONS
     \<and> r \<notin> {AdmissionGlobalCapacity, AdmissionPrincipalCapacity, AdmissionTemplateCapacity}"

datatype agent_state = AgentUnknown | AgentRunning | AgentStable

text \<open>\<open>REASON_CODES\<close>, each code with its name.\<close>

definition REASON_CODES :: "(reason_code \<times> string) list" where
  "REASON_CODES =
    [(AdmissionGlobalCapacity, ''admission_global_capacity''),
     (AdmissionPrincipalCapacity, ''admission_principal_capacity''),
     (AdmissionTemplateCapacity, ''admission_template_capacity''),
     (AdmissionPolicyGlobalCapacity, ''admission_policy_global_capacity''),
     (AdmissionActorCapacity, ''admission_actor_capacity''),
     (AdmissionDenied, ''admission_denied''),
     (AdmissionUnavailable, ''admission_unavailable''),
     (ChildExitSuccess, ''child_exit_success''),
     (ChildExitFailure, ''child_exit_failure''),
     (SetupFailed, ''setup_failed''),
     (BootstrapFailed, ''bootstrap_failed''),
     (RegistrationTimeout, ''registration_timeout''),
     (HealthFailed, ''health_failed''),
     (ChildCrash, ''child_crash''),
     (ProviderLost, ''provider_lost''),
     (DisconnectTimeout, ''disconnect_timeout''),
     (CanceledByCaller, ''canceled_by_caller''),
     (DeadlineExpired, ''deadline_expired''),
     (IdleExpired, ''idle_expired''),
     (QueueTimeout, ''queue_timeout''),
     (LaunchFailed, ''launch_failed''),
     (LaunchRefused, ''launch_refused''),
     (PreserveRequested, ''preserve_requested''),
     (PreservedByPolicy, ''preserved_by_policy''),
     (CheckpointCreated, ''checkpoint_created''),
     (CheckpointFailed, ''checkpoint_failed''),
     (CheckpointCorrupt, ''checkpoint_corrupt''),
     (CheckpointQuotaExceeded, ''checkpoint_quota_exceeded''),
     (CheckpointStorageLost, ''checkpoint_storage_lost''),
     (RestoreRequested, ''restore_requested''),
     (RestoreFailed, ''restore_failed''),
     (ImageUnavailable, ''image_unavailable''),
     (SourceResolutionFailed, ''source_resolution_failed''),
     (SecretResolutionFailed, ''secret_resolution_failed''),
     (OperationConflict, ''operation_conflict''),
     (NetworkPolicyFailed, ''network_policy_failed'')]"

definition reason_name :: "reason_code \<Rightarrow> string" where
  "reason_name r = the (map_of REASON_CODES r)"

fun agent_state_name :: "agent_state \<Rightarrow> string" where
  "agent_state_name AgentUnknown = ''unknown''"
| "agent_state_name AgentRunning = ''running''"
| "agent_state_name AgentStable = ''stable''"

instantiation workspace_state :: enum
begin
definition enum_workspace_state :: "workspace_state list" where
  "enum_workspace_state = WORKSPACE_STATES"
definition enum_all_workspace_state :: "(workspace_state \<Rightarrow> bool) \<Rightarrow> bool" where
  "enum_all_workspace_state P \<longleftrightarrow> list_all P WORKSPACE_STATES"
definition enum_ex_workspace_state :: "(workspace_state \<Rightarrow> bool) \<Rightarrow> bool" where
  "enum_ex_workspace_state P \<longleftrightarrow> list_ex P WORKSPACE_STATES"
instance
proof
  have all: "x \<in> set WORKSPACE_STATES" for x
    by (cases x) (simp_all add: WORKSPACE_STATES_def)
  show "(UNIV :: workspace_state set) = set enum_class.enum"
    using all by (auto simp: enum_workspace_state_def)
  show "distinct (enum_class.enum :: workspace_state list)"
    by (simp add: enum_workspace_state_def WORKSPACE_STATES_def)
  show "enum_class.enum_all P \<longleftrightarrow> Ball UNIV P" for P :: "workspace_state \<Rightarrow> bool"
    using all by (auto simp: enum_all_workspace_state_def list_all_iff)
  show "enum_class.enum_ex P \<longleftrightarrow> Bex UNIV P" for P :: "workspace_state \<Rightarrow> bool"
    using all by (auto simp: enum_ex_workspace_state_def list_ex_iff)
qed
end

section \<open>The transition graph\<close>

lemma terminal_no_exit: "isTerminal s \<longleftrightarrow> TRANSITIONS s = []"
  by (cases s) (simp_all add: isTerminal_def TERMINAL_STATES_def)

lemma terminal_stuck [simp]: "isTerminal s \<Longrightarrow> \<not> canTransition s t"
  by (simp add: canTransition_def terminal_no_exit)

lemma canTransition_cases:
  "canTransition Queued t \<longleftrightarrow> t \<in> {Provisioning, Canceled, Expired}"
  "canTransition Provisioning t \<longleftrightarrow> t \<in> {Connected, Queued, Terminating, Failed, Canceled, Expired}"
  "canTransition Connected t \<longleftrightarrow> t \<in> {Ready, Preserving, Terminating, Failed, Canceled, Expired}"
  "canTransition Ready t \<longleftrightarrow> t \<in> {Preserving, Terminating, Succeeded, Failed, Canceled, Expired}"
  "canTransition Preserving t \<longleftrightarrow> t \<in> {Terminating, Preserved, Failed}"
  "canTransition Terminating t \<longleftrightarrow> t \<in> {Succeeded, Failed, Canceled, Expired}"
  by (auto simp: canTransition_def)

lemma isTerminal_simps [simp]:
  "isTerminal Succeeded" "isTerminal Failed" "isTerminal Canceled" "isTerminal Expired"
  "isTerminal Preserved" "\<not> isTerminal Queued" "\<not> isTerminal Provisioning" "\<not> isTerminal Connected"
  "\<not> isTerminal Ready" "\<not> isTerminal Preserving" "\<not> isTerminal Terminating"
  by (simp_all add: isTerminal_def TERMINAL_STATES_def)

text \<open>A run through the lifecycle, as the list of states it enters, and the number of times it goes
  back from provisioning to the queue.\<close>

fun lifecycle_path :: "workspace_state \<Rightarrow> workspace_state list \<Rightarrow> bool" where
  "lifecycle_path s [] = True"
| "lifecycle_path s (t # ts) = (canTransition s t \<and> lifecycle_path t ts)"

fun requeues :: "workspace_state \<Rightarrow> workspace_state list \<Rightarrow> nat" where
  "requeues s [] = 0"
| "requeues s (t # ts) = (if s = Provisioning \<and> t = Queued then 1 else 0) + requeues t ts"

fun lifecycle_rank :: "workspace_state \<Rightarrow> nat" where
  "lifecycle_rank Queued = 6"
| "lifecycle_rank Provisioning = 5"
| "lifecycle_rank Connected = 4"
| "lifecycle_rank Ready = 3"
| "lifecycle_rank Preserving = 2"
| "lifecycle_rank Terminating = 1"
| "lifecycle_rank _ = 0"

lemma rank_step:
  assumes "canTransition s t"
  shows "Suc (lifecycle_rank t) \<le> lifecycle_rank s + (if s = Provisioning \<and> t = Queued then 2 else 0)"
  using assms by (cases s) (auto simp: canTransition_cases)

lemma path_length: "lifecycle_path s ts \<Longrightarrow> length ts \<le> lifecycle_rank s + 2 * requeues s ts"
proof (induction ts arbitrary: s)
  case Nil
  then show ?case by simp
next
  case (Cons t ts)
  then have "length ts \<le> lifecycle_rank t + 2 * requeues t ts" by simp
  moreover have "Suc (lifecycle_rank t) \<le> lifecycle_rank s + (if s = Provisioning \<and> t = Queued then 2 else 0)"
    using Cons.prems by (intro rank_step) simp
  ultimately show ?case by (cases "s = Provisioning \<and> t = Queued") auto
qed

lemma direct_end: "\<exists>ts. lifecycle_path s ts \<and> length ts \<le> 1 \<and> isTerminal (last (s # ts))"
proof (cases "isTerminal s")
  case True
  then show ?thesis by (intro exI [of _ "[]"]) simp
next
  case False
  define t where "t = (if s = Queued then Expired else Failed)"
  have "canTransition s t"
    using False by (cases s) (simp_all add: t_def canTransition_def)
  then show ?thesis by (intro exI [of _ "[t]"]) (simp add: t_def)
qed

lemma nonterminal_exit: "isTerminal s \<longleftrightarrow> (\<forall>t. \<not> canTransition s t)"
  unfolding terminal_no_exit canTransition_def by (cases "TRANSITIONS s") auto

lemma path_terminal: "lifecycle_path s ts \<Longrightarrow> isTerminal s \<Longrightarrow> ts = []"
  by (cases ts) simp_all

lemma path_append: "lifecycle_path s (xs @ ys) \<longleftrightarrow> lifecycle_path s xs \<and> lifecycle_path (last (s # xs)) ys"
  by (induction xs arbitrary: s) auto

text \<open>
  Terminal states never reopen: a run of legal transitions can only end in a terminal state, never
  pass through one, and a state is terminal exactly when it has no transition. Every other state has a
  run of at most one transition to a terminal state.
\<close>

lemma terminal_states_never_reopen:
  "(lifecycle_path s (xs @ t # ys) \<and> isTerminal t \<longrightarrow> ys = [])
   \<and> (isTerminal s \<longleftrightarrow> (\<forall>u. \<not> canTransition s u))
   \<and> (\<exists>ts. lifecycle_path s ts \<and> length ts \<le> 1 \<and> isTerminal (last (s # ts)))"
proof (intro conjI)
  show "lifecycle_path s (xs @ t # ys) \<and> isTerminal t \<longrightarrow> ys = []"
    using path_terminal [of t ys] by (auto simp: path_append)
qed (rule nonterminal_exit, rule direct_end)

lemma terminal_states_never_reopen_witness:
  "lifecycle_path Queued ([Provisioning, Terminating] @ Failed # []) \<and> isTerminal Failed
   \<and> \<not> lifecycle_path Queued ([Provisioning, Terminating] @ Failed # [Queued])"
  using terminal_states_never_reopen [of Queued "[Provisioning, Terminating]" Failed "[Queued]"]
  by (auto simp: canTransition_cases)

text \<open>
  The lifecycle makes progress: a run from a new workspace that is requeued \<open>k\<close> times has at most
  \<open>6 + 2 * k\<close> transitions, and the only cycle of the transition graph is the infrastructure retry
  between queued and provisioning.
\<close>

lemma lifecycle_runs_are_bounded:
  assumes "lifecycle_path Queued ts"
  shows "length ts \<le> 6 + 2 * requeues Queued ts"
  using path_length [OF assms] by simp

lemma lifecycle_runs_are_bounded_witness:
  "length [Provisioning, Queued, Provisioning, Connected, Ready, Preserving, Terminating, Expired]
     \<le> 6 + 2 * requeues Queued
       [Provisioning, Queued, Provisioning, Connected, Ready, Preserving, Terminating, Expired]"
proof -
  have "lifecycle_path Queued
      [Provisioning, Queued, Provisioning, Connected, Ready, Preserving, Terminating, Expired]"
    by (simp add: canTransition_cases)
  then show ?thesis by (rule lifecycle_runs_are_bounded)
qed

end
