(* ===== verification/Workspace_Rows.thy ===== *)
theory Workspace_Rows
  imports Json Workspace_State Journal
begin

text \<open>
  The rows of the workspace tables (\<^verbatim>\<open>packages/runtime-contracts/src/stores/\<close>), the patches and requests
  that change them, the template policy they carry, and the event envelope each transition publishes. A
  nullable column is an \<open>option\<close>; a property that a patch may leave out is an \<open>option\<close> around the column's
  type. Documents whose structure no operation reads are \<open>json\<close>.
\<close>

section \<open>The template policy a workspace carries\<close>

text \<open>The parts of the immutable snapshot that the lifecycle reads. Rows hold the snapshot as
  \<open>normalizeTemplateSnapshot\<close> returns it.\<close>

record timeouts =
  to_start :: string
  to_maxAge :: string
  to_idle :: string
  to_disconnectGrace :: string
  to_terminateGrace :: string

record checkpoint_policy =
  ck_onIdle :: string
  ck_onDeadline :: string
  ck_onCleanExit :: string
  ck_onFailure :: string
  ck_retention :: string

record source_repository =
  sr_url :: string
  sr_credential :: "string option"

record template_spec =
  sp_networkMode :: string
  sp_timeouts :: timeouts
  sp_mounts :: "json list"
  sp_conversationRetention :: string
  sp_checkpoint :: checkpoint_policy
  sp_repositories :: "(string \<times> source_repository) list option"
  sp_envs :: "(string \<times> string) list option list"
  sp_setupEnvs :: "(string \<times> string) list list"
  sp_uid :: int
  sp_gid :: int

record template_snapshot =
  ts_name :: string
  ts_version :: string
  ts_digest :: string
  ts_spec :: template_spec
  ts_manifest :: "json option"

record source_descriptor =
  sd_repository :: string
  sd_revision :: string

text \<open>\<open>spec.env\<close>, then the environments of the agent, the harness, the terminal and the checkpoint hook,
  each absent when the template does not declare it.\<close>

definition starts_with :: "string \<Rightarrow> string \<Rightarrow> bool" where
  "starts_with p s \<longleftrightarrow> take (length p) s = p"

definition runtimeCredentialReferences :: "template_spec \<Rightarrow> string list" where
  "runtimeCredentialReferences spec =
     dedup (map (drop 10) (filter (starts_with ''secretRef:'')
       (concat (map (\<lambda>env. case env of None \<Rightarrow> [] | Some vs \<Rightarrow> map snd vs) (sp_envs spec)))))"

section \<open>Finite processes and executions\<close>

datatype process_phase = PhClaimed | PhRunning | PhExited | PhLost

fun process_phase_name :: "process_phase \<Rightarrow> string" where
  "process_phase_name PhClaimed = ''claimed''"
| "process_phase_name PhRunning = ''running''"
| "process_phase_name PhExited = ''exited''"
| "process_phase_name PhLost = ''lost''"

datatype execution_owner = OwnerProcess | OwnerConversation

fun owner_name :: "execution_owner \<Rightarrow> string" where
  "owner_name OwnerProcess = ''process''"
| "owner_name OwnerConversation = ''conversation-request''"

record execution_reference =
  xr_workspaceId :: ident
  xr_incarnationId :: ident
  xr_owner :: execution_owner
  xr_requestId :: ident

definition reference_json :: "execution_reference \<Rightarrow> json" where
  "reference_json x = JObj
     [(''workspaceId'', JStr (xr_workspaceId x)), (''incarnationId'', JStr (xr_incarnationId x)),
      (''owner'', JStr (owner_name (xr_owner x))), (''requestId'', JStr (xr_requestId x))]"

record finite_process_fact =
  ff_execution :: execution_reference
  ff_fingerprint :: string
  ff_phase :: process_phase
  ff_processGroupId :: "nat option"
  ff_claimedAt :: string
  ff_startedAt :: "string option"
  ff_endedAt :: "string option"
  ff_exitCode :: "int option"
  ff_signal :: "string option"

definition nullable :: "('a \<Rightarrow> json) \<Rightarrow> 'a option \<Rightarrow> json" where
  "nullable f v = (case v of None \<Rightarrow> JNull | Some x \<Rightarrow> f x)"

definition fact_json :: "finite_process_fact \<Rightarrow> json" where
  "fact_json f = JObj
     [(''execution'', reference_json (ff_execution f)), (''fingerprint'', JStr (ff_fingerprint f)),
      (''phase'', JStr (process_phase_name (ff_phase f))),
      (''processGroupId'', nullable (\<lambda>n. JNum (int n)) (ff_processGroupId f)),
      (''claimedAt'', JStr (ff_claimedAt f)), (''startedAt'', nullable JStr (ff_startedAt f)),
      (''endedAt'', nullable JStr (ff_endedAt f)), (''exitCode'', nullable JNum (ff_exitCode f)),
      (''signal'', nullable JStr (ff_signal f))]"

text \<open>The refinement of \<open>FiniteProcessFactSchema\<close>; a fact that fails it is a \<open>ZodError\<close>.\<close>

definition valid_fact :: "finite_process_fact \<Rightarrow> bool" where
  "valid_fact f \<longleftrightarrow>
     (ff_phase f \<in> {PhExited, PhLost}) = (ff_endedAt f \<noteq> None)
     \<and> (ff_phase f = PhExited \<longrightarrow> (ff_exitCode f = None) \<noteq> (ff_signal f = None))
     \<and> (ff_phase f \<noteq> PhExited \<longrightarrow> ff_exitCode f = None \<and> ff_signal f = None)
     \<and> (ff_phase f = PhRunning \<longrightarrow> ff_processGroupId f \<noteq> None \<and> ff_startedAt f \<noteq> None)
     \<and> ff_processGroupId f \<noteq> Some 0"

text \<open>The inputs an execution pins, the facts of its acceptance, and the identity of the conversation request
  that owns it.\<close>

record input_reference =
  ir_workspaceId :: ident
  ir_fileId :: ident
  ir_objectVersion :: string
  ir_name :: string
  ir_mediaType :: string
  ir_sizeBytes :: nat
  ir_digest :: string
  ir_visibility :: string

definition input_reference_json :: "input_reference \<Rightarrow> json" where
  "input_reference_json r = JObj
     [(''workspaceId'', JStr (ir_workspaceId r)), (''fileId'', JStr (ir_fileId r)),
      (''objectVersion'', JStr (ir_objectVersion r)), (''name'', JStr (ir_name r)),
      (''mediaType'', JStr (ir_mediaType r)), (''sizeBytes'', JNum (int (ir_sizeBytes r))),
      (''digest'', JStr (ir_digest r)), (''visibility'', JStr (ir_visibility r))]"

record input_manifest =
  im_workspaceId :: ident
  im_incarnationId :: ident
  im_digest :: string
  im_objects :: "input_reference list"

definition input_manifest_json :: "input_manifest \<Rightarrow> json" where
  "input_manifest_json m = JObj
     [(''workspaceId'', JStr (im_workspaceId m)), (''incarnationId'', JStr (im_incarnationId m)),
      (''digest'', JStr (im_digest m)), (''objects'', JArr (map input_reference_json (im_objects m)))]"

record workload_acceptance =
  ac_execution :: execution_reference
  ac_callerPrincipalId :: ident
  ac_templateDigest :: string
  ac_adapterDigest :: string
  ac_operation :: string
  ac_input :: "(string \<times> json) list"
  ac_inputs :: input_manifest
  ac_bindingSetDigest :: string
  ac_fingerprint :: string

definition acceptance_json :: "workload_acceptance \<Rightarrow> json" where
  "acceptance_json a = JObj
     [(''execution'', reference_json (ac_execution a)), (''callerPrincipalId'', JStr (ac_callerPrincipalId a)),
      (''templateDigest'', JStr (ac_templateDigest a)), (''adapterDigest'', JStr (ac_adapterDigest a)),
      (''operation'', JStr (ac_operation a)), (''input'', JObj (ac_input a)),
      (''inputs'', input_manifest_json (ac_inputs a)), (''bindingSetDigest'', JStr (ac_bindingSetDigest a)),
      (''fingerprint'', JStr (ac_fingerprint a))]"

record conversation_identity =
  ci_authority :: string
  ci_conversation_id :: ident
  ci_request_id :: ident
  ci_turn_id :: ident
  ci_request_fingerprint :: string

definition identity_json :: "conversation_identity \<Rightarrow> json" where
  "identity_json c = JObj
     [(''schema'', JStr ''pocketcoder.conversation/v2''), (''authority'', JStr (ci_authority c)),
      (''conversation_id'', JStr (ci_conversation_id c)), (''request_id'', JStr (ci_request_id c)),
      (''turn_id'', JStr (ci_turn_id c)), (''request_fingerprint'', JStr (ci_request_fingerprint c))]"

datatype execution_phase = ExAccepted | ExDispatching | ExRunning | ExTerminal | ExCanceled | ExUnknown | ExLost

text \<open>An outcome that is \<open>null\<close> is \<open>JNull\<close>; a cancel is its id and the time it was requested.\<close>

record execution_record =
  er_acceptance :: workload_acceptance
  er_conversationIdentity :: "conversation_identity option"
  er_outcome :: json
  er_acceptedAt :: string
  er_dispatchClaimedAt :: "string option"
  er_phase :: execution_phase
  er_cancel :: "(ident \<times> string) option"
  er_settledAt :: "string option"
  er_acknowledgedAt :: "string option"
  er_finalizedAt :: "string option"

definition executionSettled :: "execution_record \<Rightarrow> bool" where
  "executionSettled r \<longleftrightarrow> er_phase r \<in> {ExTerminal, ExCanceled, ExUnknown, ExLost}"

section \<open>Workspaces\<close>

record runtime_registration =
  rr_incarnationId :: ident
  rr_containerIdentity :: string
  rr_profile :: string
  rr_producer :: "json option"
  rr_template :: "json option"
  rr_readyAt :: "string option"
  rr_endedAt :: "string option"

record workspace_row =
  ws_runtimeRegistration :: "runtime_registration option"
  ws_finiteProcess :: "finite_process_fact option"
  ws_processExecution :: "execution_record option"
  ws_id :: ident
  ws_principalId :: ident
  ws_externalId :: string
  ws_idempotencyKey :: string
  ws_requestDigest :: string
  ws_templateId :: ident
  ws_templateName :: string
  ws_templateVersion :: string
  ws_templateDigest :: string
  ws_templateSnapshot :: template_snapshot
  ws_state :: workspace_state
  ws_reasonCode :: "reason_code option"
  ws_agentState :: agent_state
  ws_networkState :: string
  ws_networkEventSeq :: nat
  ws_changeSeq :: nat
  ws_failureLogTail :: "string option"
  ws_failureLogTailTruncated :: bool
  ws_failureLastLogSeq :: "nat option"
  ws_terminalIntent :: "workspace_state option"
  ws_launchInput :: "json option"
  ws_providerKind :: "string option"
  ws_providerRef :: "json option"
  ws_provisioningMode :: "string option"
  ws_registrationDigest :: "bytes option"
  ws_registrationExpiresAt :: "time option"
  ws_reconnectDigest :: "bytes option"
  ws_connectionEpoch :: nat
  ws_connectedAt :: "time option"
  ws_disconnectedAt :: "time option"
  ws_readyAt :: "time option"
  ws_lastActivityAt :: "time option"
  ws_launchAttempts :: nat
  ws_health :: "(string \<times> string) list"
  ws_metadata :: "(string \<times> string) list"
  ws_deadlineAt :: time
  ws_createdAt :: time
  ws_updatedAt :: time
  ws_terminalAt :: "time option"
  ws_purgeRequestedAt :: "time option"
  ws_originWorkspaceId :: "ident option"
  ws_restoredFromCheckpointId :: "ident option"
  ws_sourceDescriptor :: "source_descriptor option"
  ws_resolvedSource :: "json option"
  ws_persistenceCapability :: string
  ws_latestCheckpointId :: "ident option"
  ws_launchMode :: string
  ws_outputs :: json

record workspace_patch =
  pt_terminalIntent :: "workspace_state option option"
  pt_launchInput :: "json option option"
  pt_providerKind :: "string option option"
  pt_providerRef :: "json option option"
  pt_provisioningMode :: "string option option"
  pt_registrationDigest :: "bytes option option"
  pt_registrationExpiresAt :: "time option option"
  pt_reconnectDigest :: "bytes option option"
  pt_connectionEpoch :: "nat option"
  pt_connectedAt :: "time option option"
  pt_disconnectedAt :: "time option option"
  pt_readyAt :: "time option option"
  pt_lastActivityAt :: "time option option"
  pt_launchAttempts :: "nat option"
  pt_health :: "(string \<times> string) list option"
  pt_agentState :: "agent_state option"
  pt_networkState :: "string option"
  pt_failureLogTail :: "string option option"
  pt_failureLogTailTruncated :: "bool option"
  pt_failureLastLogSeq :: "nat option option"
  pt_resolvedSource :: "json option option"
  pt_persistenceCapability :: "string option"
  pt_latestCheckpointId :: "ident option option"
  pt_outputs :: "json option"

definition no_patch :: workspace_patch where
  "no_patch = \<lparr> pt_terminalIntent = None, pt_launchInput = None, pt_providerKind = None, pt_providerRef = None,
     pt_provisioningMode = None, pt_registrationDigest = None, pt_registrationExpiresAt = None,
     pt_reconnectDigest = None, pt_connectionEpoch = None, pt_connectedAt = None, pt_disconnectedAt = None,
     pt_readyAt = None, pt_lastActivityAt = None, pt_launchAttempts = None, pt_health = None, pt_agentState = None,
     pt_networkState = None, pt_failureLogTail = None, pt_failureLogTailTruncated = None,
     pt_failureLastLogSeq = None, pt_resolvedSource = None, pt_persistenceCapability = None,
     pt_latestCheckpointId = None, pt_outputs = None \<rparr>"

text \<open>\<open>set\<close> writes the properties that are present.\<close>

definition or_else :: "'a option \<Rightarrow> 'a \<Rightarrow> 'a" where
  "or_else v d = (case v of Some x \<Rightarrow> x | None \<Rightarrow> d)"

lemma or_else_simps [simp]: "or_else (Some x) d = x" "or_else None d = d"
  by (simp_all add: or_else_def)

definition apply_patch :: "workspace_patch \<Rightarrow> workspace_row \<Rightarrow> workspace_row" where
  "apply_patch p r = r\<lparr>
     ws_terminalIntent := or_else (pt_terminalIntent p) (ws_terminalIntent r),
     ws_launchInput := or_else (pt_launchInput p) (ws_launchInput r),
     ws_providerKind := or_else (pt_providerKind p) (ws_providerKind r),
     ws_providerRef := or_else (pt_providerRef p) (ws_providerRef r),
     ws_provisioningMode := or_else (pt_provisioningMode p) (ws_provisioningMode r),
     ws_registrationDigest := or_else (pt_registrationDigest p) (ws_registrationDigest r),
     ws_registrationExpiresAt := or_else (pt_registrationExpiresAt p) (ws_registrationExpiresAt r),
     ws_reconnectDigest := or_else (pt_reconnectDigest p) (ws_reconnectDigest r),
     ws_connectionEpoch := or_else (pt_connectionEpoch p) (ws_connectionEpoch r),
     ws_connectedAt := or_else (pt_connectedAt p) (ws_connectedAt r),
     ws_disconnectedAt := or_else (pt_disconnectedAt p) (ws_disconnectedAt r),
     ws_readyAt := or_else (pt_readyAt p) (ws_readyAt r),
     ws_lastActivityAt := or_else (pt_lastActivityAt p) (ws_lastActivityAt r),
     ws_launchAttempts := or_else (pt_launchAttempts p) (ws_launchAttempts r),
     ws_health := or_else (pt_health p) (ws_health r),
     ws_agentState := or_else (pt_agentState p) (ws_agentState r),
     ws_networkState := or_else (pt_networkState p) (ws_networkState r),
     ws_failureLogTail := or_else (pt_failureLogTail p) (ws_failureLogTail r),
     ws_failureLogTailTruncated := or_else (pt_failureLogTailTruncated p) (ws_failureLogTailTruncated r),
     ws_failureLastLogSeq := or_else (pt_failureLastLogSeq p) (ws_failureLastLogSeq r),
     ws_resolvedSource := or_else (pt_resolvedSource p) (ws_resolvedSource r),
     ws_persistenceCapability := or_else (pt_persistenceCapability p) (ws_persistenceCapability r),
     ws_latestCheckpointId := or_else (pt_latestCheckpointId p) (ws_latestCheckpointId r),
     ws_outputs := or_else (pt_outputs p) (ws_outputs r)\<rparr>"

text \<open>\<open>parseDurationMs\<close> where its error only propagates.\<close>

definition duration_ms :: "string \<Rightarrow> js_error + int" where
  "duration_ms v = (case parseDurationMs v of Inl e \<Rightarrow> Inl (PlainError ''invalid duration'') | Inr n \<Rightarrow> Inr (int n))"

text \<open>\<open>CHANGE_PATCH_KEYS\<close>: the properties a client that waits for changes can see.\<close>

definition bumps_change :: "workspace_patch \<Rightarrow> bool" where
  "bumps_change p \<longleftrightarrow>
     pt_connectedAt p \<noteq> None \<or> pt_disconnectedAt p \<noteq> None \<or> pt_health p \<noteq> None \<or> pt_agentState p \<noteq> None
     \<or> pt_networkState p \<noteq> None \<or> pt_failureLogTail p \<noteq> None \<or> pt_failureLogTailTruncated p \<noteq> None
     \<or> pt_failureLastLogSeq p \<noteq> None \<or> pt_resolvedSource p \<noteq> None \<or> pt_persistenceCapability p \<noteq> None
     \<or> pt_latestCheckpointId p \<noteq> None \<or> pt_outputs p \<noteq> None"

definition purgedContentPatch :: "workspace_row \<Rightarrow> workspace_row" where
  "purgedContentPatch r = r\<lparr>
     ws_launchInput := None, ws_processExecution := None, ws_finiteProcess := None, ws_health := [],
     ws_outputs := JObj [], ws_failureLogTail := None, ws_failureLogTailTruncated := False,
     ws_failureLastLogSeq := None, ws_resolvedSource := None, ws_registrationDigest := None,
     ws_reconnectDigest := None\<rparr>"

text \<open>A transition without \<open>reason\<close> keeps the stored reason: \<open>set\<close> skips \<open>undefined\<close>. \<open>check\<close> runs three
  times; what the n-th run throws is \<open>rq_check n\<close>.\<close>

record transition_request =
  rq_from :: "workspace_state list"
  rq_to :: workspace_state
  rq_reason :: "reason_code option option"
  rq_at :: time
  rq_patch :: workspace_patch
  rq_expectedEpoch :: "nat option"
  rq_check :: "nat \<Rightarrow> js_error option"

definition request :: "workspace_state list \<Rightarrow> workspace_state \<Rightarrow> reason_code option option \<Rightarrow> time \<Rightarrow> workspace_patch \<Rightarrow> transition_request" where
  "request src dst reason at patch = \<lparr> rq_from = src, rq_to = dst, rq_reason = reason, rq_at = at,
     rq_patch = patch, rq_expectedEpoch = None, rq_check = (\<lambda>_. None) \<rparr>"

section \<open>History, events and the other tables\<close>

record history_row =
  h_id :: ident
  h_workspaceId :: ident
  h_fromState :: "workspace_state option"
  h_toState :: workspace_state
  h_reasonCode :: "reason_code option"
  h_occurredAt :: time

record outbox_row =
  ob_id :: ident
  ob_workspaceId :: ident
  ob_eventType :: string
  ob_payload :: json
  ob_occurredAt :: time
  ob_nextAttemptAt :: time
  ob_attemptCount :: nat
  ob_deliveredAt :: "time option"
  ob_lastErrorCode :: "string option"

record conversation_row =
  wc_workspaceId :: ident
  wc_status :: string
  wc_expiresAt :: "time option"
  wc_deletedAt :: "time option"
  wc_updatedAt :: time

datatype lease_state = LRequested | LIssued | LDelivered | LRevoking | LRevoked | LExpired
datatype lease_purpose = SetupIssuer | RuntimeIssuer

record lease_row =
  l_id :: ident
  l_workspaceId :: ident
  l_secretName :: string
  l_secretVersionId :: ident
  l_purpose :: lease_purpose
  l_sourceUrl :: "string option"
  l_sourceRevision :: "string option"
  l_templateDigest :: string
  l_policyDigest :: string
  l_requestId :: ident
  l_requestDigest :: string
  l_requestExpiresAt :: time
  l_issuerLeaseId :: "string option"
  l_issuerExpiresAt :: "time option"
  l_credentialBytes :: "int option"
  l_state :: lease_state
  l_createdAt :: time
  l_updatedAt :: time
  l_deliveredAt :: "time option"
  l_closedAt :: "time option"

record secret_row =
  s_name :: string
  s_type :: lease_purpose
  s_versionId :: ident
  s_retiredAt :: "time option"

datatype warm_state = WProvisioning | WReady | WLeasing | WLeased | WDraining | WFailed

record warm_runtime_row =
  wr_id :: ident
  wr_templateId :: ident
  wr_templateName :: string
  wr_templateVersion :: string
  wr_templateDigest :: string
  wr_driverKind :: string
  wr_eligibilityFingerprint :: string
  wr_state :: warm_state
  wr_providerRef :: "json option"
  wr_enrollmentDigest :: "bytes option"
  wr_enrollmentExpiresAt :: "time option"
  wr_workspaceId :: "ident option"
  wr_createdAt :: time
  wr_updatedAt :: time
  wr_readyAt :: "time option"
  wr_leasedAt :: "time option"
  wr_failureCode :: "string option"

datatype operation_kind = OpPreserve | OpRestore | OpVerify | OpDelete | OpPurge
datatype operation_state = OpPending | OpRunning | OpSucceeded | OpFailed

record operation_row =
  op_id :: ident
  op_principalId :: ident
  op_kind :: operation_kind
  op_state :: operation_state
  op_idempotencyKey :: string
  op_requestDigest :: string
  op_workspaceId :: "ident option"
  op_checkpointId :: "ident option"
  op_resultWorkspaceId :: "ident option"
  op_reasonCode :: "string option"
  op_attemptCount :: nat
  op_createdAt :: time
  op_updatedAt :: time
  op_completedAt :: "time option"

datatype checkpoint_state = CkCreating | CkReady | CkFailed | CkDeleting | CkDeleted

record checkpoint_row =
  cr_id :: ident
  cr_workspaceId :: ident
  cr_principalId :: ident
  cr_storageId :: ident
  cr_parentCheckpointId :: "ident option"
  cr_state :: checkpoint_state
  cr_reasonCode :: "string option"
  cr_providerKind :: string
  cr_providerRef :: "json option"
  cr_templateSnapshot :: template_snapshot
  cr_templateDigest :: string
  cr_sourceProvenance :: "json option"
  cr_manifest :: "json option"
  cr_manifestDigest :: "string option"
  cr_logicalBytes :: "int option"
  cr_storedBytes :: "int option"
  cr_fileCount :: "int option"
  cr_conversationRestore :: string
  cr_label :: "string option"
  cr_createdAt :: time
  cr_updatedAt :: time
  cr_readyAt :: "time option"
  cr_expiresAt :: "time option"
  cr_deletedAt :: "time option"

datatype storage_state =
    StAllocating | StReady | StSnapshotting | StRetained | StRestoring | StDeleting | StDeleted | StLost | StQuarantined

record storage_row =
  st_id :: ident
  st_workspaceId :: ident
  st_principalId :: ident
  st_providerKind :: string
  st_providerRef :: json
  st_state :: storage_state
  st_mountManifest :: "json list"
  st_logicalBytes :: "int option"
  st_fileCount :: "int option"
  st_retainedUntil :: "time option"
  st_createdAt :: time
  st_updatedAt :: time
  st_deletedAt :: "time option"
  st_lastErrorCode :: "string option"

record conversation_request_row =
  cq_principalId :: ident
  cq_conversationId :: ident
  cq_requestId :: ident
  cq_workspaceId :: "ident option"
  cq_identity :: conversation_identity
  cq_acceptedAt :: time
  cq_execution :: "execution_record option"

datatype input_state = InUploading | InReady | InUnavailable | InReleasing | InExpired

record input_row =
  in_workspaceId :: ident
  in_fileId :: ident
  in_principalId :: ident
  in_reservationId :: ident
  in_reference :: input_reference
  in_state :: input_state
  in_transferExpiresAt :: time
  in_retainedUntil :: time
  in_publishedAt :: "time option"
  in_retentionMs :: int

record input_manifest_row =
  mf_id :: ident
  mf_manifest :: input_manifest
  mf_finalizedAt :: "time option"

record store =
  workspaces :: "workspace_row list"
  stateHistory :: "history_row list"
  eventOutbox :: "outbox_row list"
  conversations :: "conversation_row list"
  leases :: "lease_row list"
  leaseFences :: "(ident \<times> time) list"
  secrets :: "secret_row list"
  runtimes :: "warm_runtime_row list"
  operations :: "operation_row list"
  checkpoints :: "checkpoint_row list"
  storages :: "storage_row list"
  conversationRequests :: "conversation_request_row list"
  inputObjects :: "input_row list"
  inputManifests :: "input_manifest_row list"
  deletionJournal :: "journal_event list option"

section \<open>The event of a transition\<close>

definition buildEventEnvelope :: "ident \<Rightarrow> workspace_row \<Rightarrow> time \<Rightarrow> json" where
  "buildEventEnvelope uuid row occurredAt = JObj
     [(''id'', JStr uuid),
      (''type'', JStr (''workspace.'' @ state_name (ws_state row))),
      (''occurred_at'', JStr (toISOString occurredAt)),
      (''workspace'', JObj
        [(''id'', JStr (ws_id row)),
         (''external_id'', JStr (ws_externalId row)),
         (''state'', JStr (state_name (ws_state row))),
         (''reason_code'', nullable (\<lambda>r. JStr (reason_name r)) (ws_reasonCode row)),
         (''agent_state'', JStr (agent_state_name (ws_agentState row))),
         (''provisioning_mode'', nullable JStr (ws_provisioningMode row)),
         (''change_cursor'', JNum (int (ws_changeSeq row))),
         (''failure'',
            case ws_reasonCode row of
              Some r \<Rightarrow> if ws_state row = Failed
                then JObj [(''reason_code'', JStr (reason_name r)),
                           (''log_tail'', JStr (or_else (ws_failureLogTail row) '''')),
                           (''log_tail_truncated'', JBool (ws_failureLogTailTruncated row)),
                           (''last_log_seq'', nullable (\<lambda>n. JNum (int n)) (ws_failureLastLogSeq row))]
                else JNull
            | None \<Rightarrow> JNull),
         (''template'', JObj
            [(''name'', JStr (ws_templateName row)), (''version'', JStr (ws_templateVersion row)),
             (''digest'', JStr (ws_templateDigest row))]),
         (''origin_workspace_id'', nullable JStr (ws_originWorkspaceId row)),
         (''restored_from_checkpoint_id'', nullable JStr (ws_restoredFromCheckpointId row)),
         (''latest_checkpoint_id'', nullable JStr (ws_latestCheckpointId row)),
         (''outputs'', ws_outputs row)])]"

text \<open>The two identifiers a transition generates: of the history row and of the event.\<close>

record uuids =
  u_history :: ident
  u_event :: ident

definition appendTransition ::
  "uuids \<Rightarrow> workspace_row \<Rightarrow> workspace_state option \<Rightarrow> reason_code option \<Rightarrow> time \<Rightarrow> store \<Rightarrow> js_error + store" where
  "appendTransition u row src reason at d =
     (if u_history u \<in> h_id ` set (stateHistory d) then Inl (DbError ''workspace_state_history_pkey'')
      else
        let d1 = d\<lparr>stateHistory := stateHistory d @
              [\<lparr> h_id = u_history u, h_workspaceId = ws_id row, h_fromState = src, h_toState = ws_state row,
                 h_reasonCode = reason, h_occurredAt = at \<rparr>]\<rparr>
        in if ws_purgeRequestedAt row \<noteq> None then Inr d1
           else if u_event u \<in> ob_id ` set (eventOutbox d) then Inl (DbError ''event_outbox_pkey'')
           else Inr (d1\<lparr>eventOutbox := eventOutbox d1 @
              [\<lparr> ob_id = u_event u, ob_workspaceId = ws_id row,
                 ob_eventType = ''workspace.'' @ state_name (ws_state row),
                 ob_payload = buildEventEnvelope (u_event u) row at, ob_occurredAt = at, ob_nextAttemptAt = at,
                 ob_attemptCount = 0, ob_deliveredAt = None, ob_lastErrorCode = None \<rparr>]\<rparr>))"

end
