(* ===== verification/Execution_Validation.thy ===== *)
theory Execution_Validation
  imports Workspace_Rows Key_Authority
begin

text \<open>
  What an execution must satisfy before it is accepted, and again before it is dispatched
  (\<^verbatim>\<open>packages/db/src/modules/workspaces/execution-validation.ts\<close>,
  \<^verbatim>\<open>execution-authority.ts\<close>, and the envelopes of
  \<^verbatim>\<open>packages/contracts/src/workspaces/execution-envelope.ts\<close>): a live and ready incarnation owned by the
  caller, an installed adapter that matches the template, declared service routes large enough for every
  message, the required capabilities, an input of the declared schema, and inputs within the limits. The
  template and the installed producer are JSON documents and are read property by property, as the code does;
  a property that is missing is \<open>undefined\<close>. SHA-256 is the parameter \<open>sha\<close>.
\<close>

definition executionConflict :: "js_error + 'a" where
  "executionConflict = Inl (ApiError ''operation.conflict'')"

definition requireExecutionPrincipal :: "principal_row list \<Rightarrow> ident \<Rightarrow> js_error + unit" where
  "requireExecutionPrincipal prins i =
     (case row_by p_id i prins of
        None \<Rightarrow> executionConflict
      | Some p \<Rightarrow> if p_disabledAt p \<noteq> None then executionConflict else Inr ())"

section \<open>Reading documents\<close>

definition strings :: "json option \<Rightarrow> string list" where
  "strings v = (case v of Some (JArr vs) \<Rightarrow> concat (map (\<lambda>x. case x of JStr s \<Rightarrow> [s] | _ \<Rightarrow> []) vs) | _ \<Rightarrow> [])"

definition elements :: "json option \<Rightarrow> json list" where
  "elements v = (case v of Some (JArr vs) \<Rightarrow> vs | _ \<Rightarrow> [])"

definition member_names :: "json option \<Rightarrow> string list" where
  "member_names v = (case v of Some (JObj ps) \<Rightarrow> map fst ps | _ \<Rightarrow> [])"

text \<open>\<open>n > limit\<close>, which is false when the limit is \<open>undefined\<close>.\<close>

definition exceeds :: "nat \<Rightarrow> json option \<Rightarrow> bool" where
  "exceeds n limit = (case limit of Some (JNum m) \<Rightarrow> int n > m | _ \<Rightarrow> False)"

section \<open>Input schemas\<close>

definition MAX_SAFE_INTEGER :: int where
  "MAX_SAFE_INTEGER = 9007199254740991"

lemma snd_size [termination_simp]: "p \<in> set ps \<Longrightarrow> size (snd p) < Suc (size_list (size_prod (\<lambda>x. 0) size) ps)"
  by (induction ps) auto

fun matchesInput :: "json option \<Rightarrow> json \<Rightarrow> bool" where
  "matchesInput None v = False"
| "matchesInput (Some schema) v =
     (if own ''type'' schema = Some (JStr ''null'') then v = JNull
      else if own ''type'' schema = Some (JStr ''integer'') then
        (case v of JNum n \<Rightarrow> \<bar>n\<bar> \<le> MAX_SAFE_INTEGER | _ \<Rightarrow> False)
      else if own ''type'' schema = Some (JStr ''number'') then (case v of JNum n \<Rightarrow> True | _ \<Rightarrow> False)
      else if own ''type'' schema = Some (JStr ''string'') then (case v of JStr s \<Rightarrow> True | _ \<Rightarrow> False)
      else if own ''type'' schema = Some (JStr ''boolean'') then (case v of JBool b \<Rightarrow> True | _ \<Rightarrow> False)
      else if own ''type'' schema = Some (JStr ''array'') then
        (case v of JArr vs \<Rightarrow> list_all (\<lambda>x. matchesInput (own ''items'' schema) x) vs | _ \<Rightarrow> False)
      else if own ''type'' schema = Some (JStr ''object'') then
        (case v of JObj ps \<Rightarrow>
            list_all (\<lambda>k. k \<in> set (map fst ps)) (strings (own ''required'' schema))
            \<and> list_all (\<lambda>p. matchesInput (own_path [''properties'', fst p] schema) (snd p)) ps
         | _ \<Rightarrow> False)
      else False)"

section \<open>The envelopes an adapter receives\<close>

definition substring :: "string \<Rightarrow> nat \<Rightarrow> nat \<Rightarrow> string" where
  "substring s a b = take (b - a) (drop a s)"

definition executionInputManifestId :: "(string \<Rightarrow> string) \<Rightarrow> workload_acceptance \<Rightarrow> ident" where
  "executionInputManifestId sha a =
     (let hash = drop 7 (digestOf sha (JObj
            [(''domain'', JStr ''execution-input-manifest/v1''), (''callerPrincipalId'', JStr (ac_callerPrincipalId a)),
             (''execution'', reference_json (ac_execution a))]))
      in substring hash 0 8 @ ''-'' @ substring hash 8 12 @ ''-8'' @ substring hash 13 16 @ ''-8'' @
         substring hash 17 20 @ ''-'' @ substring hash 20 32)"

definition inputProjectionDirectory :: "ident \<Rightarrow> string" where
  "inputProjectionDirectory manifestId = ''/run/pocketcoder/inputs/'' @ manifestId"

definition executionAcceptEnvelope :: "(string \<Rightarrow> string) \<Rightarrow> workload_acceptance \<Rightarrow> conversation_identity option \<Rightarrow> json" where
  "executionAcceptEnvelope sha a identity = JObj
     ([(''acceptance'', acceptance_json a), (''conversationIdentity'', nullable identity_json identity)]
      @ (if im_objects (ac_inputs a) = [] then []
         else [(''inputDirectory'', JStr (inputProjectionDirectory (executionInputManifestId sha a)))]))"

definition executionLookupEnvelope :: "execution_reference \<Rightarrow> json" where
  "executionLookupEnvelope x = JObj [(''execution'', reference_json x)]"

definition executionAckEnvelope :: "workload_acceptance \<Rightarrow> json" where
  "executionAckEnvelope a = JObj [(''execution'', reference_json (ac_execution a)), (''fingerprint'', JStr (ac_fingerprint a))]"

definition executionCancelEnvelope :: "workload_acceptance \<Rightarrow> ident \<Rightarrow> json" where
  "executionCancelEnvelope a cancelId = JObj
     [(''execution'', reference_json (ac_execution a)), (''cancelId'', JStr cancelId),
      (''fingerprint'', JStr (ac_fingerprint a)), (''scope'', JStr ''operation'')]"

section \<open>Validation\<close>

definition installedEvidence :: "workspace_row \<Rightarrow> workload_acceptance \<Rightarrow> js_error + (json \<times> json)" where
  "installedEvidence row input =
     (case ws_runtimeRegistration row of
        None \<Rightarrow> executionConflict
      | Some runtime \<Rightarrow>
          (case (rr_template runtime, rr_producer runtime) of
             (Some template, Some installed) \<Rightarrow>
               if own ''digest'' template \<noteq> Some (JStr (ac_templateDigest input))
                  \<or> ws_templateDigest row \<noteq> ac_templateDigest input
                  \<or> own ''templateDigest'' installed \<noteq> Some (JStr (ac_templateDigest input))
                  \<or> own ''workspaceId'' installed \<noteq> Some (JStr (ws_id row))
                  \<or> own ''incarnationId'' installed \<noteq> Some (JStr (rr_incarnationId runtime))
                  \<or> own ''image'' installed \<noteq> own_path [''manifest'', ''spec'', ''image''] template
                  \<or> map_option canonicalJson (own ''runtime'' installed)
                      \<noteq> map_option canonicalJson (own_path [''manifest'', ''spec'', ''runtime''] template)
               then executionConflict else Inr (template, installed)
           | _ \<Rightarrow> executionConflict))"

definition template_spec_of :: "json \<Rightarrow> json" where
  "template_spec_of template = (case own_path [''manifest'', ''spec''] template of Some s \<Rightarrow> s | None \<Rightarrow> JUndefined)"

definition adapter_name :: "json \<Rightarrow> string" where
  "adapter_name operation = (case own ''adapter'' operation of Some (JStr a) \<Rightarrow> a | _ \<Rightarrow> [])"

definition validateOwner :: "workload_acceptance \<Rightarrow> json option \<Rightarrow> json option \<Rightarrow> string \<Rightarrow> js_error + unit" where
  "validateOwner input kind protocol profile =
     (let owner = (if kind = Some (JStr ''process'') then OwnerProcess else OwnerConversation)
      in if xr_owner (ac_execution input) \<noteq> owner \<or> (owner = OwnerProcess \<and> profile \<noteq> ''finite-process'')
         then executionConflict
         else if owner = OwnerConversation \<and> protocol \<noteq> Some (JStr ''pocketcoder.execution/v1'')
         then executionConflict else Inr ())"

definition buffered_route :: "string \<Rightarrow> json \<Rightarrow> bool" where
  "buffered_route path r \<longleftrightarrow> own ''method'' r = Some (JStr ''POST'') \<and> own ''path'' r = Some (JStr path)
     \<and> own ''responseMode'' r = Some (JStr ''buffered'')"

fun checkRoutes :: "json list \<Rightarrow> (string \<times> json) list \<Rightarrow> js_error + unit" where
  "checkRoutes routes [] = Inr ()"
| "checkRoutes routes ((action, envelope) # rest) =
     (case List.find (buffered_route (''/executions/'' @ action)) routes of
        None \<Rightarrow> executionConflict
      | Some route \<Rightarrow>
          if exceeds (length (stringify envelope)) (own ''maxRequestBytes'' route)
          then Inl (ApiError ''relay.body_too_large'') else checkRoutes routes rest)"

definition validateServiceRoutes ::
  "(string \<Rightarrow> string) \<Rightarrow> json \<Rightarrow> json \<Rightarrow> workload_acceptance \<Rightarrow> conversation_identity option \<Rightarrow> js_error + unit" where
  "validateServiceRoutes sha spec declared input identity =
     (let name = (case own ''service'' declared of Some (JStr s) \<Rightarrow> s | _ \<Rightarrow> []);
          routes = elements (own_path [''services'', name, ''routes''] spec)
      in checkRoutes routes
           [(''accept'', executionAcceptEnvelope sha input identity),
            (''lookup'', executionLookupEnvelope (ac_execution input)),
            (''ack'', executionAckEnvelope input),
            (''cancel'', executionCancelEnvelope input (xr_requestId (ac_execution input)))])"

definition operation_capabilities :: "string \<Rightarrow> string list" where
  "operation_capabilities profile =
     (if profile = ''service'' then [''unknown-outcome'']
      else if profile = ''finite-process'' then [''explicit-start'', ''exact-exit'', ''targeted-cancel'', ''stop-before-export'']
      else if profile = ''cloud-interactive''
      then [''request-lookup'', ''deduplicated-accept'', ''targeted-cancel'', ''explicit-publication'']
      else [])"

definition validateInputLimits :: "workload_acceptance \<Rightarrow> json option \<Rightarrow> js_error + unit" where
  "validateInputLimits input limits =
     (let objects = im_objects (ac_inputs input); limit = (\<lambda>k. Option.bind limits (own k))
      in if exceeds (length objects) (limit ''inputFiles'')
            \<or> list_ex (\<lambda>x. exceeds (ir_sizeBytes x) (limit ''inputFileBytes'')) objects
            \<or> exceeds (sum_list (map ir_sizeBytes objects)) (limit ''stagedInputBytes'')
         then executionConflict else Inr ())"

definition operationAdapterCapabilities :: "workspace_row \<Rightarrow> workload_acceptance \<Rightarrow> js_error + string list" where
  "operationAdapterCapabilities row input =
     bindE (installedEvidence row input) (\<lambda>(template, installed).
       Inr (case own_path [''operations'', ac_operation input] (template_spec_of template) of
              None \<Rightarrow> []
            | Some operation \<Rightarrow> strings (own_path [''adapters'', adapter_name operation, ''capabilities''] installed)))"

text \<open>The operation of the template with its declared and its installed adapter.\<close>

definition installed_adapter :: "json \<Rightarrow> json \<Rightarrow> workload_acceptance \<Rightarrow> js_error + (json \<times> json \<times> json)" where
  "installed_adapter spec installed input =
     (case own_path [''operations'', ac_operation input] spec of
        None \<Rightarrow> executionConflict
      | Some operation \<Rightarrow>
          (case (own_path [''adapters'', adapter_name operation] spec, own_path [''adapters'', adapter_name operation] installed) of
             (Some declared, Some adapter) \<Rightarrow>
               if Some (JStr (ac_adapterDigest input)) \<noteq> own ''digest'' adapter
                  \<or> own ''digest'' declared \<noteq> own ''digest'' adapter
                  \<or> own ''protocol'' declared \<noteq> own ''protocol'' adapter
                  \<or> own ''kind'' declared \<noteq> own ''kind'' adapter
               then executionConflict else Inr (operation, declared, adapter)
           | _ \<Rightarrow> executionConflict))"

definition live_incarnation :: "workspace_row \<Rightarrow> workload_acceptance \<Rightarrow> time \<Rightarrow> runtime_registration option" where
  "live_incarnation row input at =
     (case ws_runtimeRegistration row of
        None \<Rightarrow> None
      | Some runtime \<Rightarrow>
          if ws_purgeRequestedAt row \<noteq> None \<or> ws_state row \<noteq> Ready \<or> ws_deadlineAt row \<le> at
             \<or> rr_readyAt runtime = None \<or> rr_endedAt runtime \<noteq> None
             \<or> rr_incarnationId runtime \<noteq> xr_incarnationId (ac_execution input)
          then None else Some runtime)"

definition validateExecution ::
  "(string \<Rightarrow> string) \<Rightarrow> workspace_row \<Rightarrow> workload_acceptance \<Rightarrow> time \<Rightarrow> conversation_identity option \<Rightarrow> js_error + unit" where
  "validateExecution sha row input at identity =
     (if ws_principalId row \<noteq> ac_callerPrincipalId input then executionConflict
      else case live_incarnation row input at of
        None \<Rightarrow> executionConflict
      | Some runtime \<Rightarrow>
          bindE (installedEvidence row input) (\<lambda>(template, installed).
            let spec = template_spec_of template in
            bindE (installed_adapter spec installed input) (\<lambda>(operation, declared, adapter).
            bindE (validateOwner input (own ''kind'' adapter) (own ''protocol'' adapter) (rr_profile runtime)) (\<lambda>_.
            bindE (if xr_owner (ac_execution input) = OwnerConversation
                   then validateServiceRoutes sha spec declared input identity else Inr ()) (\<lambda>_.
            if list_ex (\<lambda>c. c \<notin> set (strings (own ''capabilities'' adapter)) \<or> c \<notin> set (strings (own ''capabilities'' installed)))
                 (dedup (operation_capabilities (rr_profile runtime) @ strings (own ''requiredCapabilities'' operation)))
            then executionConflict
            else if \<not> matchesInput (own ''inputSchema'' operation) (JObj (ac_input input)) then executionConflict
            else if member_names (own ''credentialSlots'' spec) \<noteq> [] \<or> ac_bindingSetDigest input \<noteq> digestOf sha (JArr [])
            then executionConflict
            else if im_objects (ac_inputs input) \<noteq> [] \<and> ''immutable-inputs'' \<notin> set (strings (own ''capabilities'' installed))
            then executionConflict
            else validateInputLimits input (own ''limits'' spec))))))"

text \<open>\<open>WorkloadAcceptanceSchema\<close> and the manifest in it: the fingerprint and the manifest digest are those of
  the other facts, and the inputs are ready, distinct and of the execution's workspace and incarnation.\<close>

definition valid_manifest :: "(string \<Rightarrow> string) \<Rightarrow> input_manifest \<Rightarrow> bool" where
  "valid_manifest sha m \<longleftrightarrow>
     im_digest m = digestOf sha (JObj
       [(''workspaceId'', JStr (im_workspaceId m)), (''incarnationId'', JStr (im_incarnationId m)),
        (''objects'', JArr (map input_reference_json (im_objects m)))])
     \<and> list_all (\<lambda>x. ir_workspaceId x = im_workspaceId m \<and> ir_visibility x = ''ready'') (im_objects m)
     \<and> distinct (map ir_fileId (im_objects m))"

definition valid_acceptance :: "(string \<Rightarrow> string) \<Rightarrow> workload_acceptance \<Rightarrow> bool" where
  "valid_acceptance sha a \<longleftrightarrow> valid_manifest sha (ac_inputs a)
     \<and> ac_fingerprint a = digestOf sha (JObj
         [(''execution'', reference_json (ac_execution a)), (''callerPrincipalId'', JStr (ac_callerPrincipalId a)),
          (''templateDigest'', JStr (ac_templateDigest a)), (''adapterDigest'', JStr (ac_adapterDigest a)),
          (''operation'', JStr (ac_operation a)), (''input'', JObj (ac_input a)),
          (''inputs'', input_manifest_json (ac_inputs a)), (''bindingSetDigest'', JStr (ac_bindingSetDigest a))])
     \<and> im_workspaceId (ac_inputs a) = xr_workspaceId (ac_execution a)
     \<and> im_incarnationId (ac_inputs a) = xr_incarnationId (ac_execution a)"

end
