(* ===== verification/Lease_Store.thy ===== *)
theory Lease_Store
  imports Workspace_Rows
begin

text \<open>
  Credential leases of a workspace (\<^verbatim>\<open>packages/db/src/modules/secrets/lease-fence.ts\<close>,
  \<^verbatim>\<open>lease-authority.ts\<close> and \<^verbatim>\<open>leases.ts\<close>): a lease is requested, issued, delivered, revoked or expired;
  a fence on the workspace stops new leases and turns every open one to revoking. Each operation is one
  transaction: an error leaves the store as it was.
\<close>

definition isClosed :: "lease_state \<Rightarrow> bool" where
  "isClosed s \<longleftrightarrow> s = LRevoked \<or> s = LExpired"

definition pendingWorkspaceLeases :: "store \<Rightarrow> ident \<Rightarrow> lease_row list" where
  "pendingWorkspaceLeases d i = filter (\<lambda>l. l_workspaceId l = i \<and> \<not> isClosed (l_state l)) (leases d)"

definition fenced :: "store \<Rightarrow> ident \<Rightarrow> bool" where
  "fenced d i \<longleftrightarrow> i \<in> fst ` set (leaseFences d)"

definition fenceWorkspaceLeaseRows :: "ident \<Rightarrow> time \<Rightarrow> store \<Rightarrow> store" where
  "fenceWorkspaceLeaseRows i at d = d\<lparr>
     leaseFences := (if fenced d i then leaseFences d else leaseFences d @ [(i, at)]),
     leases := update_where
       (\<lambda>l. l_workspaceId l = i \<and> \<not> isClosed (l_state l) \<and> l_state l \<noteq> LRevoking)
       (\<lambda>l. l\<lparr>l_state := LRevoking, l_updatedAt := at\<rparr>) (leases d)\<rparr>"

definition prepareLeaseTransition :: "ident \<Rightarrow> workspace_state \<Rightarrow> time \<Rightarrow> store \<Rightarrow> bool \<times> store" where
  "prepareLeaseTransition i dst at d =
     (if \<not> isTerminal dst \<and> dst \<noteq> Terminating \<and> dst \<noteq> Preserving then (True, d)
      else let d1 = fenceWorkspaceLeaseRows i at d
           in if \<not> isTerminal dst then (True, d1) else (pendingWorkspaceLeases d1 i = [], d1))"

definition setupLeaseClosed :: "store \<Rightarrow> workspace_row \<Rightarrow> bool" where
  "setupLeaseClosed d row =
     (let reference =
            (if ws_launchMode row \<noteq> ''create'' then None
             else case ws_sourceDescriptor row of
                    None \<Rightarrow> None
                  | Some source \<Rightarrow>
                      (case sp_repositories (ts_spec (ws_templateSnapshot row)) of
                         None \<Rightarrow> None
                       | Some repos \<Rightarrow> (case map_of repos (sd_repository source) of
                                          None \<Rightarrow> None | Some r \<Rightarrow> sr_credential r)));
          own = filter (\<lambda>l. l_workspaceId l = ws_id row) (leases d)
      in case reference of
           None \<Rightarrow> True
         | Some ref \<Rightarrow>
             ref = '''' \<or>
             ((\<exists>l \<in> set own. l_secretName l = drop 10 ref \<and> l_deliveredAt l \<noteq> None)
              \<and> (\<forall>l \<in> set own. l_purpose l = SetupIssuer \<longrightarrow> l_state l = LRevoked \<or> l_state l = LExpired)))"

section \<open>Who may hold a lease\<close>

definition leaseWorkspaceActive :: "workspace_row \<Rightarrow> lease_purpose \<Rightarrow> time \<Rightarrow> bool" where
  "leaseWorkspaceActive owner purpose at \<longleftrightarrow>
     ws_state owner \<in> set (if purpose = SetupIssuer then [Provisioning] else [Provisioning, Connected, Ready])
     \<and> ws_purgeRequestedAt owner = None \<and> at < ws_deadlineAt owner"

definition leaseSourceIdentity ::
  "workspace_row \<Rightarrow> lease_purpose \<Rightarrow> string \<Rightarrow> js_error + (string option \<times> string option)" where
  "leaseSourceIdentity owner purpose name =
     (let spec = ts_spec (ws_templateSnapshot owner) in
      if purpose = RuntimeIssuer
      then if name \<in> set (runtimeCredentialReferences spec) then Inr (None, None)
           else Inl (PlainError ''Runtime lease reference is unavailable'')
      else let unavailable = Inl (PlainError ''Lease source reference is unavailable'')
           in if ws_launchMode owner \<noteq> ''create'' then unavailable
              else case ws_sourceDescriptor owner of
                     None \<Rightarrow> unavailable
                   | Some source \<Rightarrow>
                       (case sp_repositories spec of
                          None \<Rightarrow> unavailable
                        | Some repos \<Rightarrow>
                            (case map_of repos (sd_repository source) of
                               None \<Rightarrow> unavailable
                             | Some r \<Rightarrow>
                                 if sr_credential r = Some (''secretRef:'' @ name)
                                 then Inr (Some (sr_url r), Some (sd_revision source))
                                 else unavailable)))"

section \<open>Transactions\<close>

record lease_request =
  lr_workspaceId :: ident
  lr_secretName :: string
  lr_secretVersionId :: ident
  lr_purpose :: lease_purpose
  lr_policyDigest :: string
  lr_requestId :: ident
  lr_at :: time

definition same_reference :: "lease_request \<Rightarrow> lease_row \<Rightarrow> bool" where
  "same_reference input l \<longleftrightarrow>
     l_workspaceId l = lr_workspaceId input \<and> l_secretName l = lr_secretName input
     \<and> l_purpose l = lr_purpose input \<and> \<not> isClosed (l_state l)"

definition enforceReferenceLimit :: "lease_request \<Rightarrow> store \<Rightarrow> js_error + store" where
  "enforceReferenceLimit input d =
     (let d1 = d\<lparr>leases := update_where
            (\<lambda>l. same_reference input l \<and> (case l_issuerExpiresAt l of None \<Rightarrow> False | Some e \<Rightarrow> e \<le> lr_at input))
            (\<lambda>l. l\<lparr>l_state := LExpired, l_closedAt := Some (lr_at input), l_updatedAt := lr_at input\<rparr>) (leases d)\<rparr>
      in if 2 \<le> length (filter (same_reference input) (leases d1))
         then Inl (PlainError ''Workspace lease limit reached'') else Inr d1)"

definition assertRequestIdentity :: "lease_row \<Rightarrow> lease_request \<Rightarrow> string \<Rightarrow> js_error + unit" where
  "assertRequestIdentity row input templateDigest =
     guardE (l_secretVersionId row \<noteq> lr_secretVersionId input \<or> l_workspaceId row \<noteq> lr_workspaceId input
             \<or> l_policyDigest row \<noteq> lr_policyDigest input \<or> l_templateDigest row \<noteq> templateDigest
             \<or> l_purpose row \<noteq> lr_purpose input)
       (PlainError ''Lease request identity changed'')"

fun purpose_name :: "lease_purpose \<Rightarrow> string" where
  "purpose_name SetupIssuer = ''setup-issuer''"
| "purpose_name RuntimeIssuer = ''runtime-issuer''"

definition lease_identity_json :: "lease_row \<Rightarrow> json" where
  "lease_identity_json l = JObj
     [(''workspaceId'', JStr (l_workspaceId l)), (''secretName'', JStr (l_secretName l)),
      (''secretVersionId'', JStr (l_secretVersionId l)), (''purpose'', JStr (purpose_name (l_purpose l))),
      (''sourceUrl'', nullable JStr (l_sourceUrl l)), (''sourceRevision'', nullable JStr (l_sourceRevision l)),
      (''templateDigest'', JStr (l_templateDigest l)), (''policyDigest'', JStr (l_policyDigest l)),
      (''requestId'', JStr (l_requestId l)), (''requestExpiresAt'', JStr (toISOString (l_requestExpiresAt l)))]"

definition new_lease :: "ident \<Rightarrow> workspace_row \<Rightarrow> lease_request \<Rightarrow> secret_row \<Rightarrow> string option \<times> string option \<Rightarrow> lease_row" where
  "new_lease uuid owner input issuer source =
     \<lparr> l_id = uuid, l_workspaceId = ws_id owner, l_secretName = lr_secretName input,
       l_secretVersionId = s_versionId issuer, l_purpose = lr_purpose input, l_sourceUrl = fst source,
       l_sourceRevision = snd source, l_templateDigest = ws_templateDigest owner,
       l_policyDigest = lr_policyDigest input, l_requestId = lr_requestId input, l_requestDigest = '''',
       l_requestExpiresAt = min (ws_deadlineAt owner) (lr_at input + 300000), l_issuerLeaseId = None,
       l_issuerExpiresAt = None, l_credentialBytes = None, l_state = LRequested, l_createdAt = lr_at input,
       l_updatedAt = lr_at input, l_deliveredAt = None, l_closedAt = None \<rparr>"

definition requestWorkspaceLease ::
  "(string \<Rightarrow> string) \<Rightarrow> ident \<Rightarrow> store \<Rightarrow> lease_request \<Rightarrow> js_error + (lease_row \<times> store)" where
  "requestWorkspaceLease sha256Hex uuid d input =
     (case row_by ws_id (lr_workspaceId input) (workspaces d) of
        None \<Rightarrow> Inl (PlainError ''Lease workspace is unavailable'')
      | Some owner \<Rightarrow>
          bindE (guardE (fenced d (ws_id owner)) (PlainError ''Lease workspace is fenced'')) (\<lambda>_.
          bindE (guardE (\<not> leaseWorkspaceActive owner (lr_purpose input) (lr_at input))
                   (PlainError ''Lease workspace is inactive'')) (\<lambda>_.
          case List.find (\<lambda>s. s_name s = lr_secretName input \<and> s_versionId s = lr_secretVersionId input
                             \<and> s_type s = lr_purpose input \<and> s_retiredAt s = None) (secrets d) of
            None \<Rightarrow> Inl (PlainError ''Lease issuer is unavailable'')
          | Some issuer \<Rightarrow>
              (case List.find (\<lambda>l. l_secretName l = lr_secretName input \<and> l_requestId l = lr_requestId input) (leases d) of
                 Some existing \<Rightarrow>
                   bindE (assertRequestIdentity existing input (ws_templateDigest owner)) (\<lambda>_. Inr (existing, d))
               | None \<Rightarrow>
                   bindE (leaseSourceIdentity owner (lr_purpose input) (lr_secretName input)) (\<lambda>source.
                   bindE (enforceReferenceLimit input d) (\<lambda>d1.
                   let fresh = new_lease uuid owner input issuer source;
                       row = fresh\<lparr>l_requestDigest := digestOf sha256Hex (lease_identity_json fresh)\<rparr>
                   in bindE (guardE (uuid \<in> l_id ` set (leases d1)) (DbError ''workspace_leases_pkey'')) (\<lambda>_.
                      Inr (row, d1\<lparr>leases := leases d1 @ [row]\<rparr>))))))))"

text \<open>\<open>writable\<close>: the lease and the workspace that owns it, both locked.\<close>

definition writable_lease :: "store \<Rightarrow> ident \<Rightarrow> js_error + (lease_row \<times> workspace_row)" where
  "writable_lease d i =
     (case row_by l_id i (leases d) of
        None \<Rightarrow> Inl (PlainError ''Lease request is unavailable'')
      | Some row \<Rightarrow>
          (case row_by ws_id (l_workspaceId row) (workspaces d) of
             None \<Rightarrow> Inl (PlainError ''Lease workspace is unavailable'')
           | Some owner \<Rightarrow> Inr (row, owner)))"

definition set_lease :: "ident \<Rightarrow> (lease_row \<Rightarrow> lease_row) \<Rightarrow> store \<Rightarrow> store" where
  "set_lease i f d = d\<lparr>leases := set_row l_id i f (leases d)\<rparr>"

definition recordWorkspaceLeaseIssued ::
  "store \<Rightarrow> ident \<Rightarrow> string \<Rightarrow> time \<Rightarrow> int \<Rightarrow> time \<Rightarrow> js_error + (lease_row option \<times> store)" where
  "recordWorkspaceLeaseIssued d i issuerLeaseId expiresAt credentialBytes at =
     bindE (writable_lease d i) (\<lambda>(row, owner).
     if isClosed (l_state row) then Inr (None, d)
     else
       bindE (guardE (issuerLeaseId = '''' \<or> 1024 < length issuerLeaseId \<or> credentialBytes < 1
                \<or> 65536 < credentialBytes \<or> expiresAt \<le> l_createdAt row \<or> l_requestExpiresAt row < expiresAt)
                (PlainError ''Lease issuer expiry or identity is invalid'')) (\<lambda>_.
       bindE (guardE (l_issuerLeaseId row \<noteq> None
                \<and> (l_issuerLeaseId row \<noteq> Some issuerLeaseId \<or> l_issuerExpiresAt row \<noteq> Some expiresAt
                   \<or> l_credentialBytes row \<noteq> Some credentialBytes))
                (PlainError ''Lease request identity changed'')) (\<lambda>_.
       let stopped = l_state row = LRevoking \<or> fenced d (ws_id owner) \<or> \<not> leaseWorkspaceActive owner (l_purpose row) at;
           state = (if stopped then LRevoking else if l_state row \<noteq> LDelivered then LIssued else LDelivered);
           f = (\<lambda>l. l\<lparr>l_issuerLeaseId := Some issuerLeaseId, l_issuerExpiresAt := Some expiresAt,
                      l_credentialBytes := Some credentialBytes, l_state := state, l_updatedAt := at\<rparr>)
       in Inr (Some (f row), set_lease i f d))))"

definition recordWorkspaceLeaseDelivered :: "store \<Rightarrow> ident \<Rightarrow> time \<Rightarrow> js_error + (lease_row option \<times> store)" where
  "recordWorkspaceLeaseDelivered d i at =
     bindE (writable_lease d i) (\<lambda>(row, owner).
     if l_state row \<notin> {LIssued, LDelivered} \<or> (case l_issuerExpiresAt row of None \<Rightarrow> True | Some e \<Rightarrow> e \<le> at)
        \<or> fenced d (ws_id owner) \<or> \<not> leaseWorkspaceActive owner (l_purpose row) at
     then Inr (None, d)
     else let f = (\<lambda>l. l\<lparr>l_state := LDelivered, l_deliveredAt := Some (or_else (l_deliveredAt row) at), l_updatedAt := at\<rparr>)
          in Inr (Some (f row), set_lease i f d))"

definition requestWorkspaceLeaseRevocation :: "store \<Rightarrow> ident \<Rightarrow> time \<Rightarrow> js_error + (lease_row \<times> store)" where
  "requestWorkspaceLeaseRevocation d i at =
     bindE (writable_lease d i) (\<lambda>(row, owner).
     if isClosed (l_state row) \<or> l_state row = LRevoking then Inr (row, d)
     else let f = (\<lambda>l. l\<lparr>l_state := LRevoking, l_updatedAt := at\<rparr>) in Inr (f row, set_lease i f d))"

definition fenceWorkspaceLeases :: "store \<Rightarrow> ident \<Rightarrow> time \<Rightarrow> js_error + store" where
  "fenceWorkspaceLeases d i at =
     (case row_by ws_id i (workspaces d) of
        None \<Rightarrow> Inl (PlainError ''Lease workspace is unavailable'')
      | Some _ \<Rightarrow> Inr (fenceWorkspaceLeaseRows i at d))"

definition recordWorkspaceLeaseRevoked ::
  "store \<Rightarrow> ident \<Rightarrow> ident \<Rightarrow> time \<Rightarrow> js_error + (lease_row option \<times> store)" where
  "recordWorkspaceLeaseRevoked d i requestId at =
     bindE (writable_lease d i) (\<lambda>(row, owner).
     bindE (guardE (l_requestId row \<noteq> requestId) (PlainError ''Lease request identity changed'')) (\<lambda>_.
     if isClosed (l_state row) then Inr (Some row, d)
     else if l_state row \<noteq> LRevoking then Inr (None, d)
     else let f = (\<lambda>l. l\<lparr>l_state := LRevoked, l_closedAt := Some at, l_updatedAt := at\<rparr>)
          in Inr (Some (f row), set_lease i f d)))"

definition recordWorkspaceLeaseExpired :: "store \<Rightarrow> ident \<Rightarrow> time \<Rightarrow> js_error + (lease_row option \<times> store)" where
  "recordWorkspaceLeaseExpired d i at =
     bindE (writable_lease d i) (\<lambda>(row, owner).
     if isClosed (l_state row) then Inr (Some row, d)
     else if (case l_issuerExpiresAt row of None \<Rightarrow> True | Some e \<Rightarrow> at < e) then Inr (None, d)
     else let f = (\<lambda>l. l\<lparr>l_state := LExpired, l_closedAt := Some at, l_updatedAt := at\<rparr>)
          in Inr (Some (f row), set_lease i f d))"

definition listWorkspaceLeases :: "store \<Rightarrow> ident \<Rightarrow> lease_row list" where
  "listWorkspaceLeases d i =
     sort_key l_createdAt (sort_key l_id (filter (\<lambda>l. l_workspaceId l = i) (leases d)))"

definition listPendingWorkspaceLeases :: "store \<Rightarrow> ident option \<Rightarrow> lease_row list" where
  "listPendingWorkspaceLeases d i =
     sort_key l_createdAt (sort_key l_id (filter (\<lambda>l. \<not> isClosed (l_state l)
       \<and> (case i of None \<Rightarrow> True | Some w \<Rightarrow> l_workspaceId l = w)) (leases d)))"

end
