(* ===== verification/Workspace_Store.thy ===== *)
theory Workspace_Store
  imports Lease_Store
begin

text \<open>
  The workspace store (\<^verbatim>\<open>packages/db/src/modules/workspaces/\<close>): guarded transitions, patches, creation and
  listing, admission under the capacity limits, the facts of finite processes, and the warm-pool rows
  (\<^verbatim>\<open>packages/db/src/modules/warm-pools/\<close>), the persistence operations that request a purge
  (\<^verbatim>\<open>packages/db/src/modules/persistence/operations.ts\<close>) and the outbox
  (\<^verbatim>\<open>packages/db/src/modules/outbox/repository.ts\<close>). Each operation is one transaction on the store; an error
  is a rolled back transaction. Waking the clients that wait for a change is not part of the store's state.
\<close>

section \<open>Transitions\<close>

definition permitsTransition :: "workspace_row \<Rightarrow> transition_request \<Rightarrow> bool" where
  "permitsTransition current req \<longleftrightarrow>
     ws_state current \<in> set (rq_from req) \<and> canTransition (ws_state current) (rq_to req)
     \<and> (case rq_expectedEpoch req of None \<Rightarrow> True | Some e \<Rightarrow> ws_connectionEpoch current = e)"

definition purge_if_requested :: "workspace_row \<Rightarrow> workspace_row \<Rightarrow> workspace_row" where
  "purge_if_requested current r = (if ws_purgeRequestedAt current \<noteq> None then purgedContentPatch r else r)"

definition updateWorkspace :: "store \<Rightarrow> ident \<Rightarrow> workspace_patch \<Rightarrow> time \<Rightarrow> store" where
  "updateWorkspace d i patch at =
     d\<lparr>workspaces := set_row ws_id i
        (\<lambda>r. let r1 = (purge_if_requested r (apply_patch patch r))\<lparr>ws_updatedAt := at\<rparr>
             in if bumps_change patch then r1\<lparr>ws_changeSeq := ws_changeSeq r + 1\<rparr> else r1) (workspaces d)\<rparr>"

definition transition_row :: "workspace_row \<Rightarrow> transition_request \<Rightarrow> workspace_row" where
  "transition_row current req =
     (let r1 = (purge_if_requested current (apply_patch (rq_patch req) current))
            \<lparr>ws_state := rq_to req, ws_reasonCode := or_else (rq_reason req) (ws_reasonCode current),
             ws_updatedAt := rq_at req, ws_changeSeq := ws_changeSeq current + 1\<rparr>
      in if isTerminal (rq_to req)
         then r1\<lparr>ws_terminalAt := Some (rq_at req), ws_launchInput := None, ws_registrationDigest := None\<rparr>
         else r1)"

definition retain_conversation :: "ident \<Rightarrow> time \<Rightarrow> time \<Rightarrow> store \<Rightarrow> store" where
  "retain_conversation i expiresAt at d =
     (if i \<in> wc_workspaceId ` set (conversations d)
      then d\<lparr>conversations := update_where (\<lambda>c. wc_workspaceId c = i \<and> wc_status c \<noteq> ''deleted'')
              (\<lambda>c. c\<lparr>wc_expiresAt := Some expiresAt, wc_updatedAt := at\<rparr>) (conversations d)\<rparr>
      else d\<lparr>conversations := conversations d @
              [\<lparr> wc_workspaceId = i, wc_status = ''retained'', wc_expiresAt = Some expiresAt,
                 wc_deletedAt = None, wc_updatedAt = at \<rparr>]\<rparr>)"

definition run_check :: "transition_request \<Rightarrow> nat \<Rightarrow> js_error + unit" where
  "run_check req n = (case rq_check req n of None \<Rightarrow> Inr () | Some e \<Rightarrow> Inl e)"

definition commit_transition :: "uuids \<Rightarrow> store \<Rightarrow> workspace_row \<Rightarrow> transition_request \<Rightarrow> js_error + (workspace_row \<times> store)" where
  "commit_transition u d current req =
     (let row = transition_row current req;
          d1 = d\<lparr>workspaces := set_row ws_id (ws_id current) (\<lambda>_. row) (workspaces d)\<rparr>
      in bindE (run_check req 1) (\<lambda>_.
         bindE (appendTransition u row (Some (ws_state current)) (ws_reasonCode row) (rq_at req) d1) (\<lambda>d2.
         bindE (if isTerminal (rq_to req)
                then bindE (duration_ms (sp_conversationRetention (ts_spec (ws_templateSnapshot row)))) (\<lambda>ms.
                     Inr (retain_conversation (ws_id current) (rq_at req + ms) (rq_at req) d2))
                else Inr d2) (\<lambda>d3.
         bindE (run_check req 2) (\<lambda>_.
         Inr (row, d3))))))"

definition transitionWorkspace ::
  "uuids \<Rightarrow> store \<Rightarrow> ident \<Rightarrow> transition_request \<Rightarrow> js_error + (workspace_row option \<times> store)" where
  "transitionWorkspace u d i req =
     bindE (run_check req 0) (\<lambda>_.
     case row_by ws_id i (workspaces d) of
       None \<Rightarrow> Inr (None, d)
     | Some current \<Rightarrow>
         if \<not> permitsTransition current req then Inr (None, d)
         else if ws_purgeRequestedAt current \<noteq> None
                 \<and> rq_to req \<in> set [Provisioning, Connected, Ready, Preserving, Queued] then Inr (None, d)
         else if rq_to req = Ready \<and> \<not> setupLeaseClosed d current then Inr (None, d)
         else let (ok, d1) = prepareLeaseTransition i (rq_to req) (rq_at req) d
              in if \<not> ok then Inr (None, d1)
                 else bindE (commit_transition u d1 current req) (\<lambda>(row, d2). Inr (Some row, d2)))"

definition listStateHistory :: "store \<Rightarrow> ident \<Rightarrow> history_row list" where
  "listStateHistory d i = sort_key h_occurredAt (filter (\<lambda>h. h_workspaceId h = i) (stateHistory d))"

section \<open>Creation and reading\<close>

record workspace_insert =
  wi_id :: ident
  wi_principalId :: ident
  wi_externalId :: string
  wi_idempotencyKey :: string
  wi_requestDigest :: string
  wi_templateId :: ident
  wi_templateSnapshot :: template_snapshot
  wi_launchInput :: "json option"
  wi_metadata :: "(string \<times> string) list"
  wi_deadlineAt :: time
  wi_createdAt :: time
  wi_originWorkspaceId :: "ident option"
  wi_restoredFromCheckpointId :: "ident option"
  wi_sourceDescriptor :: "source_descriptor option"
  wi_resolvedSource :: "json option"
  wi_persistenceCapability :: "string option"
  wi_latestCheckpointId :: "ident option"
  wi_launchMode :: "string option"
  wi_outputs :: "json option"

datatype insert_result =
    Created workspace_row
  | Replayed workspace_row
  | IdempotencyConflict workspace_row
  | ExternalIdConflict workspace_row
  | CapacityExceeded

text \<open>The columns \<open>insert\<close> does not name have the defaults of \<^verbatim>\<open>packages/db/src/schema/workspaces.ts\<close>.\<close>

definition new_workspace :: "workspace_insert \<Rightarrow> workspace_row" where
  "new_workspace w =
     (let snapshot = wi_templateSnapshot w in
      \<lparr> ws_runtimeRegistration = None, ws_finiteProcess = None, ws_processExecution = None,
        ws_id = wi_id w, ws_principalId = wi_principalId w, ws_externalId = wi_externalId w,
        ws_idempotencyKey = wi_idempotencyKey w, ws_requestDigest = wi_requestDigest w,
        ws_templateId = wi_templateId w, ws_templateName = ts_name snapshot, ws_templateVersion = ts_version snapshot,
        ws_templateDigest = ts_digest snapshot, ws_templateSnapshot = snapshot, ws_state = Queued,
        ws_reasonCode = None, ws_agentState = AgentUnknown,
        ws_networkState = (if sp_networkMode (ts_spec snapshot) = ''restricted'' then ''starting'' else ''disabled''),
        ws_networkEventSeq = 0, ws_changeSeq = 1, ws_failureLogTail = None, ws_failureLogTailTruncated = False,
        ws_failureLastLogSeq = None, ws_terminalIntent = None, ws_launchInput = wi_launchInput w,
        ws_providerKind = None, ws_providerRef = None, ws_provisioningMode = None, ws_registrationDigest = None,
        ws_registrationExpiresAt = None, ws_reconnectDigest = None, ws_connectionEpoch = 0, ws_connectedAt = None,
        ws_disconnectedAt = None, ws_readyAt = None, ws_lastActivityAt = None, ws_launchAttempts = 0,
        ws_health = [], ws_metadata = wi_metadata w, ws_deadlineAt = wi_deadlineAt w, ws_createdAt = wi_createdAt w,
        ws_updatedAt = wi_createdAt w, ws_terminalAt = None, ws_purgeRequestedAt = None,
        ws_originWorkspaceId = wi_originWorkspaceId w,
        ws_restoredFromCheckpointId = wi_restoredFromCheckpointId w,
        ws_sourceDescriptor = wi_sourceDescriptor w, ws_resolvedSource = wi_resolvedSource w,
        ws_persistenceCapability = or_else (wi_persistenceCapability w) ''filesystem_only'',
        ws_latestCheckpointId = wi_latestCheckpointId w,
        ws_launchMode = or_else (wi_launchMode w) ''create'',
        ws_outputs = or_else (wi_outputs w) (JObj []) \<rparr>)"

definition insert_conflict :: "store \<Rightarrow> workspace_insert \<Rightarrow> insert_result option" where
  "insert_conflict d w =
     (case List.find (\<lambda>r. ws_principalId r = wi_principalId w \<and> ws_idempotencyKey r = wi_idempotencyKey w) (workspaces d) of
        Some key \<Rightarrow> Some (if ws_requestDigest key = wi_requestDigest w then Replayed key else IdempotencyConflict key)
      | None \<Rightarrow>
          map_option ExternalIdConflict
            (List.find (\<lambda>r. ws_principalId r = wi_principalId w \<and> ws_externalId r = wi_externalId w
                            \<and> \<not> isTerminal (ws_state r)) (workspaces d)))"

definition countQueued :: "store \<Rightarrow> nat" where
  "countQueued d = length (filter (\<lambda>r. ws_state r = Queued) (workspaces d))"

definition insertWorkspace ::
  "uuids \<Rightarrow> store \<Rightarrow> workspace_insert \<Rightarrow> nat option \<Rightarrow> js_error + (insert_result \<times> store)" where
  "insertWorkspace u d w maxQueued =
     (case insert_conflict d w of
        Some existing \<Rightarrow> Inr (existing, d)
      | None \<Rightarrow>
          if (case maxQueued of None \<Rightarrow> False | Some m \<Rightarrow> m \<le> countQueued d) then Inr (CapacityExceeded, d)
          else
            let row = new_workspace w in
            bindE (guardE (wi_id w \<in> ws_id ` set (workspaces d)) (DbError ''workspaces_pkey'')) (\<lambda>_.
            bindE (appendTransition u row None None (wi_createdAt w)
                     (d\<lparr>workspaces := workspaces d @ [row]\<rparr>)) (\<lambda>d'.
            Inr (Created row, d'))))"

definition getWorkspace :: "store \<Rightarrow> ident \<Rightarrow> workspace_row option" where
  "getWorkspace d i = row_by ws_id i (workspaces d)"

definition getWorkspaceByIdempotency :: "store \<Rightarrow> ident \<Rightarrow> string \<Rightarrow> workspace_row option" where
  "getWorkspaceByIdempotency d p key =
     List.find (\<lambda>r. ws_principalId r = p \<and> ws_idempotencyKey r = key) (workspaces d)"

record list_filter =
  lf_externalId :: "string option"
  lf_state :: "workspace_state option"
  lf_template :: "string option"
  lf_metadata :: "(string \<times> string) list option"
  lf_createdAfter :: "time option"
  lf_createdBefore :: "time option"
  lf_limit :: nat
  lf_cursor :: "ident option"

text \<open>Newest first, ties by descending id; a cursor that names no workspace of the principal compares
  with \<open>NULL\<close> and returns nothing.\<close>

definition page_before :: "workspace_row \<Rightarrow> workspace_row \<Rightarrow> bool" where
  "page_before r c \<longleftrightarrow> ws_createdAt r < ws_createdAt c \<or> (ws_createdAt r = ws_createdAt c \<and> ws_id r < ws_id c)"

definition list_matches :: "ident \<Rightarrow> list_filter \<Rightarrow> store \<Rightarrow> workspace_row \<Rightarrow> bool" where
  "list_matches p f d r \<longleftrightarrow>
     ws_principalId r = p
     \<and> (case lf_externalId f of None \<Rightarrow> True | Some e \<Rightarrow> e = '''' \<or> ws_externalId r = e)
     \<and> (case lf_state f of None \<Rightarrow> True | Some s \<Rightarrow> ws_state r = s)
     \<and> (case lf_template f of None \<Rightarrow> True | Some t \<Rightarrow> t = '''' \<or> ws_templateName r = t)
     \<and> (case lf_metadata f of None \<Rightarrow> True
        | Some m \<Rightarrow> \<forall>kv \<in> set m. map_of (ws_metadata r) (fst kv) = Some (snd kv))
     \<and> (case lf_createdAfter f of None \<Rightarrow> True | Some t \<Rightarrow> t \<le> ws_createdAt r)
     \<and> (case lf_createdBefore f of None \<Rightarrow> True | Some t \<Rightarrow> ws_createdAt r < t)
     \<and> (case lf_cursor f of None \<Rightarrow> True
        | Some c \<Rightarrow> c = '''' \<or> (case List.find (\<lambda>x. ws_id x = c \<and> ws_principalId x = p) (workspaces d) of
                               None \<Rightarrow> False | Some cur \<Rightarrow> page_before r cur))"

definition listWorkspaces :: "store \<Rightarrow> ident \<Rightarrow> list_filter \<Rightarrow> workspace_row list" where
  "listWorkspaces d p f =
     take (lf_limit f) (rev (sort_key ws_createdAt (sort_key ws_id (filter (list_matches p f d) (workspaces d)))))"

definition listNonterminal :: "store \<Rightarrow> workspace_row list" where
  "listNonterminal d = filter (\<lambda>r. \<not> isTerminal (ws_state r)) (workspaces d)"

section \<open>Admission\<close>

definition ACTIVE_STATES :: "workspace_state list" where
  "ACTIVE_STATES = [Provisioning, Connected, Ready, Preserving, Terminating]"

definition is_active :: "workspace_row \<Rightarrow> bool" where
  "is_active r \<longleftrightarrow> ws_state r \<in> set ACTIVE_STATES"

record active_counts =
  ac_global :: nat
  ac_byPrincipal :: "(ident \<times> nat) list"
  ac_byTemplate :: "(string \<times> nat) list"

text \<open>\<open>counts[key] = (counts[key] ?? 0) + n\<close> on a record, as an association list.\<close>

definition bump :: "'k \<Rightarrow> nat \<Rightarrow> ('k \<times> nat) list \<Rightarrow> ('k \<times> nat) list" where
  "bump k n m = (if k \<in> fst ` set m then map (\<lambda>p. if fst p = k then (k, snd p + n) else p) m else m @ [(k, n)])"

definition count_for :: "('k \<times> nat) list \<Rightarrow> 'k \<Rightarrow> nat" where
  "count_for m k = or_else (map_of m k) 0"

text \<open>\<open>GROUP BY principal_id, template_name\<close> with its counts, then the loop that sums the groups.\<close>

definition active_groups :: "store \<Rightarrow> ((ident \<times> string) \<times> nat) list" where
  "active_groups d =
     (let act = map (\<lambda>r. (ws_principalId r, ws_templateName r)) (filter is_active (workspaces d))
      in map (\<lambda>g. (g, count_list act g)) (dedup act))"

definition add_group :: "active_counts \<Rightarrow> (ident \<times> string) \<times> nat \<Rightarrow> active_counts" where
  "add_group c g = \<lparr> ac_global = ac_global c + snd g,
     ac_byPrincipal = bump (fst (fst g)) (snd g) (ac_byPrincipal c),
     ac_byTemplate = bump (snd (fst g)) (snd g) (ac_byTemplate c) \<rparr>"

definition no_counts :: active_counts where
  "no_counts = \<lparr> ac_global = 0, ac_byPrincipal = [], ac_byTemplate = [] \<rparr>"

definition countActive :: "store \<Rightarrow> active_counts" where
  "countActive d = foldl add_group no_counts (active_groups d)"

definition setQueuedAdmissionReason :: "store \<Rightarrow> ident \<Rightarrow> reason_code option \<Rightarrow> time \<Rightarrow> store" where
  "setQueuedAdmissionReason d i reason at =
     (case row_by ws_id i (workspaces d) of
        None \<Rightarrow> d
      | Some current \<Rightarrow>
          if ws_state current \<noteq> Queued \<or> ws_purgeRequestedAt current \<noteq> None \<or> ws_reasonCode current = reason then d
          else d\<lparr>workspaces := set_row ws_id i
                 (\<lambda>r. r\<lparr>ws_reasonCode := reason, ws_updatedAt := at, ws_changeSeq := ws_changeSeq r + 1\<rparr>) (workspaces d)\<rparr>)"

record capacity_limits =
  cl_global :: nat
  cl_perPrincipal :: nat
  cl_perTemplate :: "(string \<times> nat) list"

record admission_claim =
  cm_workspaceId :: ident
  cm_at :: time
  cm_registrationDigest :: bytes
  cm_registrationExpiresAt :: time
  cm_limits :: capacity_limits

definition template_limit :: "capacity_limits \<Rightarrow> string \<Rightarrow> nat" where
  "template_limit l t = or_else (map_of (cl_perTemplate l) t) (cl_global l)"

definition claimed_row :: "admission_claim \<Rightarrow> workspace_row \<Rightarrow> workspace_row" where
  "claimed_row claim r = r\<lparr>ws_state := Provisioning, ws_reasonCode := None, ws_updatedAt := cm_at claim,
     ws_changeSeq := ws_changeSeq r + 1, ws_provisioningMode := Some ''cold'',
     ws_registrationDigest := Some (cm_registrationDigest claim),
     ws_registrationExpiresAt := Some (cm_registrationExpiresAt claim),
     ws_launchAttempts := ws_launchAttempts r + 1\<rparr>"

definition claimWorkspaceAdmission ::
  "uuids \<Rightarrow> store \<Rightarrow> admission_claim \<Rightarrow> js_error + (workspace_row option \<times> store)" where
  "claimWorkspaceAdmission u d claim =
     (case row_by ws_id (cm_workspaceId claim) (workspaces d) of
        None \<Rightarrow> Inr (None, d)
      | Some current \<Rightarrow>
          if ws_state current \<noteq> Queued \<or> ws_purgeRequestedAt current \<noteq> None then Inr (None, d)
          else
            let counts = countActive d; limits = cm_limits claim in
            if cl_global limits \<le> ac_global counts then Inr (None, d)
            else if cl_perPrincipal limits \<le> count_for (ac_byPrincipal counts) (ws_principalId current) then Inr (None, d)
            else if template_limit limits (ws_templateName current)
                      \<le> count_for (ac_byTemplate counts) (ws_templateName current) then Inr (None, d)
            else
              let row = claimed_row claim current;
                  d1 = d\<lparr>workspaces := set_row ws_id (ws_id current) (\<lambda>_. row) (workspaces d)\<rparr>
              in bindE (appendTransition u row (Some Queued) (ws_reasonCode row) (cm_at claim) d1) (\<lambda>d2.
                 Inr (Some row, d2)))"

text \<open>Each principal's oldest queued workspace, oldest first, and how many are queued in all.\<close>

definition queue_heads :: "store \<Rightarrow> workspace_row list" where
  "queue_heads d =
     (let queued = sort_key ws_createdAt (sort_key ws_id (filter (\<lambda>r. ws_state r = Queued) (workspaces d)));
          heads = map (\<lambda>p. hd (filter (\<lambda>r. ws_principalId r = p) queued)) (dedup (map ws_principalId queued))
      in sort_key ws_createdAt (sort_key ws_id heads))"

record admission_snapshot =
  as_counts :: active_counts
  as_queued :: "workspace_row list"
  as_queuedCount :: nat

definition readAdmissionSnapshot :: "store \<Rightarrow> admission_snapshot" where
  "readAdmissionSnapshot d = \<lparr> as_counts = countActive d, as_queued = queue_heads d, as_queuedCount = countQueued d \<rparr>"

section \<open>Warm runtimes\<close>

record warm_patch =
  wp_state :: "warm_state option"
  wp_providerRef :: "json option option"
  wp_enrollmentDigest :: "bytes option option"
  wp_enrollmentExpiresAt :: "time option option"
  wp_workspaceId :: "ident option option"
  wp_readyAt :: "time option option"
  wp_leasedAt :: "time option option"
  wp_failureCode :: "string option option"

definition getWarmPoolRuntime :: "store \<Rightarrow> ident \<Rightarrow> warm_runtime_row option" where
  "getWarmPoolRuntime d i = row_by wr_id i (runtimes d)"

definition insertWarmPoolRuntime :: "store \<Rightarrow> warm_runtime_row \<Rightarrow> warm_runtime_row \<times> store" where
  "insertWarmPoolRuntime d input =
     (case getWarmPoolRuntime d (wr_id input) of
        Some row \<Rightarrow> (row, d)
      | None \<Rightarrow> (input, d\<lparr>runtimes := runtimes d @ [input]\<rparr>))"

definition listWarmPoolRuntimes :: "store \<Rightarrow> warm_runtime_row list" where
  "listWarmPoolRuntimes d = sort_key wr_createdAt (runtimes d)"

definition updateWarmPoolRuntime :: "store \<Rightarrow> ident \<Rightarrow> warm_patch \<Rightarrow> time \<Rightarrow> store" where
  "updateWarmPoolRuntime d i p at =
     d\<lparr>runtimes := set_row wr_id i (\<lambda>r. r\<lparr>
        wr_state := or_else (wp_state p) (wr_state r),
        wr_providerRef := or_else (wp_providerRef p) (wr_providerRef r),
        wr_enrollmentDigest := or_else (wp_enrollmentDigest p) (wr_enrollmentDigest r),
        wr_enrollmentExpiresAt := or_else (wp_enrollmentExpiresAt p) (wr_enrollmentExpiresAt r),
        wr_workspaceId := or_else (wp_workspaceId p) (wr_workspaceId r),
        wr_readyAt := or_else (wp_readyAt p) (wr_readyAt r),
        wr_leasedAt := or_else (wp_leasedAt p) (wr_leasedAt r),
        wr_failureCode := or_else (wp_failureCode p) (wr_failureCode r),
        wr_updatedAt := (if (wp_state p = None \<or> wp_state p = Some WDraining) \<and> wr_state r = WDraining
                         then wr_updatedAt r else at)\<rparr>) (runtimes d)\<rparr>"

record warm_claim =
  wk_workspace :: workspace_row
  wk_driverKind :: string
  wk_eligibilityFingerprint :: string
  wk_registrationDigest :: bytes
  wk_registrationExpiresAt :: time
  wk_at :: time

datatype warm_claim_result = ClaimNone | ClaimStale | ClaimLeased warm_runtime_row workspace_row

text \<open>The candidate is the ready runtime that has waited longest; \<open>NULL\<close> sorts last.\<close>

definition warm_order :: "warm_runtime_row \<Rightarrow> nat \<times> time" where
  "warm_order r = (case wr_readyAt r of None \<Rightarrow> (1, 0) | Some t \<Rightarrow> (0, t))"

definition warm_older :: "warm_runtime_row \<Rightarrow> warm_runtime_row \<Rightarrow> bool" where
  "warm_older a b \<longleftrightarrow> fst (warm_order a) < fst (warm_order b)
     \<or> (fst (warm_order a) = fst (warm_order b) \<and> snd (warm_order a) \<le> snd (warm_order b))"

fun oldest :: "warm_runtime_row list \<Rightarrow> warm_runtime_row option" where
  "oldest [] = None"
| "oldest (r # rs) = (case oldest rs of None \<Rightarrow> Some r | Some o' \<Rightarrow> Some (if warm_older r o' then r else o'))"

definition warm_candidate :: "store \<Rightarrow> warm_claim \<Rightarrow> workspace_row \<Rightarrow> warm_runtime_row option" where
  "warm_candidate d claim locked =
     oldest (filter (\<lambda>r. wr_templateDigest r = ws_templateDigest locked \<and> wr_driverKind r = wk_driverKind claim
        \<and> wr_eligibilityFingerprint r = wk_eligibilityFingerprint claim \<and> wr_state r = WReady
        \<and> wr_providerRef r \<noteq> None) (runtimes d))"

definition leased_runtime :: "warm_claim \<Rightarrow> warm_runtime_row \<Rightarrow> warm_runtime_row" where
  "leased_runtime claim r = r\<lparr>wr_state := WLeased, wr_workspaceId := Some (ws_id (wk_workspace claim)),
     wr_leasedAt := Some (wk_at claim), wr_updatedAt := wk_at claim\<rparr>"

definition warm_row :: "warm_claim \<Rightarrow> warm_runtime_row \<Rightarrow> workspace_row \<Rightarrow> workspace_row" where
  "warm_row claim rt r = r\<lparr>ws_state := Provisioning, ws_reasonCode := None, ws_provisioningMode := Some ''warm'',
     ws_providerKind := Some (wr_driverKind rt), ws_providerRef := wr_providerRef rt,
     ws_registrationDigest := Some (wk_registrationDigest claim),
     ws_registrationExpiresAt := Some (wk_registrationExpiresAt claim),
     ws_launchAttempts := ws_launchAttempts r + 1, ws_updatedAt := wk_at claim, ws_changeSeq := ws_changeSeq r + 1\<rparr>"

text \<open>The payload is built from the caller's copy of the workspace, which the freshness guard ties to the
  stored row.\<close>

definition warm_payload :: "ident \<Rightarrow> warm_claim \<Rightarrow> json" where
  "warm_payload event claim =
     (let w = wk_workspace claim
      in buildEventEnvelope event (w\<lparr>ws_state := Provisioning, ws_reasonCode := None,
           ws_provisioningMode := Some ''warm'', ws_changeSeq := ws_changeSeq w + 1\<rparr>) (wk_at claim))"

definition claimWarmPoolRuntime ::
  "uuids \<Rightarrow> store \<Rightarrow> warm_claim \<Rightarrow> js_error + (warm_claim_result \<times> store)" where
  "claimWarmPoolRuntime u d claim =
     (let w = wk_workspace claim; at = wk_at claim in
      case row_by ws_id (ws_id w) (workspaces d) of
        None \<Rightarrow> Inr (ClaimNone, d)
      | Some locked \<Rightarrow>
          let eligible = (ws_state locked = Queued \<and> ws_purgeRequestedAt locked = None);
              fresh = (ws_changeSeq locked = ws_changeSeq w \<and> sortValue (ws_outputs locked) = sortValue (ws_outputs w))
          in if eligible \<and> \<not> fresh then Inr (ClaimStale, d)
             else if \<not> eligible then Inr (ClaimNone, d)
             else case warm_candidate d claim locked of
                    None \<Rightarrow> Inr (ClaimNone, d)
                  | Some rt \<Rightarrow>
                      if \<exists>r \<in> set (runtimes d). wr_id r \<noteq> wr_id rt \<and> wr_workspaceId r = Some (ws_id w)
                      then Inl (DbError ''warm_pool_workspace_once'')
                      else if u_history u \<in> h_id ` set (stateHistory d) then Inl (DbError ''workspace_state_history_pkey'')
                      else if u_event u \<in> ob_id ` set (eventOutbox d) then Inl (DbError ''event_outbox_pkey'')
                      else
                        let leased = leased_runtime claim rt; row = warm_row claim leased locked
                        in Inr (ClaimLeased leased row,
                             d\<lparr>runtimes := set_row wr_id (wr_id rt) (leased_runtime claim) (runtimes d),
                               workspaces := set_row ws_id (ws_id w) (\<lambda>_. row) (workspaces d),
                               stateHistory := stateHistory d @
                                 [\<lparr> h_id = u_history u, h_workspaceId = ws_id locked, h_fromState = Some Queued,
                                    h_toState = Provisioning, h_reasonCode = None, h_occurredAt = at \<rparr>],
                               eventOutbox := eventOutbox d @
                                 [\<lparr> ob_id = u_event u, ob_workspaceId = ws_id locked,
                                    ob_eventType = ''workspace.provisioning'', ob_payload = warm_payload (u_event u) claim,
                                    ob_occurredAt = at, ob_nextAttemptAt = at, ob_attemptCount = 0,
                                    ob_deliveredAt = None, ob_lastErrorCode = None \<rparr>]\<rparr>))"

section \<open>Runtimes and finite processes\<close>

definition set_workspace :: "ident \<Rightarrow> (workspace_row \<Rightarrow> workspace_row) \<Rightarrow> store \<Rightarrow> store" where
  "set_workspace i f d = d\<lparr>workspaces := set_row ws_id i f (workspaces d)\<rparr>"

definition same_json :: "json option \<Rightarrow> json \<Rightarrow> bool" where
  "same_json a b \<longleftrightarrow> (case a of None \<Rightarrow> canonicalJson JNull = canonicalJson b | Some j \<Rightarrow> canonicalJson j = canonicalJson b)"

definition same_registration :: "runtime_registration \<Rightarrow> runtime_registration \<Rightarrow> bool" where
  "same_registration a b \<longleftrightarrow>
     rr_incarnationId a = rr_incarnationId b \<and> rr_containerIdentity a = rr_containerIdentity b
     \<and> rr_profile a = rr_profile b \<and> map_option sortValue (rr_producer a) = map_option sortValue (rr_producer b)
     \<and> map_option sortValue (rr_template a) = map_option sortValue (rr_template b) \<and> rr_readyAt b = None \<and> rr_endedAt b = None"

definition bindWorkspaceRuntime :: "store \<Rightarrow> ident \<Rightarrow> runtime_registration \<Rightarrow> json \<Rightarrow> bool \<times> store" where
  "bindWorkspaceRuntime d i runtime providerRef =
     (case row_by ws_id i (workspaces d) of
        None \<Rightarrow> (False, d)
      | Some row \<Rightarrow>
          if ws_purgeRequestedAt row \<noteq> None \<or> isTerminal (ws_state row)
             \<or> \<not> same_json (ws_providerRef row) providerRef then (False, d)
          else if rr_template runtime \<noteq> None \<and> Option.bind (rr_template runtime) (own ''digest'') \<noteq> Some (JStr (ws_templateDigest row))
          then (False, d)
          else case ws_runtimeRegistration row of
                 Some existing \<Rightarrow> (rr_endedAt existing = None \<and> same_registration existing runtime, d)
               | None \<Rightarrow>
                   if ws_state row \<noteq> Provisioning then (False, d)
                   else (True, set_workspace i (\<lambda>r. r\<lparr>ws_runtimeRegistration := Some runtime\<rparr>) d))"

definition markWorkspaceRuntimeReady :: "store \<Rightarrow> ident \<Rightarrow> ident \<Rightarrow> nat \<Rightarrow> time \<Rightarrow> bool \<times> store" where
  "markWorkspaceRuntimeReady d i incarnationId epoch at =
     (case row_by ws_id i (workspaces d) of
        None \<Rightarrow> (False, d)
      | Some row \<Rightarrow>
          (case ws_runtimeRegistration row of
             None \<Rightarrow> (False, d)
           | Some runtime \<Rightarrow>
               if ws_purgeRequestedAt row \<noteq> None \<or> rr_incarnationId runtime \<noteq> incarnationId
                  \<or> rr_endedAt runtime \<noteq> None \<or> ws_connectionEpoch row \<noteq> epoch
                  \<or> ws_state row \<notin> {Connected, Ready} then (False, d)
               else (True, set_workspace i (\<lambda>r. r\<lparr>ws_runtimeRegistration :=
                       Some (runtime\<lparr>rr_readyAt := Some (or_else (rr_readyAt runtime) (toISOString at))\<rparr>)\<rparr>) d)))"

definition canRecord :: "finite_process_fact option \<Rightarrow> finite_process_fact \<Rightarrow> bool" where
  "canRecord previous nxt =
     (case previous of
        None \<Rightarrow> True
      | Some p \<Rightarrow>
          if canonicalJson (reference_json (ff_execution p)) \<noteq> canonicalJson (reference_json (ff_execution nxt))
             \<or> ff_fingerprint p \<noteq> ff_fingerprint nxt \<or> ff_claimedAt p \<noteq> ff_claimedAt nxt then False
          else if ff_phase p = PhExited \<or> ff_phase p = PhLost
          then canonicalJson (fact_json p) = canonicalJson (fact_json nxt)
          else if ff_phase p = PhRunning \<and> ff_phase nxt = PhClaimed then False
          else if ff_processGroupId p \<noteq> None
                  \<and> (ff_processGroupId p \<noteq> ff_processGroupId nxt \<or> ff_startedAt p \<noteq> ff_startedAt nxt) then False
          else True)"

definition acceptsProcessFact :: "execution_record option \<Rightarrow> finite_process_fact \<Rightarrow> bool" where
  "acceptsProcessFact record fct =
     (case record of
        None \<Rightarrow> False
      | Some r \<Rightarrow>
          if er_dispatchClaimedAt r = None \<or> ac_fingerprint (er_acceptance r) \<noteq> ff_fingerprint fct
             \<or> canonicalJson (reference_json (ac_execution (er_acceptance r))) \<noteq> canonicalJson (reference_json (ff_execution fct))
          then False
          else if executionSettled r
          then ((er_phase r = ExTerminal \<and> ff_phase fct = PhExited) \<or> (er_phase r = ExLost \<and> ff_phase fct = PhLost))
               \<and> canonicalJson (er_outcome r) = canonicalJson (fact_json fct)
          else True)"

fun observed_phase :: "process_phase \<Rightarrow> execution_phase" where
  "observed_phase PhClaimed = ExDispatching"
| "observed_phase PhRunning = ExRunning"
| "observed_phase PhExited = ExTerminal"
| "observed_phase PhLost = ExLost"

definition observedProcessExecution :: "execution_record option \<Rightarrow> finite_process_fact \<Rightarrow> execution_record option" where
  "observedProcessExecution record fct =
     map_option (\<lambda>r.
       let phase = observed_phase (ff_phase fct) in
       r\<lparr>er_phase := phase, er_outcome := fact_json fct,
         er_settledAt := (if phase = ExTerminal \<or> phase = ExLost
                          then (case er_settledAt r of Some s \<Rightarrow> Some s | None \<Rightarrow> ff_endedAt fct) else None)\<rparr>) record"

definition recordFiniteProcess ::
  "store \<Rightarrow> ident \<Rightarrow> nat \<Rightarrow> finite_process_fact \<Rightarrow> time \<Rightarrow> js_error + (bool \<times> store)" where
  "recordFiniteProcess d i epoch fct now =
     bindE (guardE (\<not> valid_fact fct) (PlainError ''ZodError'')) (\<lambda>_.
     case row_by ws_id i (workspaces d) of
       None \<Rightarrow> Inr (False, d)
     | Some row \<Rightarrow>
         (case ws_runtimeRegistration row of
            None \<Rightarrow> Inr (False, d)
          | Some runtime \<Rightarrow>
              if ws_purgeRequestedAt row \<noteq> None \<or> rr_endedAt runtime \<noteq> None
                 \<or> ws_state row \<notin> {Connected, Ready, Terminating} \<or> ws_connectionEpoch row \<noteq> epoch
                 \<or> rr_profile runtime \<noteq> ''finite-process'' \<or> xr_workspaceId (ff_execution fct) \<noteq> i
                 \<or> rr_incarnationId runtime \<noteq> xr_incarnationId (ff_execution fct)
                 \<or> \<not> canRecord (ws_finiteProcess row) fct then Inr (False, d)
              else if \<not> acceptsProcessFact (ws_processExecution row) fct then Inr (False, d)
              else Inr (True, set_workspace i (\<lambda>r. r\<lparr>
                     ws_processExecution := observedProcessExecution (ws_processExecution row) fct,
                     ws_finiteProcess := Some fct, ws_changeSeq := ws_changeSeq r + 1, ws_updatedAt := now\<rparr>) d)))"

definition ended_fact :: "time \<Rightarrow> finite_process_fact \<Rightarrow> finite_process_fact" where
  "ended_fact at f =
     (if ff_phase f \<noteq> PhExited \<and> ff_phase f \<noteq> PhLost
      then f\<lparr>ff_phase := PhLost, ff_endedAt := Some (toISOString at), ff_exitCode := None, ff_signal := None\<rparr>
      else f)"

text \<open>The executions of the incarnation that conversation requests of the workspace's principal own.\<close>

definition lose_request :: "ident \<Rightarrow> ident \<Rightarrow> time \<Rightarrow> execution_record \<Rightarrow> execution_record" where
  "lose_request i incarnationId at r =
     (if xr_workspaceId (ac_execution (er_acceptance r)) = i
         \<and> xr_incarnationId (ac_execution (er_acceptance r)) = incarnationId \<and> \<not> executionSettled r
      then r\<lparr>er_phase := ExLost, er_settledAt := Some (toISOString at)\<rparr> else r)"

definition lose_requests :: "ident \<Rightarrow> ident \<Rightarrow> ident \<Rightarrow> time \<Rightarrow> store \<Rightarrow> store" where
  "lose_requests principalId i incarnationId at d = d\<lparr>conversationRequests :=
     update_where (\<lambda>q. cq_principalId q = principalId)
       (\<lambda>q. q\<lparr>cq_execution := map_option (lose_request i incarnationId at) (cq_execution q)\<rparr>) (conversationRequests d)\<rparr>"

definition endWorkspaceRuntime :: "store \<Rightarrow> ident \<Rightarrow> ident \<Rightarrow> time \<Rightarrow> store" where
  "endWorkspaceRuntime d i incarnationId at =
     (case row_by ws_id i (workspaces d) of
        None \<Rightarrow> d
      | Some row \<Rightarrow>
          (case ws_runtimeRegistration row of
             None \<Rightarrow> d
           | Some runtime \<Rightarrow>
               if rr_incarnationId runtime \<noteq> incarnationId \<or> rr_endedAt runtime \<noteq> None then d
               else
                 let ended = map_option (ended_fact at) (ws_finiteProcess row) in
                 set_workspace i (\<lambda>r. r\<lparr>
                   ws_runtimeRegistration := Some (runtime\<lparr>rr_endedAt := Some (toISOString at)\<rparr>),
                   ws_processExecution := map_option (\<lambda>e. if executionSettled e then e
                      else e\<lparr>er_phase := ExLost, er_settledAt := Some (toISOString at),
                             er_outcome := nullable fact_json ended\<rparr>) (ws_processExecution row),
                   ws_finiteProcess := ended, ws_changeSeq := ws_changeSeq r + 1, ws_updatedAt := at\<rparr>)
                   (lose_requests (ws_principalId row) i incarnationId at d)))"

section \<open>Operations and the purge\<close>

definition mark_purge :: "store \<Rightarrow> operation_row \<Rightarrow> js_error + store" where
  "mark_purge d input =
     (case op_workspaceId input of
        None \<Rightarrow> Inr d
      | Some i \<Rightarrow>
          if (case row_by ws_id i (workspaces d) of None \<Rightarrow> False | Some w \<Rightarrow> ws_purgeRequestedAt w \<noteq> None)
             \<and> op_kind input \<noteq> OpPurge
          then Inl (ApiError ''operation.conflict'')
          else if op_kind input = OpPurge
          then Inr (set_workspace i (\<lambda>r. r\<lparr>ws_purgeRequestedAt :=
                 Some (or_else (ws_purgeRequestedAt r) (op_createdAt input))\<rparr>) d)
          else Inr d)"

definition mark_deleting :: "store \<Rightarrow> operation_row \<Rightarrow> store" where
  "mark_deleting d input =
     (case op_checkpointId input of
        None \<Rightarrow> d
      | Some c \<Rightarrow>
          if op_kind input = OpDelete
          then d\<lparr>checkpoints := update_where (\<lambda>r. cr_id r = c \<and> cr_principalId r = op_principalId input)
                  (\<lambda>r. r\<lparr>cr_state := CkDeleting, cr_updatedAt := op_createdAt input\<rparr>) (checkpoints d)\<rparr>
          else d)"

definition admitIntent :: "store \<Rightarrow> operation_row \<Rightarrow> js_error + store" where
  "admitIntent d input = bindE (mark_purge d input) (\<lambda>d1. Inr (mark_deleting d1 input))"

definition journalOperation :: "operation_row \<Rightarrow> store \<Rightarrow> store" where
  "journalOperation input d =
     d\<lparr>deletionJournal := journal_add
        ((case op_workspaceId input of
            Some w \<Rightarrow> if op_kind input = OpPurge then [WorkspacePurged (op_principalId input) w (op_createdAt input)] else []
          | None \<Rightarrow> [])
         @ (case op_checkpointId input of
              Some c \<Rightarrow> if op_kind input = OpDelete then [CheckpointDeleted (op_principalId input) c (op_createdAt input)] else []
            | None \<Rightarrow> [])) (deletionJournal d)\<rparr>"

definition countIncomplete :: "store \<Rightarrow> nat" where
  "countIncomplete d = length (filter (\<lambda>o'. op_state o' \<in> {OpPending, OpRunning}) (operations d))"

record operation_result =
  or_operation :: operation_row
  or_created :: bool
  or_conflict :: bool

definition insertOperation ::
  "store \<Rightarrow> operation_row \<Rightarrow> nat option \<Rightarrow> js_error + (operation_result \<times> store)" where
  "insertOperation d input maxIncomplete =
     (case List.find (\<lambda>o'. op_principalId o' = op_principalId input \<and> op_kind o' = op_kind input
                       \<and> op_idempotencyKey o' = op_idempotencyKey input) (operations d) of
        Some existing \<Rightarrow>
          Inr (\<lparr> or_operation = existing, or_created = False,
                 or_conflict = op_requestDigest existing \<noteq> op_requestDigest input \<rparr>, d)
      | None \<Rightarrow>
          bindE (admitIntent d input) (\<lambda>d1.
          bindE (guardE (case maxIncomplete of None \<Rightarrow> False | Some m \<Rightarrow> m \<le> countIncomplete d1)
                   (PlainError ''persistence operation capacity exceeded'')) (\<lambda>_.
          let d2 = journalOperation input d1
          in bindE (guardE (op_id input \<in> op_id ` set (operations d2)) (DbError ''workspace_operations_pkey'')) (\<lambda>_.
             Inr (\<lparr> or_operation = input, or_created = True, or_conflict = False \<rparr>,
                  d2\<lparr>operations := operations d2 @ [input]\<rparr>)))))"

definition listIncompleteOperations :: "store \<Rightarrow> operation_row list" where
  "listIncompleteOperations d =
     sort_key op_createdAt (filter (\<lambda>o'. op_state o' \<in> {OpPending, OpRunning}) (operations d))"

record operation_patch =
  oq_state :: "operation_state option"
  oq_checkpointId :: "ident option option"
  oq_resultWorkspaceId :: "ident option option"
  oq_reasonCode :: "string option option"
  oq_attemptCount :: "nat option"
  oq_completedAt :: "time option option"

definition updateOperation :: "store \<Rightarrow> ident \<Rightarrow> operation_patch \<Rightarrow> time \<Rightarrow> store" where
  "updateOperation d i p at =
     d\<lparr>operations := set_row op_id i (\<lambda>r. r\<lparr>
        op_state := or_else (oq_state p) (op_state r),
        op_checkpointId := or_else (oq_checkpointId p) (op_checkpointId r),
        op_resultWorkspaceId := or_else (oq_resultWorkspaceId p) (op_resultWorkspaceId r),
        op_reasonCode := or_else (oq_reasonCode p) (op_reasonCode r),
        op_attemptCount := or_else (oq_attemptCount p) (op_attemptCount r),
        op_completedAt := or_else (oq_completedAt p) (op_completedAt r),
        op_updatedAt := at\<rparr>) (operations d)\<rparr>"

definition checkpointUsage :: "store \<Rightarrow> ident option \<Rightarrow> nat \<times> int" where
  "checkpointUsage d p =
     (let rows = filter (\<lambda>c. cr_state c \<in> {CkReady, CkDeleting}
            \<and> (case p of None \<Rightarrow> True | Some i \<Rightarrow> cr_principalId c = i)) (checkpoints d)
      in (length rows, sum_list (map (\<lambda>c. or_else (cr_logicalBytes c) 0) rows)))"

section \<open>Checkpoints and storage rows\<close>

record checkpoint_patch =
  cq_state :: "checkpoint_state option"
  cq_reasonCode :: "string option option"
  cq_providerKind :: "string option"
  cq_providerRef :: "json option option"
  cq_manifest :: "json option option"
  cq_manifestDigest :: "string option option"
  cq_logicalBytes :: "int option option"
  cq_storedBytes :: "int option option"
  cq_fileCount :: "int option option"
  cq_conversationRestore :: "string option"
  cq_readyAt :: "time option option"
  cq_expiresAt :: "time option option"
  cq_deletedAt :: "time option option"

definition insertCheckpoint :: "store \<Rightarrow> checkpoint_row \<Rightarrow> checkpoint_row \<times> store" where
  "insertCheckpoint d input =
     (case row_by cr_id (cr_id input) (checkpoints d) of
        Some row \<Rightarrow> (row, d)
      | None \<Rightarrow> (input, d\<lparr>checkpoints := checkpoints d @ [input]\<rparr>))"

text \<open>The properties a ready checkpoint does not let change.\<close>

definition frozen_patch :: "checkpoint_patch \<Rightarrow> bool" where
  "frozen_patch p \<longleftrightarrow>
     cq_providerKind p \<noteq> None \<or> cq_providerRef p \<noteq> None \<or> cq_manifest p \<noteq> None \<or> cq_manifestDigest p \<noteq> None
     \<or> cq_logicalBytes p \<noteq> None \<or> cq_storedBytes p \<noteq> None \<or> cq_fileCount p \<noteq> None
     \<or> cq_conversationRestore p \<noteq> None \<or> cq_readyAt p \<noteq> None"

definition updateCheckpoint :: "store \<Rightarrow> ident \<Rightarrow> checkpoint_patch \<Rightarrow> time \<Rightarrow> js_error + store" where
  "updateCheckpoint d i p at =
     (case row_by cr_id i (checkpoints d) of
        None \<Rightarrow> Inr d
      | Some current \<Rightarrow>
          if cr_state current = CkReady \<and> frozen_patch p then Inl (PlainError ''ready checkpoints are immutable'')
          else Inr (d\<lparr>checkpoints := set_row cr_id i (\<lambda>r. r\<lparr>
             cr_state := or_else (cq_state p) (cr_state r),
             cr_reasonCode := or_else (cq_reasonCode p) (cr_reasonCode r),
             cr_providerKind := or_else (cq_providerKind p) (cr_providerKind r),
             cr_providerRef := or_else (cq_providerRef p) (cr_providerRef r),
             cr_manifest := or_else (cq_manifest p) (cr_manifest r),
             cr_manifestDigest := or_else (cq_manifestDigest p) (cr_manifestDigest r),
             cr_logicalBytes := or_else (cq_logicalBytes p) (cr_logicalBytes r),
             cr_storedBytes := or_else (cq_storedBytes p) (cr_storedBytes r),
             cr_fileCount := or_else (cq_fileCount p) (cr_fileCount r),
             cr_conversationRestore := or_else (cq_conversationRestore p) (cr_conversationRestore r),
             cr_readyAt := or_else (cq_readyAt p) (cr_readyAt r),
             cr_expiresAt := or_else (cq_expiresAt p) (cr_expiresAt r),
             cr_deletedAt := or_else (cq_deletedAt p) (cr_deletedAt r),
             cr_updatedAt := at\<rparr>) (checkpoints d)\<rparr>))"

definition listCheckpoints :: "store \<Rightarrow> ident \<Rightarrow> ident option \<Rightarrow> checkpoint_state option \<Rightarrow> checkpoint_row list" where
  "listCheckpoints d p workspaceId state =
     rev (sort_key cr_createdAt (rev (filter (\<lambda>c. cr_principalId c = p
        \<and> (case workspaceId of None \<Rightarrow> True | Some w \<Rightarrow> cr_workspaceId c = w)
        \<and> (case state of None \<Rightarrow> True | Some s \<Rightarrow> cr_state c = s)) (checkpoints d))))"

record storage_patch =
  sq_providerKind :: "string option"
  sq_providerRef :: "json option"
  sq_state :: "storage_state option"
  sq_logicalBytes :: "int option option"
  sq_fileCount :: "int option option"
  sq_retainedUntil :: "time option option"
  sq_deletedAt :: "time option option"
  sq_lastErrorCode :: "string option option"

text \<open>The newest storage row of a workspace that is still there.\<close>

definition live_storage :: "storage_row \<Rightarrow> bool" where
  "live_storage s \<longleftrightarrow> st_state s \<notin> {StDeleted, StLost, StQuarantined}"

definition getWorkspaceStorage :: "store \<Rightarrow> ident \<Rightarrow> storage_row option" where
  "getWorkspaceStorage d w =
     (case rev (sort_key st_createdAt (rev (filter (\<lambda>s. st_workspaceId s = w \<and> live_storage s) (storages d)))) of
        [] \<Rightarrow> None | s # _ \<Rightarrow> Some s)"

text \<open>The table allows one live storage row per workspace.\<close>

definition insertWorkspaceStorage :: "store \<Rightarrow> storage_row \<Rightarrow> js_error + (storage_row \<times> store)" where
  "insertWorkspaceStorage d input =
     (if st_id input \<in> st_id ` set (storages d)
         \<or> (live_storage input \<and> (\<exists>s \<in> set (storages d). st_workspaceId s = st_workspaceId input \<and> live_storage s))
      then (case getWorkspaceStorage d (st_workspaceId input) of
              None \<Rightarrow> Inl (PlainError ''workspace storage insert conflicted without a live row'')
            | Some existing \<Rightarrow> Inr (existing, d))
      else Inr (input, d\<lparr>storages := storages d @ [input]\<rparr>))"

definition updateWorkspaceStorage :: "store \<Rightarrow> ident \<Rightarrow> storage_patch \<Rightarrow> time \<Rightarrow> store" where
  "updateWorkspaceStorage d i p at =
     d\<lparr>storages := set_row st_id i (\<lambda>s. s\<lparr>
        st_providerKind := or_else (sq_providerKind p) (st_providerKind s),
        st_providerRef := or_else (sq_providerRef p) (st_providerRef s),
        st_state := or_else (sq_state p) (st_state s),
        st_logicalBytes := or_else (sq_logicalBytes p) (st_logicalBytes s),
        st_fileCount := or_else (sq_fileCount p) (st_fileCount s),
        st_retainedUntil := or_else (sq_retainedUntil p) (st_retainedUntil s),
        st_deletedAt := or_else (sq_deletedAt p) (st_deletedAt s),
        st_lastErrorCode := or_else (sq_lastErrorCode p) (st_lastErrorCode s),
        st_updatedAt := at\<rparr>) (storages d)\<rparr>"

section \<open>The outbox\<close>

definition CLAIM_LEASE_MS :: int where
  "CLAIM_LEASE_MS = 60000"

definition due_events :: "store \<Rightarrow> time \<Rightarrow> nat \<Rightarrow> ident list" where
  "due_events d now limit =
     map ob_id (take limit (sort_key ob_occurredAt
       (filter (\<lambda>e. ob_deliveredAt e = None \<and> ob_nextAttemptAt e \<le> now) (eventOutbox d))))"

definition claimDueEvents :: "store \<Rightarrow> time \<Rightarrow> nat \<Rightarrow> outbox_row list \<times> store" where
  "claimDueEvents d now limit =
     (let due = due_events d now limit;
          rows = update_where (\<lambda>e. ob_id e \<in> set due) (\<lambda>e. e\<lparr>ob_nextAttemptAt := now + CLAIM_LEASE_MS\<rparr>) (eventOutbox d)
      in (sort_key ob_occurredAt (filter (\<lambda>e. ob_id e \<in> set due) rows), d\<lparr>eventOutbox := rows\<rparr>))"

definition markEventDelivered :: "store \<Rightarrow> ident \<Rightarrow> time \<Rightarrow> store" where
  "markEventDelivered d i at =
     d\<lparr>eventOutbox := set_row ob_id i (\<lambda>e. e\<lparr>ob_deliveredAt := Some at, ob_attemptCount := ob_attemptCount e + 1\<rparr>) (eventOutbox d)\<rparr>"

definition markEventFailed :: "store \<Rightarrow> ident \<Rightarrow> string \<Rightarrow> time \<Rightarrow> store" where
  "markEventFailed d i errorCode nextAttemptAt =
     d\<lparr>eventOutbox := set_row ob_id i (\<lambda>e. e\<lparr>ob_attemptCount := ob_attemptCount e + 1,
         ob_lastErrorCode := Some errorCode, ob_nextAttemptAt := nextAttemptAt\<rparr>) (eventOutbox d)\<rparr>"

definition contentWritable :: "store \<Rightarrow> ident \<Rightarrow> bool" where
  "contentWritable d i = (case row_by ws_id i (workspaces d) of None \<Rightarrow> True | Some w \<Rightarrow> ws_purgeRequestedAt w = None)"

definition appendEvent :: "ident \<Rightarrow> store \<Rightarrow> ident \<Rightarrow> string \<Rightarrow> json \<Rightarrow> time \<Rightarrow> js_error + store" where
  "appendEvent uuid d workspaceId eventType payload at =
     (if \<not> contentWritable d workspaceId then Inr d
      else if uuid \<in> ob_id ` set (eventOutbox d) then Inl (DbError ''event_outbox_pkey'')
      else Inr (d\<lparr>eventOutbox := eventOutbox d @
        [\<lparr> ob_id = uuid, ob_workspaceId = workspaceId, ob_eventType = eventType, ob_payload = payload,
           ob_occurredAt = at, ob_nextAttemptAt = at, ob_attemptCount = 0, ob_deliveredAt = None,
           ob_lastErrorCode = None \<rparr>]\<rparr>))"

end
