(* ===== verification/Json_Text.thy ===== *)
theory Json_Text
  imports Json
begin

text \<open>
  The canonical text of a document determines the document
  (\<^verbatim>\<open>packages/contracts/src/common/canonical.ts\<close>): what \<open>JSON.stringify\<close> prints of a value can be read
  back in one way only, so that comparing canonical texts, as the stores do to compare references, outcomes
  and manifests, compares the documents up to the order of their properties, and two documents share a digest
  only if they agree in that sense or SHA-256 collides.
\<close>

section \<open>Quoted strings\<close>

text \<open>On character codes: the first two characters of an escape tell which escape it is; every other
  character stands for itself and is neither a quotation mark nor a backslash.\<close>

definition hex_code :: "nat \<Rightarrow> nat" where
  "hex_code n = (if n < 10 then 48 + n else 87 + n)"

definition esc_code :: "nat \<Rightarrow> nat list" where
  "esc_code n =
     (if n = 34 then [92, 34] else if n = 92 then [92, 92] else if n = 8 then [92, 98] else if n = 12 then [92, 102]
      else if n = 10 then [92, 110] else if n = 13 then [92, 114] else if n = 9 then [92, 116]
      else if n < 32 then [92, 117, 48, 48, hex_code (n div 16), hex_code (n mod 16)] else [n])"

lemma hex_digit_code: "n < 16 \<Longrightarrow> (of_char (hex_digit n) :: nat) = hex_code n"
  by (simp add: hex_digit_def hex_code_def take_bit_nat_def)

lemma escape_char_code: "map (of_char :: char \<Rightarrow> nat) (escape_char c) = esc_code (of_char c)"
  unfolding escape_char_def esc_code_def Let_def by (auto simp: hex_digit_code)

definition hex_value :: "nat \<Rightarrow> nat" where
  "hex_value n = (if n < 58 then n - 48 else n - 87)"

lemma hex_value_code: "hex_value (hex_code n) = n"
  by (simp add: hex_value_def hex_code_def)

text \<open>Reading one escape back.\<close>

definition unescape :: "nat list \<Rightarrow> nat \<times> nat list" where
  "unescape xs =
     (case xs of x # y # zs \<Rightarrow>
        if x \<noteq> 92 then (x, y # zs)
        else if y = 98 then (8, zs) else if y = 102 then (12, zs) else if y = 110 then (10, zs)
        else if y = 114 then (13, zs) else if y = 116 then (9, zs)
        else if y = 117 then (16 * hex_value (zs ! 2) + hex_value (zs ! 3), drop 4 zs)
        else (y, zs)
      | _ \<Rightarrow> (hd xs, tl xs))"

lemma unescape_code: "unescape (esc_code n @ u) = (n, u)"
proof -
  have plain: "unescape (m # u) = (m, u)" if "m \<noteq> 92" for m
    using that by (cases u) (simp_all add: unescape_def)
  have short: "unescape (92 # y # u) = (y, u)" if "y = 34 \<or> y = 92" for y
    using that by (auto simp: unescape_def)
  have "unescape (92 # 117 # 48 # 48 # hex_code (n div 16) # hex_code (n mod 16) # u) = (n, u)"
    by (simp add: unescape_def hex_value_code)
  then show ?thesis
    by (simp add: esc_code_def plain short) (simp add: unescape_def)
qed

lemma esc_code_prefix: "esc_code a @ u = esc_code b @ v \<Longrightarrow> a = b \<and> u = v"
  by (metis unescape_code prod.inject)

lemma map_of_char_inj: "map (of_char :: char \<Rightarrow> nat) xs = map of_char ys \<Longrightarrow> xs = ys"
  by (rule map_injective) (auto intro: injI)

lemma escape_char_prefix:
  assumes "escape_char a @ u = escape_char b @ v"
  shows "a = b \<and> u = v"
proof -
  have "esc_code (of_char a) @ map of_char u = esc_code (of_char b) @ map of_char v"
    using arg_cong [OF assms, of "map (of_char :: char \<Rightarrow> nat)"] by (simp add: escape_char_code)
  from esc_code_prefix [OF this] have "(of_char a :: nat) = of_char b" "map (of_char :: char \<Rightarrow> nat) u = map of_char v" by simp_all
  then show ?thesis using map_of_char_inj by simp
qed

lemma escape_char_start: obtains e es where "escape_char c = e # es" and "e \<noteq> CHR 0x22"
proof (cases "escape_char c")
  case Nil
  then have "esc_code (of_char c) = []" using escape_char_code [of c] by simp
  then show ?thesis by (simp add: esc_code_def split: if_splits)
next
  case (Cons e es)
  then have "hd (esc_code (of_char c)) = of_char e" using escape_char_code [of c] by (metis list.sel(1) list.simps(9))
  moreover have "hd (esc_code n) \<noteq> 34" for n by (simp add: esc_code_def)
  ultimately have "(of_char e :: nat) \<noteq> 34" by metis
  then have "e \<noteq> CHR 0x22" by auto
  then show ?thesis by (rule that [OF Cons])
qed

lemma escapes_prefix:
  "concat (map escape_char a) @ CHR 0x22 # u = concat (map escape_char b) @ CHR 0x22 # v \<Longrightarrow> a = b \<and> u = v"
proof (induction a b rule: list_induct2')
  case (2 x xs)
  obtain e es where "escape_char x = e # es" "e \<noteq> CHR 0x22" by (rule escape_char_start)
  then show ?case using 2 by simp
next
  case (3 y ys)
  obtain e es where "escape_char y = e # es" "e \<noteq> CHR 0x22" by (rule escape_char_start)
  then show ?case using 3 by simp
next
  case (4 x xs y ys)
  then have "escape_char x @ concat (map escape_char xs) @ CHR 0x22 # u = escape_char y @ concat (map escape_char ys) @ CHR 0x22 # v"
    by simp
  from escape_char_prefix [OF this] have e: "x = y" "concat (map escape_char xs) @ CHR 0x22 # u = concat (map escape_char ys) @ CHR 0x22 # v"
    by simp_all
  show ?case using 4(1) [OF e(2)] e(1) by simp
qed simp

lemma quote_prefix:
  assumes "quote a @ u = quote b @ v"
  shows "a = b \<and> u = v"
proof (rule escapes_prefix)
  have "char_of (34::nat) = CHR 0x22" by code_simp
  then show "concat (map escape_char a) @ CHR 0x22 # u = concat (map escape_char b) @ CHR 0x22 # v"
    using assms by (simp add: quote_def)
qed

section \<open>Numbers and lists of elements\<close>

text \<open>What may follow a printed value inside a document.\<close>

definition delimited :: "string \<Rightarrow> bool" where
  "delimited r \<longleftrightarrow> r = [] \<or> hd r \<in> {CHR '','', CHR '']'', CHR ''}''}"

lemma delimited_simps [simp]: "delimited (CHR '','' # r)" "delimited (CHR '']'' # r)" "delimited (CHR ''}'' # r)" "delimited []"
  by (simp_all add: delimited_def)

lemma delimited_no_digit: "delimited r \<Longrightarrow> takeWhile is_digit r = []"
  by (cases r) (auto simp: delimited_def is_digit_def)

lemma decimal_takeWhile: "delimited r \<Longrightarrow> takeWhile is_digit (decimal n @ r) = decimal n"
  using decimal_digits [of n] delimited_no_digit [of r] by (simp add: takeWhile_append2 list_all_iff)

lemma decimal_prefix:
  assumes "decimal n @ r = decimal m @ r'" and "delimited r" and "delimited r'"
  shows "n = m \<and> r = r'"
proof -
  have "decimal n = decimal m" using arg_cong [OF assms(1), of "takeWhile is_digit"] assms(2,3) by (simp only: decimal_takeWhile)
  then have "n = m" using decimal_digits [of n] decimal_digits [of m] by metis
  then show ?thesis using assms(1) by simp
qed

lemma decimal_start: obtains c cs where "decimal n = c # cs" and "is_digit c"
  using decimal_digits [of n] by (cases "decimal n") auto

lemma show_int_start:
  "0 \<le> n \<Longrightarrow> \<exists>c cs. show_int n @ r = c # cs \<and> is_digit c"
  "n < 0 \<Longrightarrow> show_int n @ r = CHR ''-'' # decimal (nat (- n)) @ r"
  by (rule decimal_start [of "nat n"]) (simp_all add: show_int_def)

lemma show_int_prefix:
  assumes "show_int n @ r = show_int m @ r'" and "delimited r" and "delimited r'"
  shows "n = m \<and> r = r'"
proof -
  have dash: "\<not> is_digit (CHR ''-'')" by (simp add: is_digit_def)
  consider "0 \<le> n" "0 \<le> m" | "n < 0" "m < 0" | "n < 0 \<longleftrightarrow> 0 \<le> m" by linarith
  then show ?thesis
  proof cases
    case 1
    then have "decimal (nat n) @ r = decimal (nat m) @ r'" using assms(1) by (simp add: show_int_def)
    from decimal_prefix [OF this assms(2,3)] show ?thesis using 1 by (simp add: eq_nat_nat_iff)
  next
    case 2
    then have "decimal (nat (- n)) @ r = decimal (nat (- m)) @ r'" using assms(1) by (simp add: show_int_def)
    from decimal_prefix [OF this assms(2,3)] show ?thesis using 2 by (simp add: eq_nat_nat_iff)
  next
    case 3
    then show ?thesis using assms(1) show_int_start [of n r] show_int_start [of m r'] dash
      by (cases "n < 0") (metis list.inject not_le)+
  qed
qed

lemma join_cons: "xs \<noteq> [] \<Longrightarrow> join_with sep (x # xs) = x @ sep @ join_with sep xs"
  by (cases xs) simp_all

text \<open>A list of printed elements between its separators and its closing bracket is read back in one way.\<close>

lemma join_prefix:
  assumes elem: "\<And>a b r r'. a \<in> set as \<Longrightarrow> b \<in> set bs \<Longrightarrow> delimited r \<Longrightarrow> delimited r' \<Longrightarrow> f a @ r = f b @ r' \<Longrightarrow> a = b \<and> r = r'"
    and start: "\<And>a. a \<in> set as \<union> set bs \<Longrightarrow> \<exists>c cs. f a = c # cs \<and> c \<noteq> close"
    and close: "close = CHR '']'' \<or> close = CHR ''}''"
    and eq: "join_with '','' (map f as) @ close # r = join_with '','' (map f bs) @ close # r'"
  shows "as = bs \<and> r = r'"
  using elem start eq
proof (induction as arbitrary: bs)
  case Nil
  show ?case
  proof (cases bs)
    case (Cons b cs)
    obtain x xs where "f b = x # xs" "x \<noteq> close" using Nil(2) [of b] Cons by auto
    then show ?thesis using Nil(3) Cons by (cases cs) auto
  qed (use Nil in simp)
next
  case (Cons a as)
  obtain x xs where x: "f a = x # xs" "x \<noteq> close" using Cons(3) [of a] by auto
  show ?case
  proof (cases bs)
    case Nil
    then show ?thesis using Cons(4) x by (cases as) auto
  next
    case (Cons b cs)
    let ?t = "\<lambda>zs q. (if zs = [] then close # q else CHR '','' # join_with '','' (map f zs) @ close # q)"
    have t: "join_with '','' (map f (z # zs)) @ close # q = f z @ ?t zs q" for z zs q
      by (simp add: join_cons)
    have d: "delimited (?t zs q)" for zs q using close by auto
    have "f a @ ?t as r = f b @ ?t cs r'" using Cons.prems(3) unfolding Cons t .
    then have ab: "a = b" "?t as r = ?t cs r'" using Cons.prems(1) [of a b "?t as r" "?t cs r'"] d Cons by auto
    have "(as = []) = (cs = [])" using ab(2) close by (auto split: if_splits)
    moreover have "as = cs \<and> r = r'" if "as \<noteq> []" "cs \<noteq> []"
    proof (rule Cons.IH)
      show "join_with '','' (map f as) @ close # r = join_with '','' (map f cs) @ close # r'" using ab(2) that by simp
      show "a = b \<and> r = r'" if "a \<in> set as" "b \<in> set cs" "delimited r" "delimited r'" "f a @ r = f b @ r'" for a b r r'
        using Cons.prems(1) [of a b r r'] that Cons by simp
      show "\<exists>c ds. f a = c # ds \<and> c \<noteq> close" if "a \<in> set as \<union> set cs" for a
        using Cons.prems(2) [of a] that Cons by auto
    qed
    ultimately show ?thesis using ab Cons by (cases "as = []") auto
  qed
qed

section \<open>Documents\<close>

text \<open>A document in which no value is \<open>undefined\<close>, and one in which no element of an array is.\<close>

fun printable :: "json \<Rightarrow> bool" where
  "printable JUndefined = False"
| "printable (JArr vs) = list_all printable vs"
| "printable (JObj ps) = list_all (\<lambda>p. printable (snd p)) ps"
| "printable v = True"

fun defined :: "json \<Rightarrow> bool" where
  "defined JUndefined = False"
| "defined (JArr vs) = list_all defined vs"
| "defined (JObj ps) = list_all (\<lambda>p. snd p = JUndefined \<or> defined (snd p)) ps"
| "defined v = True"

definition member_text :: "string \<times> json \<Rightarrow> string" where
  "member_text p = quote (fst p) @ '':'' @ stringify (snd p)"

lemma stringify_obj:
  assumes "printable (JObj ps)"
  shows "stringify (JObj ps) = ''{'' @ join_with '','' (map member_text ps) @ ''}''"
proof -
  have "filter (\<lambda>p. snd p \<noteq> JUndefined) ps = ps"
    using assms by (auto simp: list_all_iff filter_id_conv)
  moreover have "(\<lambda>(k, v). quote k @ '':'' @ stringify v) = member_text"
    by (auto simp: member_text_def fun_eq_iff)
  ultimately show ?thesis by simp
qed

text \<open>The first character tells the kind of a value.\<close>

fun kind_ok :: "json \<Rightarrow> char \<Rightarrow> bool" where
  "kind_ok JNull c = (c = CHR ''n'')"
| "kind_ok JUndefined c = (c = CHR ''n'')"
| "kind_ok (JBool b) c = (c = (if b then CHR ''t'' else CHR ''f''))"
| "kind_ok (JNum n) c = (c = CHR ''-'' \<or> is_digit c)"
| "kind_ok (JStr s) c = (c = CHR 0x22)"
| "kind_ok (JArr vs) c = (c = CHR ''['')"
| "kind_ok (JObj ps) c = (c = CHR ''{'')"

lemma quote_start: "\<exists>cs. quote s = CHR 0x22 # cs"
proof -
  have "char_of (34::nat) = CHR 0x22" by code_simp
  then show ?thesis by (simp add: quote_def)
qed

lemma stringify_start: "\<exists>c cs. stringify v = c # cs \<and> kind_ok v c"
proof (cases v)
  case (JNum n)
  then show ?thesis using show_int_start [of n "[]"] by (cases "n < 0") auto
next
  case (JStr s)
  then show ?thesis using quote_start [of s] by simp
qed simp_all

lemma kind_ok_bracket: "kind_ok v c \<Longrightarrow> c \<noteq> CHR '']'' \<and> c \<noteq> CHR ''}''"
  by (cases v) (auto simp: is_digit_def split: if_splits)

fun kind :: "json \<Rightarrow> nat" where
  "kind JNull = 0" | "kind JUndefined = 0" | "kind (JBool b) = (if b then 1 else 2)" | "kind (JNum n) = 3"
| "kind (JStr s) = 4" | "kind (JArr vs) = 5" | "kind (JObj ps) = 6"

lemma kind_ok_inj: "kind_ok v c \<Longrightarrow> kind_ok w c \<Longrightarrow> kind v = kind w"
  by (cases v; cases w) (auto simp: is_digit_def split: if_splits)

lemma stringify_kind: "stringify v @ r = stringify w @ r' \<Longrightarrow> kind v = kind w"
  using stringify_start [of v] stringify_start [of w] kind_ok_inj by (metis append_Cons list.inject)

lemma stringify_prefix:
  "printable v \<Longrightarrow> printable w \<Longrightarrow> delimited r \<Longrightarrow> delimited r' \<Longrightarrow> stringify v @ r = stringify w @ r' \<Longrightarrow> v = w \<and> r = r'"
proof (induction v arbitrary: w r r' rule: json.induct)
  case (JNum n)
  obtain m where w: "w = JNum m" using stringify_kind [OF JNum(5)] by (cases w) (auto split: if_splits)
  then have "show_int n @ r = show_int m @ r'" using JNum(5) by simp
  then show ?case using show_int_prefix JNum(3,4) w by blast
next
  case (JStr s)
  obtain t where w: "w = JStr t" using stringify_kind [OF JStr(5)] by (cases w) (auto split: if_splits)
  then show ?case using JStr(5) quote_prefix [of s r t r'] by simp
next
  case (JArr vs)
  obtain ws where w: "w = JArr ws" using stringify_kind [OF JArr(6)] by (cases w) (auto split: if_splits)
  have "vs = ws \<and> r = r'"
  proof (rule join_prefix)
    show "join_with '','' (map stringify vs) @ CHR '']'' # r = join_with '','' (map stringify ws) @ CHR '']'' # r'"
      using JArr(6) w by simp
    show "a = b \<and> q = q'" if "a \<in> set vs" "b \<in> set ws" "delimited q" "delimited q'" "stringify a @ q = stringify b @ q'" for a b q q'
      using JArr(1) [OF that(1) _ _ that(3,4,5)] JArr(2,3) that(1,2) w by (simp add: list_all_iff)
    show "\<exists>c cs. stringify a = c # cs \<and> c \<noteq> CHR '']''" for a
      using stringify_start [of a] kind_ok_bracket by blast
  qed simp
  then show ?case using w by simp
next
  case (JObj ps)
  obtain qs where w: "w = JObj qs" using stringify_kind [OF JObj(6)] by (cases w) (auto split: if_splits)
  have "ps = qs \<and> r = r'"
  proof (rule join_prefix)
    show "join_with '','' (map member_text ps) @ CHR ''}'' # r = join_with '','' (map member_text qs) @ CHR ''}'' # r'"
      using JObj(6) unfolding w stringify_obj [OF JObj(2)] stringify_obj [OF JObj(3) [unfolded w]] by simp
    show "a = b \<and> q = q'" if "a \<in> set ps" "b \<in> set qs" "delimited q" "delimited q'" "member_text a @ q = member_text b @ q'" for a b q q'
    proof -
      have "quote (fst a) @ CHR '':'' # stringify (snd a) @ q = quote (fst b) @ CHR '':'' # stringify (snd b) @ q'"
        using that(5) by (simp add: member_text_def)
      from quote_prefix [OF this] have e: "fst a = fst b" "stringify (snd a) @ q = stringify (snd b) @ q'" by simp_all
      have "printable (snd a)" "printable (snd b)" using JObj(2,3) that(1,2) w by (simp_all add: list_all_iff)
      moreover have "snd a \<in> Basic_BNFs.snds a" by (cases a) simp
      ultimately have "snd a = snd b \<and> q = q'" using JObj(1) [OF that(1) _ _ _ that(3,4) e(2)] by blast
      then show ?thesis using e(1) by (simp add: prod_eq_iff)
    qed
    show "\<exists>c cs. member_text a = c # cs \<and> c \<noteq> CHR ''}''" for a
      using quote_start [of "fst a"] by (auto simp: member_text_def)
  qed simp
  then show ?case using w by simp
next
  case (JBool b)
  then show ?case using stringify_kind [OF JBool(5)] by (cases w) (auto split: if_splits)
next
  case JNull
  then show ?case using stringify_kind [OF JNull(5)] by (cases w) (auto split: if_splits)
qed simp

lemma sortValue_printable: "defined v \<Longrightarrow> printable (sortValue v)"
proof (induction v rule: sortValue.induct)
  case (2 ps)
  then show ?case by (auto simp: list_all_iff)
qed (auto simp: list_all_iff)

lemma canonicalJson_eq_iff:
  assumes "defined v" and "defined w"
  shows "canonicalJson v = canonicalJson w \<longleftrightarrow> sortValue v = sortValue w"
  using stringify_prefix [OF assms [THEN sortValue_printable], of "[]" "[]"] by (auto simp: canonicalJson_def)

section \<open>The same document\<close>

text \<open>A JavaScript value: the properties of an object have different names and no element of an array is
  \<open>undefined\<close>.\<close>

fun document :: "json \<Rightarrow> bool" where
  "document JUndefined = False"
| "document (JArr vs) = list_all document vs"
| "document (JObj ps) = (distinct (map fst ps) \<and> list_all (\<lambda>p. snd p = JUndefined \<or> document (snd p)) ps)"
| "document v = True"

lemma document_defined: "document v \<Longrightarrow> defined v"
  by (induction v rule: document.induct) (auto simp: list_all_iff)

text \<open>Two values are the same document when they have the same kind and content, and objects the same
  properties, in any order, those set to \<open>undefined\<close> left out.\<close>

lemma zip_size [termination_simp]: "(a, b) \<in> set (zip vs ws) \<Longrightarrow> size a < Suc (size_list size vs)"
  by (drule set_zip_leftD) (simp add: size_list_estimation' less_Suc_eq_le)

fun same_document :: "json \<Rightarrow> json \<Rightarrow> bool" where
  "same_document (JArr vs) w = (case w of JArr ws \<Rightarrow> length vs = length ws \<and> list_all id (map2 same_document vs ws) | _ \<Rightarrow> False)"
| "same_document (JObj ps) w =
     (case w of JObj qs \<Rightarrow>
        list_all (\<lambda>p. snd p = JUndefined \<or> list_ex (\<lambda>q. fst q = fst p \<and> snd q \<noteq> JUndefined \<and> same_document (snd p) (snd q)) qs) ps
        \<and> list_all (\<lambda>q. snd q = JUndefined \<or> list_ex (\<lambda>p. fst p = fst q \<and> snd p \<noteq> JUndefined) ps) qs
      | _ \<Rightarrow> False)"
| "same_document v w = (v = w)"

declare same_document.simps (1,2) [simp del]

definition sorted_members :: "(string \<times> json) list \<Rightarrow> (string \<times> json) list" where
  "sorted_members ps = map (\<lambda>(k, v). (k, sortValue v)) (filter (\<lambda>p. snd p \<noteq> JUndefined) ps)"

lemma sortValue_obj: "sortValue (JObj ps) = JObj (sort_key fst (sorted_members ps))"
  by (simp add: sorted_members_def)

lemma sorted_members_set: "(k, u) \<in> set (sorted_members ps) \<longleftrightarrow> (\<exists>v. (k, v) \<in> set ps \<and> v \<noteq> JUndefined \<and> u = sortValue v)"
  by (auto simp: sorted_members_def)

lemma sorted_members_distinct: "distinct (map fst ps) \<Longrightarrow> distinct (map fst (sorted_members ps))"
  by (auto simp: sorted_members_def distinct_map_filter case_prod_unfold comp_def)

lemma sort_members_eq_iff:
  assumes "distinct (map fst ps)" and "distinct (map fst qs)"
  shows "sortValue (JObj ps) = sortValue (JObj qs) \<longleftrightarrow> set (sorted_members ps) = set (sorted_members qs)"
  using sort_key_unique [OF sorted_members_distinct [OF assms(1)] _ sorted_members_distinct [OF assms(2)]]
  unfolding sortValue_obj by (metis json.inject(5) set_sort)

lemma same_document_obj:
  "same_document (JObj ps) (JObj qs) \<longleftrightarrow>
     (\<forall>k v. (k, v) \<in> set ps \<and> v \<noteq> JUndefined \<longrightarrow> (\<exists>w. (k, w) \<in> set qs \<and> w \<noteq> JUndefined \<and> same_document v w))
     \<and> (\<forall>k w. (k, w) \<in> set qs \<and> w \<noteq> JUndefined \<longrightarrow> (\<exists>v. (k, v) \<in> set ps \<and> v \<noteq> JUndefined))"
  by (simp add: same_document.simps list_all_iff list_ex_iff Ball_def Bex_def split_paired_All split_paired_Ex) blast

lemma members_eq_iff:
  assumes dist: "distinct (map fst ps)" "distinct (map fst qs)"
    and eq: "\<And>k v k' w. (k, v) \<in> set ps \<Longrightarrow> (k', w) \<in> set qs \<Longrightarrow> v \<noteq> JUndefined \<Longrightarrow> w \<noteq> JUndefined \<Longrightarrow>
      sortValue v = sortValue w \<longleftrightarrow> same_document v w"
  shows "set (sorted_members ps) = set (sorted_members qs) \<longleftrightarrow> same_document (JObj ps) (JObj qs)"
proof
  assume S: "set (sorted_members ps) = set (sorted_members qs)"
  have "\<exists>w. (k, w) \<in> set qs \<and> w \<noteq> JUndefined \<and> same_document v w" if v: "(k, v) \<in> set ps" "v \<noteq> JUndefined" for k v
  proof -
    have "(k, sortValue v) \<in> set (sorted_members qs)" using v S sorted_members_set by blast
    then obtain w where "(k, w) \<in> set qs" "w \<noteq> JUndefined" "sortValue v = sortValue w" using sorted_members_set by blast
    then show ?thesis using eq v by blast
  qed
  moreover have "\<exists>v. (k, v) \<in> set ps \<and> v \<noteq> JUndefined" if "(k, w) \<in> set qs" "w \<noteq> JUndefined" for k w
    using that S sorted_members_set by blast
  ultimately show "same_document (JObj ps) (JObj qs)" unfolding same_document_obj by blast
next
  assume D: "same_document (JObj ps) (JObj qs)"
  have one: "v = v'" if "(k, v) \<in> set zs" "(k, v') \<in> set zs" "distinct (map fst zs)" for k v v' and zs :: "(string \<times> json) list"
    using that eq_key_imp_eq_value by fastforce
  have "(k, u) \<in> set (sorted_members qs)" if "(k, u) \<in> set (sorted_members ps)" for k u
    using that D eq unfolding same_document_obj sorted_members_set by metis
  moreover have "(k, u) \<in> set (sorted_members ps)" if u: "(k, u) \<in> set (sorted_members qs)" for k u
  proof -
    obtain w where w: "(k, w) \<in> set qs" "w \<noteq> JUndefined" "u = sortValue w" using u sorted_members_set by blast
    obtain v where v: "(k, v) \<in> set ps" "v \<noteq> JUndefined" using D w(1,2) unfolding same_document_obj by blast
    obtain w' where w': "(k, w') \<in> set qs" "w' \<noteq> JUndefined" "same_document v w'" using D v unfolding same_document_obj by blast
    have "w' = w" using one [OF w'(1) w(1) dist(2)] .
    then have "sortValue v = u" using eq [OF v(1) w(1) v(2) w(2)] w' w(3) by simp
    then show ?thesis using v sorted_members_set by blast
  qed
  ultimately show "set (sorted_members ps) = set (sorted_members qs)" by auto
qed

lemma map_eq_list_all2: "map f vs = map f ws \<longleftrightarrow> list_all2 (\<lambda>a b. f a = f b) vs ws"
  by (induction vs ws rule: list_induct2') simp_all

lemma same_document_arr: "same_document (JArr vs) (JArr ws) \<longleftrightarrow> list_all2 same_document vs ws"
  by (simp add: same_document.simps list_all_iff list_all2_iff case_prod_unfold)

lemma atom_text:
  "JNull = sortValue w \<longleftrightarrow> JNull = w" "JBool b = sortValue w \<longleftrightarrow> JBool b = w"
  "JNum n = sortValue w \<longleftrightarrow> JNum n = w" "JStr t = sortValue w \<longleftrightarrow> JStr t = w"
  by (cases w; simp)+

lemma sortValue_eq_iff: "document v \<Longrightarrow> document w \<Longrightarrow> sortValue v = sortValue w \<longleftrightarrow> same_document v w"
proof (induction v w rule: same_document.induct)
  case (1 vs w)
  show ?case
  proof (cases w)
    case (JArr ws)
    have "sortValue a = sortValue b \<longleftrightarrow> same_document a b" if m: "(a, b) \<in> set (zip vs ws)" for a b
    proof -
      have "a \<in> set vs" "b \<in> set ws" using m set_zip_leftD set_zip_rightD by metis+
      then have "document a" "document b" using 1(2,3) JArr by (simp_all add: list_all_iff)
      then show ?thesis using 1(1) [OF JArr m] by simp
    qed
    then have "list_all2 (\<lambda>a b. sortValue a = sortValue b) vs ws \<longleftrightarrow> list_all2 same_document vs ws"
      unfolding list_all2_iff by (intro conj_cong ball_cong) (simp_all add: case_prod_unfold)
    then show ?thesis using JArr by (simp add: map_eq_list_all2 same_document_arr)
  qed (simp_all add: same_document.simps)
next
  case (2 ps w)
  show ?case
  proof (cases w)
    case (JObj qs)
    have dist: "distinct (map fst ps)" "distinct (map fst qs)" using 2(2,3) JObj by simp_all
    have "set (sorted_members ps) = set (sorted_members qs) \<longleftrightarrow> same_document (JObj ps) (JObj qs)"
    proof (rule members_eq_iff [OF dist])
      fix k v k' u assume m: "(k, v) \<in> set ps" "(k', u) \<in> set qs" "v \<noteq> JUndefined" "u \<noteq> JUndefined"
      have "snd (k, v) = JUndefined \<or> document (snd (k, v))" "snd (k', u) = JUndefined \<or> document (snd (k', u))"
        using 2(2,3) m(1,2) unfolding JObj document.simps list_all_iff by blast+
      then have "document v" "document u" using m(3,4) by simp_all
      then show "sortValue v = sortValue u \<longleftrightarrow> same_document v u" using 2(1) [OF JObj m(1,2)] by simp
    qed
    then show ?thesis using sort_members_eq_iff [OF dist] JObj by simp
  qed (simp_all add: same_document.simps)
qed (simp_all add: atom_text)



end
