(* ===== verification/Execution_Store.thy ===== *)
theory Execution_Store
  imports Execution_Validation Workspace_Store Json_Text
begin

text \<open>
  The ledger of executions (\<^verbatim>\<open>packages/db/src/modules/workspaces/execution-dispatch.ts\<close>,
  \<^verbatim>\<open>execution-acceptance.ts\<close>, \<^verbatim>\<open>execution-owners.ts\<close>, \<^verbatim>\<open>execution-inputs.ts\<close>), the requests of
  conversations that own executions (\<^verbatim>\<open>packages/db/src/modules/conversations/execution-acceptance.ts\<close>,
  \<^verbatim>\<open>request-receipts.ts\<close>) and the inputs they pin (\<^verbatim>\<open>packages/db/src/modules/persistence/inputs/\<close>). An
  execution is accepted once, claimed for dispatch, observed until it settles, acknowledged and finalized. Its
  record is a column of the workspace when a process owns it, and of the conversation request otherwise. Every
  operation is one transaction; principals are read from their own table and are an argument.
\<close>

section \<open>Where a record is kept\<close>

definition request_key :: "conversation_request_row \<Rightarrow> ident \<times> ident \<times> ident" where
  "request_key q = (cq_principalId q, cq_conversationId q, cq_requestId q)"

definition same_execution :: "execution_reference \<Rightarrow> execution_record \<Rightarrow> bool" where
  "same_execution x r \<longleftrightarrow> canonicalJson (reference_json (ac_execution (er_acceptance r))) = canonicalJson (reference_json x)"

definition sameExecution :: "execution_record option \<Rightarrow> execution_reference \<Rightarrow> execution_record option" where
  "sameExecution r x = (case r of None \<Rightarrow> None | Some e \<Rightarrow> if same_execution x e then Some e else None)"

definition owner_rows :: "store \<Rightarrow> ident \<Rightarrow> execution_reference \<Rightarrow> conversation_request_row list" where
  "owner_rows d principalId x = filter (\<lambda>q. cq_principalId q = principalId \<and> cq_requestId q = xr_requestId x) (conversationRequests d)"

definition owner_row :: "store \<Rightarrow> ident \<Rightarrow> execution_reference \<Rightarrow> conversation_request_row option" where
  "owner_row d principalId x = List.find (\<lambda>q. sameExecution (cq_execution q) x \<noteq> None) (owner_rows d principalId x)"

definition readExecution :: "store \<Rightarrow> workspace_row \<Rightarrow> execution_reference \<Rightarrow> execution_record option" where
  "readExecution d w x =
     (if xr_owner x = OwnerProcess then sameExecution (ws_processExecution w) x
      else Option.bind (owner_row d (ws_principalId w) x) cq_execution)"

definition writeExecution :: "store \<Rightarrow> execution_record \<Rightarrow> js_error + store" where
  "writeExecution d r =
     (let x = ac_execution (er_acceptance r) in
      if xr_owner x = OwnerProcess
      then Inr (set_workspace (xr_workspaceId x) (\<lambda>w. w\<lparr>ws_processExecution := Some r\<rparr>) d)
      else case owner_row d (ac_callerPrincipalId (er_acceptance r)) x of
             None \<Rightarrow> Inl (PlainError ''Execution owner missing'')
           | Some q \<Rightarrow> Inr (d\<lparr>conversationRequests :=
               set_row request_key (ac_callerPrincipalId (er_acceptance r), cq_conversationId q, xr_requestId x)
                 (\<lambda>q. q\<lparr>cq_execution := Some r\<rparr>) (conversationRequests d)\<rparr>))"

section \<open>Pinned inputs\<close>

definition input_key :: "input_row \<Rightarrow> ident \<times> ident" where
  "input_key r = (in_workspaceId r, in_fileId r)"

definition readInput :: "store \<Rightarrow> ident \<Rightarrow> ident \<Rightarrow> input_row option" where
  "readInput d workspaceId fileId = row_by input_key (workspaceId, fileId) (inputObjects d)"

definition inputIsPinned :: "store \<Rightarrow> ident \<Rightarrow> ident \<Rightarrow> bool" where
  "inputIsPinned d workspaceId fileId \<longleftrightarrow>
     list_ex (\<lambda>m. mf_finalizedAt m = None \<and> im_workspaceId (mf_manifest m) = workspaceId
        \<and> list_ex (\<lambda>x. ir_fileId x = fileId) (im_objects (mf_manifest m))) (inputManifests d)"

definition same_reference_text :: "input_reference \<Rightarrow> input_reference \<Rightarrow> bool" where
  "same_reference_text a b \<longleftrightarrow> canonicalJson (input_reference_json a) = canonicalJson (input_reference_json b)"

definition same_manifest_text :: "input_manifest \<Rightarrow> input_manifest \<Rightarrow> bool" where
  "same_manifest_text a b \<longleftrightarrow> canonicalJson (input_manifest_json a) = canonicalJson (input_manifest_json b)"

definition usable_input :: "store \<Rightarrow> workload_acceptance \<Rightarrow> time \<Rightarrow> input_reference \<Rightarrow> bool" where
  "usable_input d input at x \<longleftrightarrow>
     (case readInput d (xr_workspaceId (ac_execution input)) (ir_fileId x) of
        None \<Rightarrow> False
      | Some r \<Rightarrow> in_principalId r = ac_callerPrincipalId input \<and> in_state r = InReady
          \<and> same_reference_text (in_reference r) x
          \<and> \<not> (in_retainedUntil r \<le> at \<and> \<not> inputIsPinned d (ir_workspaceId x) (ir_fileId x)))"

definition pinExecutionInputs :: "(string \<Rightarrow> string) \<Rightarrow> store \<Rightarrow> workload_acceptance \<Rightarrow> time \<Rightarrow> js_error + store" where
  "pinExecutionInputs sha d input at =
     (if \<not> list_all (usable_input d input at) (im_objects (ac_inputs input)) then executionConflict
      else case row_by mf_id (executionInputManifestId sha input) (inputManifests d) of
             Some m \<Rightarrow>
               if mf_finalizedAt m \<noteq> None \<or> \<not> same_manifest_text (mf_manifest m) (ac_inputs input)
               then executionConflict else Inr d
           | None \<Rightarrow> Inr (d\<lparr>inputManifests := inputManifests d @
               [\<lparr> mf_id = executionInputManifestId sha input, mf_manifest = ac_inputs input, mf_finalizedAt = None \<rparr>]\<rparr>))"

definition requireExecutionInputs :: "(string \<Rightarrow> string) \<Rightarrow> store \<Rightarrow> workload_acceptance \<Rightarrow> js_error + unit" where
  "requireExecutionInputs sha d input =
     (case row_by mf_id (executionInputManifestId sha input) (inputManifests d) of
        None \<Rightarrow> executionConflict
      | Some m \<Rightarrow>
          if mf_finalizedAt m \<noteq> None \<or> \<not> same_manifest_text (mf_manifest m) (ac_inputs input) then executionConflict
          else if list_all (\<lambda>x. case readInput d (xr_workspaceId (ac_execution input)) (ir_fileId x) of
                    None \<Rightarrow> False
                  | Some r \<Rightarrow> in_state r = InReady \<and> same_reference_text (in_reference r) x) (im_objects (ac_inputs input))
          then Inr () else executionConflict)"

fun retain_inputs :: "time \<Rightarrow> input_reference list \<Rightarrow> store \<Rightarrow> js_error + store" where
  "retain_inputs at [] d = Inr d"
| "retain_inputs at (x # xs) d =
     (case readInput d (ir_workspaceId x) (ir_fileId x) of
        None \<Rightarrow> Inl (PlainError ''database query returned no row'')
      | Some stored \<Rightarrow> retain_inputs at xs (d\<lparr>inputObjects :=
          set_row input_key (ir_workspaceId x, ir_fileId x)
            (\<lambda>r. r\<lparr>in_retainedUntil := at + in_retentionMs stored\<rparr>) (inputObjects d)\<rparr>))"

definition finalizeInputManifest :: "store \<Rightarrow> ident \<Rightarrow> time \<Rightarrow> js_error + store" where
  "finalizeInputManifest d i at =
     (case row_by mf_id i (inputManifests d) of
        None \<Rightarrow> Inr d
      | Some m \<Rightarrow>
          if mf_finalizedAt m \<noteq> None then Inr d
          else bindE (retain_inputs at (im_objects (mf_manifest m)) d) (\<lambda>d1.
            Inr (d1\<lparr>inputManifests := set_row mf_id i (\<lambda>r. r\<lparr>mf_finalizedAt := Some at\<rparr>) (inputManifests d1)\<rparr>)))"

section \<open>Acceptance\<close>

definition validateExecutionReplay ::
  "execution_record \<Rightarrow> workload_acceptance \<Rightarrow> conversation_identity option \<Rightarrow> js_error + unit" where
  "validateExecutionReplay r input identity =
     (if canonicalJson (acceptance_json (er_acceptance r)) \<noteq> canonicalJson (acceptance_json input) then executionConflict
      else if xr_owner (ac_execution input) = OwnerProcess
      then (if identity \<noteq> None then executionConflict else Inr ())
      else if (case (er_conversationIdentity r, identity) of
                 (Some a, Some b) \<Rightarrow> canonicalJson (identity_json a) \<noteq> canonicalJson (identity_json b)
               | _ \<Rightarrow> True)
      then executionConflict else Inr ())"

definition PARALLEL_CONVERSATION_CAPABILITIES :: "string list" where
  "PARALLEL_CONVERSATION_CAPABILITIES =
     [''parallel-conversations'', ''request-lookup'', ''deduplicated-accept'', ''targeted-cancel'']"

text \<open>One request at a time per workspace, or per conversation when the adapter runs conversations in parallel. A
  missing identity does not parse.\<close>

definition validateConversationExecution ::
  "store \<Rightarrow> workload_acceptance \<Rightarrow> conversation_identity option \<Rightarrow> bool \<Rightarrow> js_error + conversation_identity" where
  "validateConversationExecution d input identity parallel =
     (case identity of
        None \<Rightarrow> Inl (PlainError ''ZodError'')
      | Some c \<Rightarrow>
          if ci_request_id c \<noteq> xr_requestId (ac_execution input) then executionConflict
          else if list_ex (\<lambda>q. cq_principalId q = ac_callerPrincipalId input
                    \<and> (parallel \<longrightarrow> cq_conversationId q = ci_conversation_id c)
                    \<and> (case cq_execution q of None \<Rightarrow> False
                       | Some e \<Rightarrow> xr_workspaceId (ac_execution (er_acceptance e)) = xr_workspaceId (ac_execution input)
                           \<and> er_finalizedAt e = None)) (conversationRequests d)
          then executionConflict else Inr c)"

definition insertConversationExecution ::
  "store \<Rightarrow> execution_record \<Rightarrow> conversation_identity \<Rightarrow> time \<Rightarrow> js_error + store" where
  "insertConversationExecution d r c at =
     (let key = (ac_callerPrincipalId (er_acceptance r), ci_conversation_id c, ci_request_id c) in
      case row_by request_key key (conversationRequests d) of
        None \<Rightarrow> Inr (d\<lparr>conversationRequests := conversationRequests d @
          [\<lparr> cq_principalId = ac_callerPrincipalId (er_acceptance r), cq_conversationId = ci_conversation_id c,
             cq_requestId = ci_request_id c, cq_workspaceId = None, cq_identity = c, cq_acceptedAt = at,
             cq_execution = Some r \<rparr>]\<rparr>)
      | Some previous \<Rightarrow>
          if canonicalJson (identity_json (cq_identity previous)) \<noteq> canonicalJson (identity_json c)
             \<or> cq_execution previous \<noteq> None
          then executionConflict
          else Inr (d\<lparr>conversationRequests := set_row request_key key (\<lambda>q. q\<lparr>cq_execution := Some r\<rparr>) (conversationRequests d)\<rparr>))"

datatype acceptance_result = AcceptReplayed execution_record | Accepted execution_record

definition new_execution :: "workload_acceptance \<Rightarrow> conversation_identity option \<Rightarrow> time \<Rightarrow> execution_record" where
  "new_execution input identity at =
     \<lparr> er_acceptance = input, er_conversationIdentity = identity, er_outcome = JNull, er_acceptedAt = toISOString at,
       er_dispatchClaimedAt = None, er_phase = ExAccepted, er_cancel = None, er_settledAt = None,
       er_acknowledgedAt = None, er_finalizedAt = None \<rparr>"

definition acceptance_owner ::
  "store \<Rightarrow> workspace_row \<Rightarrow> workload_acceptance \<Rightarrow> conversation_identity option \<Rightarrow> js_error + conversation_identity option" where
  "acceptance_owner d w input identity =
     (if xr_owner (ac_execution input) = OwnerProcess
      then (if ws_processExecution w \<noteq> None \<or> ws_finiteProcess w \<noteq> None \<or> identity \<noteq> None then executionConflict else Inr identity)
      else bindE (operationAdapterCapabilities w input) (\<lambda>capabilities.
             map_sum id Some (validateConversationExecution d input identity
               (list_all (\<lambda>c. c \<in> set capabilities) PARALLEL_CONVERSATION_CAPABILITIES))))"

definition store_acceptance :: "store \<Rightarrow> workspace_row \<Rightarrow> execution_record \<Rightarrow> time \<Rightarrow> js_error + store" where
  "store_acceptance d w r at =
     (if xr_owner (ac_execution (er_acceptance r)) = OwnerProcess
      then Inr (set_workspace (ws_id w) (\<lambda>w. w\<lparr>ws_processExecution := Some r\<rparr>) d)
      else case er_conversationIdentity r of
             None \<Rightarrow> Inl (PlainError ''database query returned no row'')
           | Some c \<Rightarrow> insertConversationExecution d r c at)"

definition acceptExecution ::
  "(string \<Rightarrow> string) \<Rightarrow> principal_row list \<Rightarrow> store \<Rightarrow> workload_acceptance \<Rightarrow> time \<Rightarrow> conversation_identity option \<Rightarrow>
   js_error + (acceptance_result \<times> store)" where
  "acceptExecution sha prins d input at identity =
     (if \<not> valid_acceptance sha input then Inl (PlainError ''ZodError'')
      else case row_by ws_id (xr_workspaceId (ac_execution input)) (workspaces d) of
        None \<Rightarrow> Inl (PlainError ''database query returned no row'')
      | Some w \<Rightarrow>
          (case readExecution d w (ac_execution input) of
             Some previous \<Rightarrow> bindE (validateExecutionReplay previous input identity) (\<lambda>_. Inr (AcceptReplayed previous, d))
           | None \<Rightarrow>
               bindE (requireExecutionPrincipal prins (ac_callerPrincipalId input)) (\<lambda>_.
               bindE (validateExecution sha w input at identity) (\<lambda>_.
               bindE (acceptance_owner d w input identity) (\<lambda>owner.
               bindE (pinExecutionInputs sha d input at) (\<lambda>d1.
               bindE (store_acceptance d1 w (new_execution input owner at) at) (\<lambda>d2.
                 Inr (Accepted (new_execution input owner at), d2))))))))"

section \<open>Dispatch\<close>

definition needsAcknowledgment :: "execution_record \<Rightarrow> bool" where
  "needsAcknowledgment r \<longleftrightarrow>
     er_dispatchClaimedAt r \<noteq> None \<and> er_phase r \<in> {ExTerminal, ExCanceled} \<and> er_acknowledgedAt r = None"

definition reconcileExecution :: "workspace_row \<Rightarrow> execution_record \<Rightarrow> (bool \<times> execution_record) option" where
  "reconcileExecution w r =
     (case ws_runtimeRegistration w of
        None \<Rightarrow> None
      | Some runtime \<Rightarrow>
          if er_dispatchClaimedAt r = None \<or> executionSettled r
             \<or> ws_principalId w \<noteq> ac_callerPrincipalId (er_acceptance r) \<or> ws_purgeRequestedAt w \<noteq> None
             \<or> rr_readyAt runtime = None \<or> rr_endedAt runtime \<noteq> None
             \<or> rr_incarnationId runtime \<noteq> xr_incarnationId (ac_execution (er_acceptance r))
          then None else Some (False, r))"

definition withOwner ::
  "store \<Rightarrow> execution_reference \<Rightarrow> (workspace_row \<Rightarrow> execution_record \<Rightarrow> js_error + 'a) \<Rightarrow> js_error + 'a" where
  "withOwner d x task =
     (case row_by ws_id (xr_workspaceId x) (workspaces d) of
        None \<Rightarrow> executionConflict
      | Some w \<Rightarrow> (case readExecution d w x of None \<Rightarrow> executionConflict | Some r \<Rightarrow> task w r))"

definition getExecution :: "store \<Rightarrow> execution_reference \<Rightarrow> execution_record option" where
  "getExecution d x = Option.bind (row_by ws_id (xr_workspaceId x) (workspaces d)) (\<lambda>w. readExecution d w x)"

definition somes :: "'a option list \<Rightarrow> 'a list" where
  "somes xs = concat (map (\<lambda>x. case x of None \<Rightarrow> [] | Some a \<Rightarrow> [a]) xs)"

definition pendingExecutions :: "store \<Rightarrow> execution_record list" where
  "pendingExecutions d =
     filter (\<lambda>r. \<not> executionSettled r \<or> needsAcknowledgment r
        \<or> (xr_owner (ac_execution (er_acceptance r)) = OwnerConversation \<and> er_phase r \<in> {ExTerminal, ExCanceled}
            \<and> er_finalizedAt r = None))
       (somes (map ws_processExecution (workspaces d)) @ somes (map cq_execution (conversationRequests d)))"

definition reconcile_execution :: "store \<Rightarrow> execution_reference \<Rightarrow> js_error + (bool \<times> execution_record) option" where
  "reconcile_execution d x = withOwner d x (\<lambda>w r. Inr (reconcileExecution w r))"

definition claimed_record :: "execution_record \<Rightarrow> time \<Rightarrow> execution_record" where
  "claimed_record r at = r\<lparr>
     er_dispatchClaimedAt := Some (or_else (er_dispatchClaimedAt r) (toISOString at)),
     er_phase := (if er_dispatchClaimedAt r = None then ExDispatching else er_phase r)\<rparr>"

definition claimExecution ::
  "(string \<Rightarrow> string) \<Rightarrow> principal_row list \<Rightarrow> store \<Rightarrow> execution_reference \<Rightarrow> time \<Rightarrow>
   js_error + ((bool \<times> execution_record) option \<times> store)" where
  "claimExecution sha prins d x at = withOwner d x (\<lambda>w r.
     if er_cancel r \<noteq> None then Inr (reconcileExecution w r, d)
     else if executionSettled r then Inr (None, d)
     else case bindE (requireExecutionPrincipal prins (ac_callerPrincipalId (er_acceptance r))) (\<lambda>_.
               bindE (validateExecution sha w (er_acceptance r) at (er_conversationIdentity r)) (\<lambda>_.
                 requireExecutionInputs sha d (er_acceptance r))) of
        Inl (ApiError c) \<Rightarrow>
          bindE (writeExecution d (r\<lparr>er_phase := ExLost, er_settledAt := Some (toISOString at), er_outcome := JNull\<rparr>))
            (\<lambda>d'. Inr (None, d'))
      | Inl e \<Rightarrow> Inl e
      | Inr _ \<Rightarrow> bindE (writeExecution d (claimed_record r at)) (\<lambda>d'.
                  Inr (Some (er_dispatchClaimedAt r = None, claimed_record r at), d')))"

record workload_cancel =
  wk_execution :: execution_reference
  wk_cancelId :: ident
  wk_scope :: string

definition canceled_record :: "execution_record \<Rightarrow> ident \<Rightarrow> time \<Rightarrow> execution_record" where
  "canceled_record r cancelId at =
     (let c = r\<lparr>er_cancel := Some (cancelId, toISOString at)\<rparr> in
      if er_dispatchClaimedAt r \<noteq> None then c
      else c\<lparr>er_phase := ExCanceled, er_settledAt := Some (toISOString at), er_finalizedAt := Some (toISOString at)\<rparr>)"

definition cancelExecution ::
  "(string \<Rightarrow> string) \<Rightarrow> store \<Rightarrow> workload_cancel \<Rightarrow> time \<Rightarrow> js_error + (execution_record \<times> store)" where
  "cancelExecution sha d input at =
     (if wk_scope input \<noteq> ''operation'' then executionConflict
      else withOwner d (wk_execution input) (\<lambda>w r.
        case er_cancel r of
          Some (cid, _) \<Rightarrow> if cid \<noteq> wk_cancelId input then executionConflict else Inr (r, d)
        | None \<Rightarrow>
            if executionSettled r then Inr (r, d)
            else bindE (writeExecution d (canceled_record r (wk_cancelId input) at)) (\<lambda>d1.
                 bindE (if er_dispatchClaimedAt r = None
                        then finalizeInputManifest d1 (executionInputManifestId sha (er_acceptance r)) at else Inr d1)
                   (\<lambda>d2. Inr (canceled_record r (wk_cancelId input) at, d2)))))"

definition observed_record :: "execution_record \<Rightarrow> execution_phase \<Rightarrow> time \<Rightarrow> json \<Rightarrow> execution_record" where
  "observed_record r phase at outcome = r\<lparr>er_phase := phase,
     er_settledAt := (if phase \<in> {ExTerminal, ExUnknown, ExLost, ExCanceled} then Some (toISOString at) else None),
     er_outcome := outcome\<rparr>"

definition observeExecution ::
  "store \<Rightarrow> execution_reference \<Rightarrow> string \<Rightarrow> execution_phase \<Rightarrow> nat \<Rightarrow> time \<Rightarrow> json \<Rightarrow> js_error + (bool \<times> store)" where
  "observeExecution d x fingerprint phase epoch at outcome = withOwner d x (\<lambda>w r.
     if er_dispatchClaimedAt r = None \<or> ws_connectionEpoch w \<noteq> epoch
        \<or> Option.bind (ws_runtimeRegistration w) rr_endedAt \<noteq> None
        \<or> ac_fingerprint (er_acceptance r) \<noteq> fingerprint
     then Inr (False, d)
     else if executionSettled r
     then Inr (er_phase r = phase \<and> canonicalJson (er_outcome r) = canonicalJson outcome, d)
     else if phase \<notin> {ExRunning, ExTerminal, ExUnknown, ExLost, ExCanceled} then Inr (False, d)
     else bindE (writeExecution d (observed_record r phase at outcome)) (\<lambda>d'. Inr (True, d')))"

definition acknowledgeExecution :: "store \<Rightarrow> execution_reference \<Rightarrow> string \<Rightarrow> time \<Rightarrow> js_error + store" where
  "acknowledgeExecution d x fingerprint at = withOwner d x (\<lambda>w r.
     if ac_fingerprint (er_acceptance r) \<noteq> fingerprint \<or> \<not> executionSettled r then executionConflict
     else writeExecution d (r\<lparr>er_acknowledgedAt := Some (or_else (er_acknowledgedAt r) (toISOString at))\<rparr>))"

definition finalizeExecution :: "(string \<Rightarrow> string) \<Rightarrow> store \<Rightarrow> execution_reference \<Rightarrow> time \<Rightarrow> js_error + store" where
  "finalizeExecution sha d x at = withOwner d x (\<lambda>w r.
     if \<not> executionSettled r \<or> er_phase r \<in> {ExUnknown, ExLost} \<or> needsAcknowledgment r then executionConflict
     else bindE (finalizeInputManifest d (executionInputManifestId sha (er_acceptance r)) at) (\<lambda>d1.
            writeExecution d1 (r\<lparr>er_finalizedAt := Some (or_else (er_finalizedAt r) (toISOString at))\<rparr>)))"

section \<open>Receipts of conversation requests\<close>

definition requireContentWritable :: "store \<Rightarrow> ident \<Rightarrow> js_error + unit" where
  "requireContentWritable d i = (if contentWritable d i then Inr () else Inl (ApiError ''operation.conflict''))"

datatype request_result = RequestAccepted conversation_request_row | RequestReplayed conversation_request_row
  | RequestConflict conversation_request_row

definition acceptConversationRequest ::
  "store \<Rightarrow> ident \<Rightarrow> conversation_identity \<Rightarrow> time \<Rightarrow> js_error + (request_result \<times> store)" where
  "acceptConversationRequest d workspaceId c at =
     bindE (requireContentWritable d workspaceId) (\<lambda>_.
     case row_by ws_id workspaceId (workspaces d) of
       None \<Rightarrow> Inl (PlainError ''database query returned no row'')
     | Some w \<Rightarrow>
         (let key = (ws_principalId w, ci_conversation_id c, ci_request_id c);
              row = \<lparr> cq_principalId = ws_principalId w, cq_conversationId = ci_conversation_id c,
                      cq_requestId = ci_request_id c, cq_workspaceId = Some workspaceId, cq_identity = c,
                      cq_acceptedAt = at, cq_execution = None \<rparr>
          in case row_by request_key key (conversationRequests d) of
               None \<Rightarrow> Inr (RequestAccepted row, d\<lparr>conversationRequests := conversationRequests d @ [row]\<rparr>)
             | Some previous \<Rightarrow>
                 if canonicalJson (identity_json (cq_identity previous)) = canonicalJson (identity_json c)
                 then Inr (RequestReplayed previous,
                        if cq_workspaceId previous \<noteq> Some workspaceId
                        then d\<lparr>conversationRequests :=
                               set_row request_key key (\<lambda>q. q\<lparr>cq_workspaceId := Some workspaceId\<rparr>) (conversationRequests d)\<rparr>
                        else d)
                 else Inr (RequestConflict previous, d)))"

definition isAccepted :: "store \<Rightarrow> ident \<Rightarrow> conversation_identity \<Rightarrow> bool" where
  "isAccepted d workspaceId c \<longleftrightarrow>
     (case row_by ws_id workspaceId (workspaces d) of
        None \<Rightarrow> False
      | Some w \<Rightarrow>
          (case row_by request_key (ws_principalId w, ci_conversation_id c, ci_request_id c) (conversationRequests d) of
             None \<Rightarrow> False
           | Some q \<Rightarrow> canonicalJson (identity_json (cq_identity q)) = canonicalJson (identity_json c)))"

end
