(* ===== verification/Lifecycle_Spec.thy ===== *)
theory Lifecycle_Spec
  imports Workspace_State
begin

text \<open>
  What the workspace store promises, without its tables: a set of workspaces with an owner, an external id,
  an idempotency key and a state, and a log of every change of state. A workspace is created queued, once per
  idempotency key and while no live workspace has its external id, and afterwards only moves along the
  transition table. The store of \<open>Workspace_Store\<close> is shown to implement this specification.
\<close>

record life_entry =
  le_principal :: ident
  le_external :: string
  le_idem :: string
  le_state :: workspace_state

record lifecycle =
  lc_entries :: "ident \<Rightarrow> life_entry option"
  lc_log :: "(ident \<times> workspace_state option \<times> workspace_state) list"

definition may_create :: "lifecycle \<Rightarrow> ident \<Rightarrow> life_entry \<Rightarrow> bool" where
  "may_create L i e \<longleftrightarrow>
     lc_entries L i = None \<and> le_state e = Queued
     \<and> (\<forall>j e'. lc_entries L j = Some e' \<and> le_principal e' = le_principal e \<longrightarrow>
          le_idem e' \<noteq> le_idem e \<and> (le_external e' = le_external e \<longrightarrow> isTerminal (le_state e')))"

inductive life_step :: "lifecycle \<Rightarrow> lifecycle \<Rightarrow> bool" where
  create: "may_create L i e \<Longrightarrow>
    life_step L \<lparr> lc_entries = (lc_entries L)(i \<mapsto> e), lc_log = lc_log L @ [(i, None, Queued)] \<rparr>"
| move: "lc_entries L i = Some e \<Longrightarrow> canTransition (le_state e) t \<Longrightarrow>
    life_step L \<lparr> lc_entries = (lc_entries L)(i \<mapsto> e\<lparr>le_state := t\<rparr>),
                  lc_log = lc_log L @ [(i, Some (le_state e), t)] \<rparr>"

inductive_cases life_stepE: "life_step L L'"

text \<open>Replaying the log of one workspace: each record must continue where the one before it ended and be
  legal; the result is the state the log leads to.\<close>

fun replay :: "workspace_state option \<Rightarrow> (workspace_state option \<times> workspace_state) list \<Rightarrow> workspace_state option option" where
  "replay cur [] = Some cur"
| "replay cur ((src, dst) # rest) =
     (if src = cur \<and> (case cur of None \<Rightarrow> dst = Queued | Some s \<Rightarrow> canTransition s dst)
      then replay (Some dst) rest else None)"

definition log_of :: "ident \<Rightarrow> lifecycle \<Rightarrow> (workspace_state option \<times> workspace_state) list" where
  "log_of i L = map snd (filter (\<lambda>x. fst x = i) (lc_log L))"

definition life_inv :: "lifecycle \<Rightarrow> bool" where
  "life_inv L \<longleftrightarrow>
     (\<forall>i. replay None (log_of i L) = Some (map_option le_state (lc_entries L i)))
     \<and> (\<forall>i j e e'. lc_entries L i = Some e \<and> lc_entries L j = Some e' \<and> le_principal e = le_principal e' \<longrightarrow>
          (le_idem e = le_idem e' \<longrightarrow> i = j)
          \<and> (le_external e = le_external e' \<and> \<not> isTerminal (le_state e) \<and> \<not> isTerminal (le_state e') \<longrightarrow> i = j))"

definition life_le :: "lifecycle \<Rightarrow> lifecycle \<Rightarrow> bool" where
  "life_le L L' \<longleftrightarrow>
     (\<exists>more. lc_log L' = lc_log L @ more)
     \<and> (\<forall>i e. lc_entries L i = Some e \<longrightarrow>
          (\<exists>e'. lc_entries L' i = Some e' \<and> le_principal e' = le_principal e \<and> le_external e' = le_external e
             \<and> le_idem e' = le_idem e \<and> (isTerminal (le_state e) \<longrightarrow> e' = e)))"

section \<open>The log and the states agree\<close>

lemma replay_append: "replay c (xs @ ys) = (case replay c xs of None \<Rightarrow> None | Some c' \<Rightarrow> replay c' ys)"
  by (induction c xs rule: replay.induct) auto

lemma replay_path:
  "replay (Some s) xs = Some c \<Longrightarrow> c = Some (last (s # map snd xs)) \<and> lifecycle_path s (map snd xs)"
proof (induction xs arbitrary: s)
  case Nil
  then show ?case by simp
next
  case (Cons x xs)
  then show ?case by (cases x) (auto split: if_splits)
qed

lemma log_of_append [simp]:
  "log_of i (L\<lparr>lc_log := lc_log L @ [(j, x)]\<rparr>) = (if i = j then log_of i L @ [x] else log_of i L)"
  by (simp add: log_of_def)

lemma log_of_step:
  "log_of i \<lparr> lc_entries = E, lc_log = lc_log L @ [(j, x)] \<rparr> = (if i = j then log_of i L @ [x] else log_of i L)"
  by (simp add: log_of_def)

definition entries_unique :: "(ident \<Rightarrow> life_entry option) \<Rightarrow> bool" where
  "entries_unique E \<longleftrightarrow>
     (\<forall>i j e e'. E i = Some e \<and> E j = Some e' \<and> le_principal e = le_principal e' \<longrightarrow>
          (le_idem e = le_idem e' \<longrightarrow> i = j)
          \<and> (le_external e = le_external e' \<and> \<not> isTerminal (le_state e) \<and> \<not> isTerminal (le_state e') \<longrightarrow> i = j))"

lemma life_inv_iff:
  "life_inv L \<longleftrightarrow> (\<forall>i. replay None (log_of i L) = Some (map_option le_state (lc_entries L i)))
     \<and> entries_unique (lc_entries L)"
  unfolding life_inv_def entries_unique_def by blast

lemma entries_uniqueD:
  assumes "entries_unique E" and "E i = Some e" and "E j = Some e'" and "le_principal e = le_principal e'"
  shows "le_idem e = le_idem e' \<Longrightarrow> i = j"
    and "le_external e = le_external e' \<Longrightarrow> \<not> isTerminal (le_state e) \<Longrightarrow> \<not> isTerminal (le_state e') \<Longrightarrow> i = j"
  using assms unfolding entries_unique_def by blast+

lemma entries_uniqueI:
  assumes "\<And>i j e e'. E i = Some e \<Longrightarrow> E j = Some e' \<Longrightarrow> le_principal e = le_principal e' \<Longrightarrow>
      (le_idem e = le_idem e' \<longrightarrow> i = j)
      \<and> (le_external e = le_external e' \<and> \<not> isTerminal (le_state e) \<and> \<not> isTerminal (le_state e') \<longrightarrow> i = j)"
  shows "entries_unique E"
  unfolding entries_unique_def using assms by blast

lemma create_unique:
  assumes u: "entries_unique (lc_entries L)" and c: "may_create L i e"
  shows "entries_unique ((lc_entries L)(i \<mapsto> e))"
proof (rule entries_uniqueI)
  fix j k a b
  assume ab: "((lc_entries L)(i \<mapsto> e)) j = Some a" "((lc_entries L)(i \<mapsto> e)) k = Some b"
    "le_principal a = le_principal b"
  have other: "le_idem e' \<noteq> le_idem e \<and> (le_external e' = le_external e \<longrightarrow> isTerminal (le_state e'))"
    if "lc_entries L x = Some e'" "le_principal e' = le_principal e" for x e'
    using c that unfolding may_create_def by blast
  consider "j = i" "k = i" | "j = i" "k \<noteq> i" | "j \<noteq> i" "k = i" | "j \<noteq> i" "k \<noteq> i" by blast
  then show "(le_idem a = le_idem b \<longrightarrow> j = k)
      \<and> (le_external a = le_external b \<and> \<not> isTerminal (le_state a) \<and> \<not> isTerminal (le_state b) \<longrightarrow> j = k)"
  proof cases
    case 2
    then have "a = e" "lc_entries L k = Some b" using ab by simp_all
    then show ?thesis using other [of k b] ab(3) by auto
  next
    case 3 then show ?thesis using ab other [of j a] by simp
  next
    case 4 then show ?thesis using ab entries_uniqueD [OF u, of j a k b] by simp
  qed simp
qed

lemma move_unique:
  assumes u: "entries_unique E" and e: "E i = Some e" "\<not> isTerminal (le_state e)"
  shows "entries_unique (E(i \<mapsto> e\<lparr>le_state := t\<rparr>))"
proof (rule entries_uniqueI)
  fix j k a b
  assume ab: "(E(i \<mapsto> e\<lparr>le_state := t\<rparr>)) j = Some a" "(E(i \<mapsto> e\<lparr>le_state := t\<rparr>)) k = Some b"
    "le_principal a = le_principal b"
  have pick: "\<exists>a0. E x = Some a0 \<and> le_principal a0 = le_principal a \<and> le_idem a0 = le_idem a
      \<and> le_external a0 = le_external a \<and> (\<not> isTerminal (le_state a) \<longrightarrow> \<not> isTerminal (le_state a0))"
    if "(E(i \<mapsto> e\<lparr>le_state := t\<rparr>)) x = Some a" for x a
    using that e by (cases "x = i") auto
  obtain a0 where a0: "E j = Some a0" "le_principal a0 = le_principal a" "le_idem a0 = le_idem a"
      "le_external a0 = le_external a" "\<not> isTerminal (le_state a) \<longrightarrow> \<not> isTerminal (le_state a0)"
    using pick [OF ab(1)] by blast
  obtain b0 where b0: "E k = Some b0" "le_principal b0 = le_principal b" "le_idem b0 = le_idem b"
      "le_external b0 = le_external b" "\<not> isTerminal (le_state b) \<longrightarrow> \<not> isTerminal (le_state b0)"
    using pick [OF ab(2)] by blast
  have "le_principal a0 = le_principal b0" using a0(2) b0(2) ab(3) by simp
  then show "(le_idem a = le_idem b \<longrightarrow> j = k)
      \<and> (le_external a = le_external b \<and> \<not> isTerminal (le_state a) \<and> \<not> isTerminal (le_state b) \<longrightarrow> j = k)"
    using entries_uniqueD [OF u a0(1) b0(1)] a0(3-5) b0(3-5) by simp
qed

lemma life_step_inv:
  assumes "life_step L L'" and "life_inv L"
  shows "life_inv L'"
proof -
  have rep: "replay None (log_of j L) = Some (map_option le_state (lc_entries L j))" for j
    using assms(2) by (simp add: life_inv_iff)
  have u: "entries_unique (lc_entries L)" using assms(2) by (simp add: life_inv_iff)
  show ?thesis
    using assms(1)
  proof (cases rule: life_step.cases)
    case (create i e)
    have fresh: "lc_entries L i = None" "le_state e = Queued" using create(2) by (simp_all add: may_create_def)
    have "replay None (log_of j L') = Some (map_option le_state (lc_entries L' j))" for j
      using rep [of j] fresh unfolding create(1) log_of_step by (cases "j = i") (simp_all add: replay_append)
    then show ?thesis using create_unique [OF u create(2)] by (simp add: life_inv_iff create(1))
  next
    case (move i e t)
    have nt: "\<not> isTerminal (le_state e)" using move(3) terminal_stuck by blast
    have "replay None (log_of j L') = Some (map_option le_state (lc_entries L' j))" for j
      using rep [of j] move(2,3) unfolding move(1) log_of_step by (cases "j = i") (simp_all add: replay_append)
    then show ?thesis using move_unique [OF u move(2) nt] by (simp add: life_inv_iff move(1))
  qed
qed

lemma life_step_le:
  assumes "life_step L L'"
  shows "life_le L L'"
  using assms
proof (cases rule: life_step.cases)
  case (create i e)
  then show ?thesis unfolding life_le_def may_create_def by auto
next
  case (move i e t)
  then have "\<not> isTerminal (le_state e)" using terminal_stuck by blast
  then show ?thesis using move unfolding life_le_def by auto
qed

lemma life_le_refl: "life_le L L"
  unfolding life_le_def by auto

lemma life_le_trans:
  assumes ab: "life_le A B" and bc: "life_le B C"
  shows "life_le A C"
proof -
  have "\<exists>more. lc_log C = lc_log A @ more" using ab bc unfolding life_le_def by auto
  moreover have "\<exists>e'. lc_entries C i = Some e' \<and> le_principal e' = le_principal e \<and> le_external e' = le_external e
             \<and> le_idem e' = le_idem e \<and> (isTerminal (le_state e) \<longrightarrow> e' = e)" if "lc_entries A i = Some e" for i e
  proof -
    obtain f where f: "lc_entries B i = Some f" "le_principal f = le_principal e" "le_external f = le_external e"
        "le_idem f = le_idem e" "isTerminal (le_state e) \<longrightarrow> f = e"
      using ab \<open>lc_entries A i = Some e\<close> unfolding life_le_def by blast
    obtain g where "lc_entries C i = Some g" "le_principal g = le_principal f" "le_external g = le_external f"
        "le_idem g = le_idem f" "isTerminal (le_state f) \<longrightarrow> g = f"
      using bc f(1) unfolding life_le_def by blast
    then show ?thesis using f by auto
  qed
  ultimately show ?thesis unfolding life_le_def by blast
qed

interpretation life: monotone_system life_step life_inv life_le
  by unfold_locales (use life_step_inv life_step_le life_le_refl life_le_trans in blast)+

end
