(* ===== verification/Workspace_Refinement.thy ===== *)
theory Workspace_Refinement
  imports Workspace_Store Lifecycle_Spec
begin

text \<open>
  The workspace store implements \<open>Lifecycle_Spec\<close>: every transaction either leaves the abstract lifecycle as
  it is or takes exactly one of its steps, keeps the invariant of the tables (unique ids, and no open credential
  lease of a workspace that has ended or, once fenced, that is not being revoked), and changes rows only in ways
  that a client may rely on: identities never change, the change cursor never goes back, a closed lease stays
  closed and content that a purge erased does not come back.
\<close>

section \<open>The abstraction\<close>

definition entry :: "workspace_row \<Rightarrow> life_entry" where
  "entry r = \<lparr> le_principal = ws_principalId r, le_external = ws_externalId r,
     le_idem = ws_idempotencyKey r, le_state = ws_state r \<rparr>"

definition abs_store :: "store \<Rightarrow> lifecycle" where
  "abs_store d = \<lparr> lc_entries = (\<lambda>i. map_option entry (row_by ws_id i (workspaces d))),
     lc_log = map (\<lambda>h. (h_workspaceId h, h_fromState h, h_toState h)) (stateHistory d) \<rparr>"

lemma entry_simps [simp]:
  "le_principal (entry r) = ws_principalId r" "le_external (entry r) = ws_externalId r"
  "le_idem (entry r) = ws_idempotencyKey r" "le_state (entry r) = ws_state r"
  by (simp_all add: entry_def)

lemma abs_store_simps [simp]:
  "lc_entries (abs_store d) i = map_option entry (row_by ws_id i (workspaces d))"
  "lc_log (abs_store d) = map (\<lambda>h. (h_workspaceId h, h_fromState h, h_toState h)) (stateHistory d)"
  by (simp_all add: abs_store_def)

section \<open>What never changes of a row\<close>

definition erased :: "workspace_row \<Rightarrow> bool" where
  "erased r \<longleftrightarrow> ws_launchInput r = None \<and> ws_processExecution r = None \<and> ws_finiteProcess r = None
     \<and> ws_health r = [] \<and> ws_outputs r = JObj [] \<and> ws_failureLogTail r = None
     \<and> \<not> ws_failureLogTailTruncated r \<and> ws_failureLastLogSeq r = None \<and> ws_resolvedSource r = None
     \<and> ws_registrationDigest r = None \<and> ws_reconnectDigest r = None"

text \<open>What an event shows of a workspace, apart from the provisioning mode and the outputs.\<close>

definition event_view :: "workspace_row \<Rightarrow> workspace_state \<times> reason_code option \<times> agent_state \<times>
    string option \<times> bool \<times> nat option \<times> string \<times> string \<times> ident option \<times> ident option \<times> ident option" where
  "event_view r = (ws_state r, ws_reasonCode r, ws_agentState r, ws_failureLogTail r, ws_failureLogTailTruncated r,
     ws_failureLastLogSeq r, ws_templateVersion r, ws_templateDigest r, ws_originWorkspaceId r,
     ws_restoredFromCheckpointId r, ws_latestCheckpointId r)"

text \<open>What never changes of an execution: the facts of its acceptance; once it was claimed, canceled or
  acknowledged, when that happened; that it was finalized; and once it settled, its phase, its outcome, when it
  was finalized and whether it was claimed. An execution with a cancel is not claimed afterwards.\<close>

definition once :: "'a option \<Rightarrow> 'a option \<Rightarrow> bool" where
  "once a b \<longleftrightarrow> a = None \<or> b = a"

lemma once_simps [simp]: "once a a" "once None b" "once (Some x) b \<longleftrightarrow> b = Some x"
  by (auto simp: once_def)

lemma once_trans: "once a b \<Longrightarrow> once b c \<Longrightarrow> once a c"
  by (auto simp: once_def)

definition execution_le :: "execution_record \<Rightarrow> execution_record \<Rightarrow> bool" where
  "execution_le r r' \<longleftrightarrow>
     er_acceptance r' = er_acceptance r \<and> er_acceptedAt r' = er_acceptedAt r
     \<and> er_conversationIdentity r' = er_conversationIdentity r
     \<and> once (er_dispatchClaimedAt r) (er_dispatchClaimedAt r') \<and> once (er_cancel r) (er_cancel r')
     \<and> once (er_acknowledgedAt r) (er_acknowledgedAt r') \<and> (er_finalizedAt r \<noteq> None \<longrightarrow> er_finalizedAt r' \<noteq> None)
     \<and> (er_cancel r \<noteq> None \<longrightarrow> er_dispatchClaimedAt r' = er_dispatchClaimedAt r)
     \<and> (executionSettled r \<longrightarrow> er_phase r' = er_phase r \<and> er_dispatchClaimedAt r' = er_dispatchClaimedAt r
          \<and> once (er_settledAt r) (er_settledAt r') \<and> once (er_finalizedAt r) (er_finalizedAt r')
          \<and> canonicalJson (er_outcome r') = canonicalJson (er_outcome r))"

lemma execution_le_refl [simp]: "execution_le r r"
  by (simp add: execution_le_def)

lemma execution_leD:
  assumes "execution_le r r'"
  shows "er_acceptance r' = er_acceptance r" "er_acceptedAt r' = er_acceptedAt r"
    "er_conversationIdentity r' = er_conversationIdentity r"
    "once (er_dispatchClaimedAt r) (er_dispatchClaimedAt r')" "once (er_cancel r) (er_cancel r')"
    "once (er_acknowledgedAt r) (er_acknowledgedAt r')" "er_finalizedAt r \<noteq> None \<Longrightarrow> er_finalizedAt r' \<noteq> None"
    "er_cancel r \<noteq> None \<Longrightarrow> er_dispatchClaimedAt r' = er_dispatchClaimedAt r"
    "executionSettled r \<Longrightarrow> er_phase r' = er_phase r"
    "executionSettled r \<Longrightarrow> er_dispatchClaimedAt r' = er_dispatchClaimedAt r"
    "executionSettled r \<Longrightarrow> once (er_settledAt r) (er_settledAt r')"
    "executionSettled r \<Longrightarrow> canonicalJson (er_outcome r') = canonicalJson (er_outcome r)"
    "executionSettled r \<Longrightarrow> once (er_finalizedAt r) (er_finalizedAt r')"
  using assms unfolding execution_le_def by simp_all

lemma execution_le_settled: "execution_le r r' \<Longrightarrow> executionSettled r \<Longrightarrow> executionSettled r'"
  using execution_leD(9) [of r r'] unfolding executionSettled_def by simp

lemma execution_le_trans:
  assumes ab: "execution_le a b" and bc: "execution_le b c"
  shows "execution_le a c"
proof -
  note 1 = execution_leD [OF ab] and 2 = execution_leD [OF bc]
  have cancel: "er_dispatchClaimedAt c = er_dispatchClaimedAt a" if h: "er_cancel a \<noteq> None"
  proof -
    have "er_cancel b = er_cancel a" using h 1(5) unfolding once_def by (elim disjE) simp_all
    then have "er_cancel b \<noteq> None" using h by (rule ssubst)
    then show ?thesis using 1(8) [OF h] 2(8) by simp
  qed
  have settled: "er_phase c = er_phase a \<and> er_dispatchClaimedAt c = er_dispatchClaimedAt a
      \<and> once (er_settledAt a) (er_settledAt c) \<and> once (er_finalizedAt a) (er_finalizedAt c)
      \<and> canonicalJson (er_outcome c) = canonicalJson (er_outcome a)"
    if sa: "executionSettled a"
  proof -
    note sb = execution_le_settled [OF ab sa]
    show ?thesis
      using 1(9,10,12) [OF sa] 2(9,10,12) [OF sb] once_trans [OF 1(11) [OF sa] 2(11) [OF sb]]
        once_trans [OF 1(13) [OF sa] 2(13) [OF sb]] by simp
  qed
  show ?thesis
    unfolding execution_le_def
    using 1(1-3) 2(1-3) once_trans [OF 1(4) 2(4)] once_trans [OF 1(5) 2(5)] once_trans [OF 1(6) 2(6)]
      1(7) 2(7) cancel settled by simp
qed

text \<open>The column that holds an execution: it is filled once, with an execution of the row, while no purge is
  requested, then only advances, and is emptied only by a purge.\<close>

definition slot_le :: "(execution_record \<Rightarrow> bool) \<Rightarrow> bool \<Rightarrow> bool \<Rightarrow> execution_record option \<Rightarrow> execution_record option \<Rightarrow> bool" where
  "slot_le ok purged purged' a b \<longleftrightarrow>
     (case a of Some e \<Rightarrow> (case b of Some e' \<Rightarrow> execution_le e e' | None \<Rightarrow> purged')
      | None \<Rightarrow> (case b of Some e' \<Rightarrow> \<not> purged \<and> ok e' | None \<Rightarrow> True))"

lemma slot_le_simps [simp]:
  "slot_le ok p p' a a" "slot_le ok p p' None None" "slot_le ok p True a None"
  "slot_le ok p p' (Some e) (Some e') \<longleftrightarrow> execution_le e e'"
  "slot_le ok p p' None (Some e) \<longleftrightarrow> \<not> p \<and> ok e"
  by (simp_all add: slot_le_def split: option.splits)

lemma slot_le_purge [simp]: "slot_le ok p p a (if p then None else a)"
  by simp

lemma slot_le_map: "(\<And>e. execution_le e (f e)) \<Longrightarrow> slot_le ok p p' a (map_option f a)"
  by (cases a) simp_all

lemma slot_le_trans:
  assumes "slot_le ok p p' a b" and "slot_le ok p' p'' b c" and "p \<longrightarrow> p'" and "p' \<longrightarrow> p''"
    and "\<And>e e'. ok e \<Longrightarrow> execution_le e e' \<Longrightarrow> ok e'"
  shows "slot_le ok p p'' a c"
  using assms unfolding slot_le_def by (cases a; cases b; cases c) (auto intro: execution_le_trans)

definition process_of :: "ident \<Rightarrow> execution_record \<Rightarrow> bool" where
  "process_of i e \<longleftrightarrow> xr_owner (ac_execution (er_acceptance e)) = OwnerProcess
     \<and> xr_workspaceId (ac_execution (er_acceptance e)) = i"

lemma process_of_le: "process_of i e \<Longrightarrow> execution_le e e' \<Longrightarrow> process_of i e'"
  by (simp add: process_of_def execution_le_def)

definition same_identity :: "workspace_row \<Rightarrow> workspace_row \<Rightarrow> bool" where
  "same_identity r r' \<longleftrightarrow>
     ws_id r' = ws_id r \<and> ws_principalId r' = ws_principalId r \<and> ws_externalId r' = ws_externalId r
     \<and> ws_idempotencyKey r' = ws_idempotencyKey r \<and> ws_requestDigest r' = ws_requestDigest r
     \<and> ws_templateSnapshot r' = ws_templateSnapshot r \<and> ws_templateName r' = ws_templateName r
     \<and> ws_createdAt r' = ws_createdAt r \<and> ws_deadlineAt r' = ws_deadlineAt r"

definition row_le :: "workspace_row \<Rightarrow> workspace_row \<Rightarrow> bool" where
  "row_le r r' \<longleftrightarrow> same_identity r r' \<and> ws_changeSeq r \<le> ws_changeSeq r'
     \<and> slot_le (process_of (ws_id r)) (ws_purgeRequestedAt r \<noteq> None) (ws_purgeRequestedAt r' \<noteq> None)
         (ws_processExecution r) (ws_processExecution r')
     \<and> (ws_changeSeq r' = ws_changeSeq r \<and> ws_purgeRequestedAt r' = None \<longrightarrow>
          ws_purgeRequestedAt r = None \<and> event_view r' = event_view r \<and> ws_outputs r' = ws_outputs r)
     \<and> (isTerminal (ws_state r) \<longrightarrow> ws_state r' = ws_state r)
     \<and> (ws_purgeRequestedAt r \<noteq> None \<longrightarrow>
          ws_purgeRequestedAt r' = ws_purgeRequestedAt r \<and> (erased r \<longrightarrow> erased r')
          \<and> (ws_state r' = ws_state r \<or> ws_state r' \<notin> {Provisioning, Connected, Ready, Preserving, Queued}))"

lemma row_le_refl [simp]: "row_le r r"
  by (simp add: row_le_def same_identity_def)

lemma row_le_identity: "row_le r r' \<Longrightarrow> same_identity r r'" and row_le_seq: "row_le r r' \<Longrightarrow> ws_changeSeq r \<le> ws_changeSeq r'"
  and row_le_slot: "row_le r r' \<Longrightarrow> slot_le (process_of (ws_id r)) (ws_purgeRequestedAt r \<noteq> None) (ws_purgeRequestedAt r' \<noteq> None)
     (ws_processExecution r) (ws_processExecution r')"
  by (simp_all add: row_le_def)

lemma row_le_terminal: "row_le r r' \<Longrightarrow> isTerminal (ws_state r) \<Longrightarrow> ws_state r' = ws_state r"
  unfolding row_le_def by blast

lemma row_le_purge:
  assumes "row_le r r'" and "ws_purgeRequestedAt r \<noteq> None"
  shows "ws_purgeRequestedAt r' = ws_purgeRequestedAt r" and "erased r \<Longrightarrow> erased r'"
    and "ws_state r' = ws_state r \<or> ws_state r' \<notin> {Provisioning, Connected, Ready, Preserving, Queued}"
  using assms unfolding row_le_def by blast+

lemma row_le_view:
  assumes "row_le r r'" and "ws_changeSeq r' = ws_changeSeq r" and "ws_purgeRequestedAt r' = None"
  shows "ws_purgeRequestedAt r = None" and "event_view r' = event_view r" and "ws_outputs r' = ws_outputs r"
  using assms unfolding row_le_def by blast+

lemma row_le_trans:
  assumes ab: "row_le a b" and bc: "row_le b c"
  shows "row_le a c"
proof -
  have t: "ws_state c = ws_state a" if "isTerminal (ws_state a)"
    using row_le_terminal [OF ab that] row_le_terminal [OF bc] that by simp
  have p: "ws_purgeRequestedAt c = ws_purgeRequestedAt a \<and> (erased a \<longrightarrow> erased c)
      \<and> (ws_state c = ws_state a \<or> ws_state c \<notin> {Provisioning, Connected, Ready, Preserving, Queued})"
    if pa: "ws_purgeRequestedAt a \<noteq> None"
  proof -
    note 1 = row_le_purge [OF ab pa]
    have pb: "ws_purgeRequestedAt b \<noteq> None" using 1(1) pa by simp
    note 2 = row_le_purge [OF bc pb]
    show ?thesis using 1 2 by (intro conjI impI) (simp, blast, metis)
  qed
  have seq: "ws_changeSeq a \<le> ws_changeSeq c" using row_le_seq [OF ab] row_le_seq [OF bc] by (rule order_trans)
  have ids: "same_identity a c"
    using row_le_identity [OF ab] row_le_identity [OF bc] unfolding same_identity_def by (elim conjE) simp
  have view: "ws_changeSeq c = ws_changeSeq a \<and> ws_purgeRequestedAt c = None \<longrightarrow>
      ws_purgeRequestedAt a = None \<and> event_view c = event_view a \<and> ws_outputs c = ws_outputs a"
  proof (intro impI, elim conjE)
    assume eq: "ws_changeSeq c = ws_changeSeq a" and pc: "ws_purgeRequestedAt c = None"
    have "ws_changeSeq c = ws_changeSeq b" "ws_changeSeq b = ws_changeSeq a"
      using eq row_le_seq [OF ab] row_le_seq [OF bc] by simp_all
    then show "ws_purgeRequestedAt a = None \<and> event_view c = event_view a \<and> ws_outputs c = ws_outputs a"
      using row_le_view [OF bc _ pc] row_le_view [OF ab] by simp
  qed
  have id: "ws_id b = ws_id a" using row_le_identity [OF ab] unfolding same_identity_def by (elim conjE)
  have slot: "slot_le (process_of (ws_id a)) (ws_purgeRequestedAt a \<noteq> None) (ws_purgeRequestedAt c \<noteq> None)
      (ws_processExecution a) (ws_processExecution c)"
    using row_le_slot [OF ab] row_le_slot [OF bc, unfolded id]
  proof (rule slot_le_trans)
    show "ws_purgeRequestedAt a \<noteq> None \<longrightarrow> ws_purgeRequestedAt b \<noteq> None" using row_le_purge(1) [OF ab] by simp
    show "ws_purgeRequestedAt b \<noteq> None \<longrightarrow> ws_purgeRequestedAt c \<noteq> None" using row_le_purge(1) [OF bc] by simp
  qed (rule process_of_le)
  show ?thesis
    unfolding row_le_def by (intro conjI ids seq slot view) (use t p in simp_all)
qed

lemma erased_purged [simp]: "erased (purgedContentPatch r)"
  by (simp add: erased_def purgedContentPatch_def)

definition lease_le :: "lease_row \<Rightarrow> lease_row \<Rightarrow> bool" where
  "lease_le l l' \<longleftrightarrow> l_id l' = l_id l \<and> l_workspaceId l' = l_workspaceId l \<and> l_requestDigest l' = l_requestDigest l
     \<and> (isClosed (l_state l) \<longrightarrow> l' = l)"

lemma lease_le_refl [simp]: "lease_le l l"
  by (simp add: lease_le_def)

lemma lease_le_trans: "lease_le a b \<Longrightarrow> lease_le b c \<Longrightarrow> lease_le a c"
  by (simp add: lease_le_def)

section \<open>The invariant\<close>

definition lease_ok :: "(ident \<Rightarrow> life_entry option) \<Rightarrow> (ident \<times> time) list \<Rightarrow> lease_row list \<Rightarrow> bool" where
  "lease_ok E fs ls \<longleftrightarrow> distinct (map l_id ls)
     \<and> (\<forall>l \<in> set ls. \<not> isClosed (l_state l) \<longrightarrow>
          (\<exists>e. E (l_workspaceId l) = Some e \<and> \<not> isTerminal (le_state e))
          \<and> (l_workspaceId l \<in> fst ` set fs \<longrightarrow> l_state l = LRevoking))"

definition store_inv :: "store \<Rightarrow> bool" where
  "store_inv d \<longleftrightarrow> distinct (map ws_id (workspaces d))
     \<and> lease_ok (lc_entries (abs_store d)) (leaseFences d) (leases d)"

definition store_le :: "store \<Rightarrow> store \<Rightarrow> bool" where
  "store_le d d' \<longleftrightarrow>
     (\<forall>r \<in> set (workspaces d). \<exists>r' \<in> set (workspaces d'). row_le r r')
     \<and> (\<exists>more. stateHistory d' = stateHistory d @ more)
     \<and> (\<forall>l \<in> set (leases d). \<exists>l' \<in> set (leases d'). lease_le l l')
     \<and> set (leaseFences d) \<subseteq> set (leaseFences d')"

definition refines :: "store \<Rightarrow> store \<Rightarrow> bool" where
  "refines d d' \<longleftrightarrow> abs_store d' = abs_store d \<or> life_step (abs_store d) (abs_store d')"

text \<open>A workspace that a step adds has no execution yet.\<close>

definition fresh_rows :: "store \<Rightarrow> store \<Rightarrow> bool" where
  "fresh_rows d d' \<longleftrightarrow>
     (\<forall>r \<in> set (workspaces d'). ws_id r \<in> set (map ws_id (workspaces d)) \<or> ws_processExecution r = None)"

lemma fresh_rows_ids: "map ws_id (workspaces d') = map ws_id (workspaces d) \<Longrightarrow> fresh_rows d d'"
  unfolding fresh_rows_def by (metis imageI set_map)

definition good_step :: "store \<Rightarrow> store \<Rightarrow> bool" where
  "good_step d d' \<longleftrightarrow> store_inv d' \<and> store_le d d' \<and> refines d d' \<and> fresh_rows d d'"

lemma store_le_refl [simp]: "store_le d d"
  unfolding store_le_def using row_le_refl lease_le_refl by blast

lemma store_le_trans:
  assumes ab: "store_le a b" and bc: "store_le b c"
  shows "store_le a c"
  unfolding store_le_def
proof (intro conjI ballI)
  fix r assume "r \<in> set (workspaces a)"
  then obtain r' where r': "r' \<in> set (workspaces b)" "row_le r r'" using ab unfolding store_le_def by blast
  then obtain r'' where "r'' \<in> set (workspaces c)" "row_le r' r''" using bc unfolding store_le_def by blast
  then show "\<exists>r' \<in> set (workspaces c). row_le r r'" using r'(2) row_le_trans by blast
next
  fix l assume "l \<in> set (leases a)"
  then obtain l' where l': "l' \<in> set (leases b)" "lease_le l l'" using ab unfolding store_le_def by blast
  then obtain l'' where "l'' \<in> set (leases c)" "lease_le l' l''" using bc unfolding store_le_def by blast
  then show "\<exists>l' \<in> set (leases c). lease_le l l'" using l'(2) lease_le_trans by blast
next
  obtain m n where "stateHistory b = stateHistory a @ m" "stateHistory c = stateHistory b @ n"
    using ab bc unfolding store_le_def by blast
  then show "\<exists>more. stateHistory c = stateHistory a @ more" by simp
next
  show "set (leaseFences a) \<subseteq> set (leaseFences c)" using ab bc unfolding store_le_def by blast
qed

section \<open>The shapes of a change\<close>

lemma row_le_entry: "row_le r r' \<Longrightarrow> ws_state r' = ws_state r \<Longrightarrow> ws_id r' = ws_id r \<and> entry r' = entry r"
  unfolding row_le_def same_identity_def entry_def by simp

lemma rows_kept:
  assumes f: "\<And>r. r \<in> set rows \<Longrightarrow> ws_id r = i \<Longrightarrow> row_le r (f r) \<and> ws_state (f r) = ws_state r"
  shows "map ws_id (set_row ws_id i f rows) = map ws_id rows"
    and "map_option entry (row_by ws_id j (set_row ws_id i f rows)) = map_option entry (row_by ws_id j rows)"
    and "\<forall>r \<in> set rows. \<exists>r' \<in> set (set_row ws_id i f rows). row_le r r'"
proof -
  have keep: "ws_id (f r) = ws_id r \<and> entry (f r) = entry r" if "r \<in> set rows" "ws_id r = i" for r
    using f [OF that] row_le_entry by blast
  show "map ws_id (set_row ws_id i f rows) = map ws_id rows"
    unfolding set_row_def using keep by (intro map_update_where) blast
  show "map_option entry (row_by ws_id j (set_row ws_id i f rows)) = map_option entry (row_by ws_id j rows)"
    unfolding set_row_def using keep by (intro row_by_update_view) blast
  show "\<forall>r \<in> set rows. \<exists>r' \<in> set (set_row ws_id i f rows). row_le r r'"
  proof
    fix r assume r: "r \<in> set rows"
    have "(if ws_id r = i then f r else r) \<in> set (set_row ws_id i f rows)"
      unfolding in_set_row using r by blast
    moreover have "row_le r (if ws_id r = i then f r else r)" using f [OF r] by simp
    ultimately show "\<exists>r' \<in> set (set_row ws_id i f rows). row_le r r'" by blast
  qed
qed

lemma good_keep:
  assumes inv: "store_inv d"
    and f: "\<And>r. r \<in> set (workspaces d) \<Longrightarrow> ws_id r = i \<Longrightarrow> row_le r (f r) \<and> ws_state (f r) = ws_state r"
    and ws: "workspaces d' = set_row ws_id i f (workspaces d)"
    and same: "stateHistory d' = stateHistory d" "leases d' = leases d" "leaseFences d' = leaseFences d"
  shows "good_step d d'"
proof -
  have abs: "abs_store d' = abs_store d"
    unfolding abs_store_def ws same(1) using rows_kept(2) [OF f] by simp
  have "store_inv d'" using inv rows_kept(1) [OF f] unfolding store_inv_def abs same ws by simp
  moreover have "\<forall>l \<in> set (leases d). \<exists>l' \<in> set (leases d). lease_le l l'" using lease_le_refl by blast
  then have "store_le d d'" using rows_kept(3) [OF f] unfolding store_le_def ws same by simp
  moreover have "fresh_rows d d'" using rows_kept(1) [OF f] ws by (intro fresh_rows_ids) simp
  ultimately show ?thesis using abs unfolding good_step_def refines_def by blast
qed

lemma good_leases:
  assumes inv: "store_inv d"
    and same: "workspaces d' = workspaces d" "stateHistory d' = stateHistory d"
    and ok: "lease_ok (lc_entries (abs_store d)) (leaseFences d') (leases d')"
    and le: "\<forall>l \<in> set (leases d). \<exists>l' \<in> set (leases d'). lease_le l l'"
    and fences: "set (leaseFences d) \<subseteq> set (leaseFences d')"
  shows "good_step d d'"
proof -
  have abs: "abs_store d' = abs_store d" unfolding abs_store_def same by simp
  have "\<forall>r \<in> set (workspaces d). \<exists>r' \<in> set (workspaces d). row_le r r'" using row_le_refl by blast
  then have "store_le d d'" using le fences unfolding store_le_def same by simp
  moreover have "store_inv d'" using inv ok unfolding store_inv_def abs same(1) by simp
  moreover have "fresh_rows d d'" using same(1) by (intro fresh_rows_ids) simp
  ultimately show ?thesis using abs unfolding good_step_def refines_def by blast
qed

lemma good_refl: "store_inv d \<Longrightarrow> good_step d d"
  unfolding good_step_def refines_def by (simp add: fresh_rows_ids)

text \<open>A step that leaves the workspaces, the history and the leases alone.\<close>

lemma good_frame:
  assumes "store_inv d" and "workspaces d' = workspaces d" and "stateHistory d' = stateHistory d"
    and "leases d' = leases d" and "leaseFences d' = leaseFences d"
  shows "good_step d d'"
  using assms(1,2,3)
proof (rule good_leases)
  show "lease_ok (lc_entries (abs_store d)) (leaseFences d') (leases d')"
    using assms(1) unfolding store_inv_def assms(4,5) by blast
  show "\<forall>l \<in> set (leases d). \<exists>l' \<in> set (leases d'). lease_le l l'"
    unfolding assms(4) using lease_le_refl by blast
  show "set (leaseFences d) \<subseteq> set (leaseFences d')" unfolding assms(5) by blast
qed

lemma lease_ok_move:
  assumes ok: "lease_ok E fs ls"
    and closed: "isTerminal (le_state e') \<Longrightarrow> \<forall>l \<in> set ls. l_workspaceId l = i \<longrightarrow> isClosed (l_state l)"
  shows "lease_ok (E(i \<mapsto> e')) fs ls"
proof -
  have "\<exists>e. (E(i \<mapsto> e')) (l_workspaceId l) = Some e \<and> \<not> isTerminal (le_state e)"
    if l: "l \<in> set ls" "\<not> isClosed (l_state l)" for l
  proof (cases "l_workspaceId l = i")
    case True
    then show ?thesis using closed l by auto
  next
    case False
    then show ?thesis using ok l unfolding lease_ok_def by auto
  qed
  then show ?thesis using ok unfolding lease_ok_def by blast
qed

lemma good_move:
  assumes inv: "store_inv d" and cur: "row_by ws_id i (workspaces d) = Some cur"
    and le: "row_le cur row" and can: "canTransition (ws_state cur) (ws_state row)"
    and ws: "workspaces d' = set_row ws_id i (\<lambda>_. row) (workspaces d)"
    and hist: "stateHistory d' = stateHistory d @ [h]" "h_workspaceId h = i"
      "h_fromState h = Some (ws_state cur)" "h_toState h = ws_state row"
    and ok: "lease_ok (lc_entries (abs_store d)) (leaseFences d') (leases d')"
    and closed: "isTerminal (ws_state row) \<Longrightarrow> \<forall>l \<in> set (leases d'). l_workspaceId l = i \<longrightarrow> isClosed (l_state l)"
    and lle: "\<forall>l \<in> set (leases d). \<exists>l' \<in> set (leases d'). lease_le l l'"
    and fences: "set (leaseFences d) \<subseteq> set (leaseFences d')"
  shows "good_step d d'"
proof -
  have ids: "ws_id cur = i" "cur \<in> set (workspaces d)" using row_by_SomeD [OF cur] by simp_all
  have row: "ws_id row = i" using le ids(1) unfolding row_le_def same_identity_def by simp
  have ent: "(entry cur)\<lparr>le_state := ws_state row\<rparr> = entry row"
    using le unfolding row_le_def same_identity_def entry_def by simp
  have E: "lc_entries (abs_store d') = (lc_entries (abs_store d))(i \<mapsto> entry row)"
    by (rule ext) (simp add: ws row_by_set_row_const [of ws_id row, OF row] cur)
  have abs: "abs_store d' = \<lparr> lc_entries = (lc_entries (abs_store d))(i \<mapsto> (entry cur)\<lparr>le_state := ws_state row\<rparr>),
      lc_log = lc_log (abs_store d) @ [(i, Some (le_state (entry cur)), ws_state row)] \<rparr>"
    using E ent hist by (simp add: abs_store_def)
  have "life_step (abs_store d) (abs_store d')"
    unfolding abs using can cur by (intro life_step.move) simp_all
  moreover have "store_inv d'"
    using inv lease_ok_move [OF ok, of "entry row" i] closed
    unfolding store_inv_def E ws map_key_set_row_const [of ws_id row, OF row] by simp
  moreover have "\<exists>r' \<in> set (workspaces d'). row_le r r'" if r: "r \<in> set (workspaces d)" for r
  proof (cases "ws_id r = i")
    case True
    have "distinct (map ws_id (workspaces d))" using inv by (simp add: store_inv_def)
    then have "r = cur" using row_by_mem [of ws_id "workspaces d" r] r True cur by simp
    moreover have "row \<in> set (workspaces d')" unfolding ws in_set_row using r True by (intro bexI [of _ r]) simp_all
    ultimately show ?thesis using le by blast
  next
    case False
    have "r \<in> set (workspaces d')" unfolding ws in_set_row using r False by (intro bexI [of _ r]) simp_all
    then show ?thesis using row_le_refl by blast
  qed
  then have "store_le d d'" using hist(1) lle fences unfolding store_le_def by blast
  moreover have "fresh_rows d d'"
    using map_key_set_row_const [of ws_id row, OF row] ws by (intro fresh_rows_ids) simp
  ultimately show ?thesis unfolding good_step_def refines_def by blast
qed

lemma good_insert:
  assumes inv: "store_inv d" and may: "may_create (abs_store d) (ws_id row) (entry row)"
    and ws: "workspaces d' = workspaces d @ [row]"
    and hist: "stateHistory d' = stateHistory d @ [h]" "h_workspaceId h = ws_id row"
      "h_fromState h = None" "h_toState h = Queued"
    and same: "leases d' = leases d" "leaseFences d' = leaseFences d" and none: "ws_processExecution row = None"
  shows "good_step d d'"
proof -
  have new: "row_by ws_id (ws_id row) (workspaces d) = None" using may unfolding may_create_def by simp
  then have notin: "ws_id row \<notin> ws_id ` set (workspaces d)" unfolding row_by_None_iff .
  have E: "lc_entries (abs_store d') = (lc_entries (abs_store d))(ws_id row \<mapsto> entry row)"
  proof (rule ext)
    show "lc_entries (abs_store d') j = ((lc_entries (abs_store d))(ws_id row \<mapsto> entry row)) j" for j
      using new by (cases "row_by ws_id j (workspaces d)") (auto simp: ws row_by_append)
  qed
  have "abs_store d' = \<lparr> lc_entries = (lc_entries (abs_store d))(ws_id row \<mapsto> entry row),
      lc_log = lc_log (abs_store d) @ [(ws_id row, None, Queued)] \<rparr>"
    using E hist by (simp add: abs_store_def)
  then have "life_step (abs_store d) (abs_store d')" using life_step.create [OF may] by simp
  moreover have "store_inv d'"
  proof -
    have "lease_ok (lc_entries (abs_store d)) (leaseFences d') (leases d')"
      using inv unfolding store_inv_def same by blast
    then have "lease_ok ((lc_entries (abs_store d))(ws_id row \<mapsto> entry row)) (leaseFences d') (leases d')"
      using may by (intro lease_ok_move) (simp_all add: may_create_def isTerminal_def TERMINAL_STATES_def)
    then show ?thesis using inv notin unfolding store_inv_def E ws by simp
  qed
  moreover have "\<forall>r \<in> set (workspaces d). \<exists>r' \<in> set (workspaces d'). row_le r r'"
  proof
    fix r assume "r \<in> set (workspaces d)"
    then show "\<exists>r' \<in> set (workspaces d'). row_le r r'" unfolding ws by (intro bexI [of _ r]) simp_all
  qed
  then have "store_le d d'" using hist(1) lease_le_refl unfolding store_le_def same by blast
  moreover have "fresh_rows d d'" using none unfolding fresh_rows_def ws by simp
  ultimately show ?thesis unfolding good_step_def refines_def by blast
qed

end
