(* ===== verification/Workspace_Steps.thy ===== *)
theory Workspace_Steps
  imports Workspace_Refinement
begin

text \<open>
  Every transaction of the workspace store, of its leases and of the tables beside them is a good step: it
  keeps the invariant and implements the abstract lifecycle.
\<close>

section \<open>Rows that only change inside\<close>

lemma inv_row_eq:
  assumes "store_inv d" and "row_by ws_id i (workspaces d) = Some row"
    and "r \<in> set (workspaces d)" and "ws_id r = i"
  shows "r = row"
proof -
  have "distinct (map ws_id (workspaces d))" using assms(1) by (simp add: store_inv_def)
  then show ?thesis using row_by_mem [of ws_id "workspaces d" r] assms by simp
qed

lemma apply_patch_keeps [simp]:
  "ws_id (apply_patch p r) = ws_id r" "ws_principalId (apply_patch p r) = ws_principalId r"
  "ws_externalId (apply_patch p r) = ws_externalId r" "ws_idempotencyKey (apply_patch p r) = ws_idempotencyKey r"
  "ws_requestDigest (apply_patch p r) = ws_requestDigest r"
  "ws_templateSnapshot (apply_patch p r) = ws_templateSnapshot r" "ws_templateName (apply_patch p r) = ws_templateName r"
  "ws_createdAt (apply_patch p r) = ws_createdAt r" "ws_deadlineAt (apply_patch p r) = ws_deadlineAt r"
  "ws_changeSeq (apply_patch p r) = ws_changeSeq r" "ws_state (apply_patch p r) = ws_state r"
  "ws_purgeRequestedAt (apply_patch p r) = ws_purgeRequestedAt r" "ws_reasonCode (apply_patch p r) = ws_reasonCode r"
  by (simp_all add: apply_patch_def)

lemma purge_keeps [simp]:
  "ws_id (purge_if_requested c r) = ws_id r" "ws_principalId (purge_if_requested c r) = ws_principalId r"
  "ws_externalId (purge_if_requested c r) = ws_externalId r"
  "ws_idempotencyKey (purge_if_requested c r) = ws_idempotencyKey r"
  "ws_requestDigest (purge_if_requested c r) = ws_requestDigest r"
  "ws_templateSnapshot (purge_if_requested c r) = ws_templateSnapshot r"
  "ws_templateName (purge_if_requested c r) = ws_templateName r"
  "ws_createdAt (purge_if_requested c r) = ws_createdAt r" "ws_deadlineAt (purge_if_requested c r) = ws_deadlineAt r"
  "ws_changeSeq (purge_if_requested c r) = ws_changeSeq r" "ws_state (purge_if_requested c r) = ws_state r"
  "ws_purgeRequestedAt (purge_if_requested c r) = ws_purgeRequestedAt r"
  "ws_reasonCode (purge_if_requested c r) = ws_reasonCode r"
  by (simp_all add: purge_if_requested_def purgedContentPatch_def)

lemma purge_slot:
  "slot_le ok (ws_purgeRequestedAt c \<noteq> None) (ws_purgeRequestedAt c \<noteq> None) (ws_processExecution c)
     (ws_processExecution (purge_if_requested c (apply_patch patch c)))"
  by (cases "ws_purgeRequestedAt c") (simp_all add: purge_if_requested_def purgedContentPatch_def apply_patch_def)

lemmas purge_slot_ex [simp] = purge_slot [simplified]

lemma erased_if_requested: "ws_purgeRequestedAt c \<noteq> None \<Longrightarrow> erased (purge_if_requested c r)"
  by (simp add: purge_if_requested_def)

lemma erased_bookkeeping [simp]:
  "erased (r\<lparr>ws_updatedAt := t\<rparr>) = erased r" "erased (r\<lparr>ws_changeSeq := n\<rparr>) = erased r"
  "erased (r\<lparr>ws_state := s\<rparr>) = erased r" "erased (r\<lparr>ws_reasonCode := c\<rparr>) = erased r"
  "erased (r\<lparr>ws_terminalAt := x\<rparr>) = erased r" "erased (r\<lparr>ws_runtimeRegistration := y\<rparr>) = erased r"
  "erased r \<Longrightarrow> erased (r\<lparr>ws_launchInput := None\<rparr>)" "erased r \<Longrightarrow> erased (r\<lparr>ws_registrationDigest := None\<rparr>)"
  "erased (r\<lparr>ws_purgeRequestedAt := z\<rparr>) = erased r"
  by (simp_all add: erased_def)

lemma updateWorkspace_view:
  "\<not> bumps_change patch \<Longrightarrow> ws_purgeRequestedAt r = None \<Longrightarrow>
     event_view (purge_if_requested r (apply_patch patch r)) = event_view r
     \<and> ws_outputs (purge_if_requested r (apply_patch patch r)) = ws_outputs r"
  by (simp add: bumps_change_def purge_if_requested_def event_view_def apply_patch_def)

lemma updateWorkspace_good: "store_inv d \<Longrightarrow> good_step d (updateWorkspace d i patch at)"
proof (rule good_keep)
  let ?f = "\<lambda>r. let r1 = (purge_if_requested r (apply_patch patch r))\<lparr>ws_updatedAt := at\<rparr>
             in if bumps_change patch then r1\<lparr>ws_changeSeq := ws_changeSeq r + 1\<rparr> else r1"
  show "row_le r (?f r) \<and> ws_state (?f r) = ws_state r" for r
    using updateWorkspace_view [of patch r] unfolding Let_def row_le_def same_identity_def
    by (simp add: erased_if_requested event_view_def)
  show "workspaces (updateWorkspace d i patch at) = set_row ws_id i ?f (workspaces d)"
    by (simp add: updateWorkspace_def)
qed (simp_all add: updateWorkspace_def)

lemma setQueuedAdmissionReason_good: "store_inv d \<Longrightarrow> good_step d (setQueuedAdmissionReason d i reason at)"
proof -
  assume inv: "store_inv d"
  let ?f = "\<lambda>r. r\<lparr>ws_reasonCode := reason, ws_updatedAt := at, ws_changeSeq := ws_changeSeq r + 1\<rparr>"
  have "good_step d (d\<lparr>workspaces := set_row ws_id i ?f (workspaces d)\<rparr>)"
    by (rule good_keep [OF inv, of i ?f]) (simp_all add: row_le_def same_identity_def)
  then show ?thesis
    using good_refl [OF inv] unfolding setQueuedAdmissionReason_def
    by (cases "row_by ws_id i (workspaces d)") simp_all
qed

lemma set_workspace_frame_good:
  assumes inv: "store_inv d" and row: "row_by ws_id i (workspaces d) = Some row"
    and f: "row_le row (f row)" "ws_state (f row) = ws_state row"
    and frame: "workspaces d1 = workspaces d" "stateHistory d1 = stateHistory d" "leases d1 = leases d"
      "leaseFences d1 = leaseFences d"
  shows "good_step d (set_workspace i f d1)"
proof (rule good_keep [OF inv])
  show "row_le r (f r) \<and> ws_state (f r) = ws_state r" if "r \<in> set (workspaces d)" "ws_id r = i" for r
    using inv_row_eq [OF inv row that] f by simp
qed (simp_all add: set_workspace_def frame)

lemmas set_workspace_good = set_workspace_frame_good [OF _ _ _ _ HOL.refl HOL.refl HOL.refl HOL.refl]

lemma bindWorkspaceRuntime_good:
  assumes inv: "store_inv d"
  shows "good_step d (snd (bindWorkspaceRuntime d i runtime ref))"
proof (cases "row_by ws_id i (workspaces d)")
  case None
  then show ?thesis using good_refl [OF inv] by (simp add: bindWorkspaceRuntime_def)
next
  case (Some row)
  have "good_step d (set_workspace i (\<lambda>r. r\<lparr>ws_runtimeRegistration := Some runtime\<rparr>) d)"
    by (rule set_workspace_good [OF inv Some]) (simp_all add: row_le_def same_identity_def event_view_def)
  then show ?thesis
    using good_refl [OF inv] Some unfolding bindWorkspaceRuntime_def
    by (cases "ws_runtimeRegistration row") simp_all
qed

lemma markWorkspaceRuntimeReady_good:
  assumes inv: "store_inv d"
  shows "good_step d (snd (markWorkspaceRuntimeReady d i inc epoch at))"
proof (cases "row_by ws_id i (workspaces d)")
  case None
  then show ?thesis using good_refl [OF inv] by (simp add: markWorkspaceRuntimeReady_def)
next
  case (Some row)
  have "good_step d (set_workspace i (\<lambda>r. r\<lparr>ws_runtimeRegistration := x\<rparr>) d)" for x
    by (rule set_workspace_good [OF inv Some]) (simp_all add: row_le_def same_identity_def event_view_def)
  then show ?thesis
    using good_refl [OF inv] Some unfolding markWorkspaceRuntimeReady_def
    by (cases "ws_runtimeRegistration row") simp_all
qed

lemma observed_execution_le:
  assumes "acceptsProcessFact ex fct"
  shows "slot_le ok p p' ex (observedProcessExecution ex fct)"
proof (cases ex)
  case (Some r)
  then have "executionSettled r \<longrightarrow> er_phase r = observed_phase (ff_phase fct)
      \<and> (er_phase r = ExTerminal \<or> er_phase r = ExLost) \<and> canonicalJson (er_outcome r) = canonicalJson (fact_json fct)"
    using assms unfolding acceptsProcessFact_def by (auto split: if_splits)
  then show ?thesis
    unfolding observedProcessExecution_def Some option.map slot_le_simps execution_le_def Let_def
    by (auto split: option.splits)
qed (simp add: observedProcessExecution_def)

lemma recordFiniteProcess_good:
  assumes inv: "store_inv d" and run: "recordFiniteProcess d i epoch fct now = Inr (b, d')"
  shows "good_step d d'"
proof (cases "row_by ws_id i (workspaces d)")
  case None
  then show ?thesis using good_refl [OF inv] run by (simp add: recordFiniteProcess_def)
next
  case (Some row)
  have step: "good_step d (set_workspace i (\<lambda>r. r\<lparr>ws_processExecution := x, ws_finiteProcess := y,
      ws_changeSeq := ws_changeSeq r + 1, ws_updatedAt := now\<rparr>) d)"
    if "ws_purgeRequestedAt row = None" "slot_le (process_of (ws_id row)) False False (ws_processExecution row) x" for x y
    by (rule set_workspace_good [OF inv Some]) (simp_all add: row_le_def same_identity_def that)
  show ?thesis
  proof (cases "ws_runtimeRegistration row")
    case None
    then show ?thesis using run Some good_refl [OF inv] by (simp add: recordFiniteProcess_def)
  next
    case reg: (Some runtime)
    show ?thesis
    proof (cases "ws_purgeRequestedAt row = None \<and> acceptsProcessFact (ws_processExecution row) fct")
      case True
      then show ?thesis
        using run Some reg good_refl [OF inv] step [OF _ observed_execution_le]
        by (simp add: recordFiniteProcess_def split: if_splits, elim conjE, hypsubst, blast)
    next
      case False
      then show ?thesis using run Some reg good_refl [OF inv] by (auto simp: recordFiniteProcess_def split: if_splits)
    qed
  qed
qed

lemma endWorkspaceRuntime_good:
  assumes inv: "store_inv d"
  shows "good_step d (endWorkspaceRuntime d i inc at)"
proof (cases "row_by ws_id i (workspaces d)")
  case None
  then show ?thesis using good_refl [OF inv] by (simp add: endWorkspaceRuntime_def)
next
  case (Some row)
  let ?ended = "map_option (ended_fact at) (ws_finiteProcess row)"
  let ?f = "\<lambda>runtime r. r\<lparr>ws_runtimeRegistration := Some (runtime\<lparr>rr_endedAt := Some (toISOString at)\<rparr>),
     ws_processExecution := map_option (\<lambda>e. if executionSettled e then e
        else e\<lparr>er_phase := ExLost, er_settledAt := Some (toISOString at),
               er_outcome := nullable fact_json ?ended\<rparr>) (ws_processExecution row),
     ws_finiteProcess := ?ended, ws_changeSeq := ws_changeSeq r + 1, ws_updatedAt := at\<rparr>"
  have "row_le row (?f runtime row)" for runtime :: runtime_registration
    unfolding row_le_def same_identity_def
    by (simp add: erased_def, rule slot_le_map) (simp add: execution_le_def)
  then have "good_step d (set_workspace i (?f runtime) (lose_requests (ws_principalId row) i inc at d))"
    for runtime :: runtime_registration
    by (rule set_workspace_frame_good [OF inv Some]) (simp_all add: lose_requests_def)
  then show ?thesis
    using good_refl [OF inv] Some unfolding endWorkspaceRuntime_def
    by (cases "ws_runtimeRegistration row") (simp_all add: Let_def)
qed

section \<open>Transitions\<close>

lemma appendTransition_Inr:
  assumes "appendTransition u row src reason at d = Inr d'"
  shows "workspaces d' = workspaces d \<and> leases d' = leases d \<and> leaseFences d' = leaseFences d
    \<and> stateHistory d' = stateHistory d @ [\<lparr> h_id = u_history u, h_workspaceId = ws_id row, h_fromState = src,
        h_toState = ws_state row, h_reasonCode = reason, h_occurredAt = at \<rparr>]"
  using assms unfolding appendTransition_def Let_def by (auto split: if_splits)

lemma retain_conversation_frame [simp]:
  "workspaces (retain_conversation i e at d) = workspaces d" "leases (retain_conversation i e at d) = leases d"
  "leaseFences (retain_conversation i e at d) = leaseFences d"
  "stateHistory (retain_conversation i e at d) = stateHistory d"
  by (simp_all add: retain_conversation_def)

lemma transition_row_le:
  assumes "canTransition (ws_state cur) (rq_to req)"
    and "ws_purgeRequestedAt cur \<noteq> None \<Longrightarrow> rq_to req \<notin> {Provisioning, Connected, Ready, Preserving, Queued}"
  shows "row_le cur (transition_row cur req)"
proof -
  have "\<not> isTerminal (ws_state cur)" using assms(1) terminal_stuck by blast
  moreover have "erased (transition_row cur req)" if "ws_purgeRequestedAt cur \<noteq> None"
    using erased_if_requested [OF that] unfolding transition_row_def Let_def by simp
  ultimately show ?thesis
    using assms(2) unfolding row_le_def same_identity_def by (simp add: transition_row_def Let_def)
qed

lemma transition_row_state [simp]: "ws_state (transition_row cur req) = rq_to req" "ws_id (transition_row cur req) = ws_id cur"
  by (simp_all add: transition_row_def Let_def)

lemma commit_transition_Inr:
  assumes "commit_transition u d cur req = Inr (row, d')"
  shows "row = transition_row cur req \<and> workspaces d' = set_row ws_id (ws_id cur) (\<lambda>_. row) (workspaces d)
    \<and> leases d' = leases d \<and> leaseFences d' = leaseFences d
    \<and> stateHistory d' = stateHistory d @ [\<lparr> h_id = u_history u, h_workspaceId = ws_id cur,
        h_fromState = Some (ws_state cur), h_toState = rq_to req, h_reasonCode = ws_reasonCode row,
        h_occurredAt = rq_at req \<rparr>]"
proof -
  let ?row = "transition_row cur req"
  let ?d1 = "d\<lparr>workspaces := set_row ws_id (ws_id cur) (\<lambda>_. ?row) (workspaces d)\<rparr>"
  obtain d2 where d2: "appendTransition u ?row (Some (ws_state cur)) (ws_reasonCode ?row) (rq_at req) ?d1 = Inr d2"
    and d': "d' = d2 \<or> (\<exists>e. d' = retain_conversation (ws_id cur) e (rq_at req) d2)" and row: "row = ?row"
    using assms unfolding commit_transition_def Let_def by (auto split: if_splits)
  show ?thesis using appendTransition_Inr [OF d2] d' row by auto
qed

section \<open>Leases\<close>

definition fence_lease :: "ident \<Rightarrow> time \<Rightarrow> lease_row \<Rightarrow> lease_row" where
  "fence_lease i at l =
     (if l_workspaceId l = i \<and> \<not> isClosed (l_state l) \<and> l_state l \<noteq> LRevoking
      then l\<lparr>l_state := LRevoking, l_updatedAt := at\<rparr> else l)"

lemma leases_fence: "leases (fenceWorkspaceLeaseRows i at d) = map (fence_lease i at) (leases d)"
  unfolding fenceWorkspaceLeaseRows_def update_where_def fence_lease_def by simp

lemma fence_lease_simps [simp]:
  "l_id (fence_lease i at l) = l_id l" "l_workspaceId (fence_lease i at l) = l_workspaceId l"
  "isClosed (l_state (fence_lease i at l)) = isClosed (l_state l)"
  by (simp_all add: fence_lease_def isClosed_def)

lemma fence_lease_state:
  "l_workspaceId l = i \<Longrightarrow> \<not> isClosed (l_state l) \<Longrightarrow> l_state (fence_lease i at l) = LRevoking"
  "l_state l = LRevoking \<Longrightarrow> l_state (fence_lease i at l) = LRevoking"
  by (simp_all add: fence_lease_def)

lemma lease_okI:
  assumes "distinct (map l_id ls)"
    and "\<And>l. l \<in> set ls \<Longrightarrow> \<not> isClosed (l_state l) \<Longrightarrow> \<exists>e. E (l_workspaceId l) = Some e \<and> \<not> isTerminal (le_state e)"
    and "\<And>l. l \<in> set ls \<Longrightarrow> \<not> isClosed (l_state l) \<Longrightarrow> l_workspaceId l \<in> fst ` set fs \<Longrightarrow> l_state l = LRevoking"
  shows "lease_ok E fs ls"
  unfolding lease_ok_def using assms by blast

lemma lease_okD:
  assumes "lease_ok E fs ls"
  shows "distinct (map l_id ls)"
    and "l \<in> set ls \<Longrightarrow> \<not> isClosed (l_state l) \<Longrightarrow> \<exists>e. E (l_workspaceId l) = Some e \<and> \<not> isTerminal (le_state e)"
    and "l \<in> set ls \<Longrightarrow> \<not> isClosed (l_state l) \<Longrightarrow> l_workspaceId l \<in> fst ` set fs \<Longrightarrow> l_state l = LRevoking"
  using assms unfolding lease_ok_def by blast+

lemma fenced_ok:
  assumes ok: "lease_ok E (leaseFences d) (leases d)"
  shows "lease_ok E (leaseFences (fenceWorkspaceLeaseRows i at d)) (leases (fenceWorkspaceLeaseRows i at d))"
proof (rule lease_okI)
  have fs: "fst ` set (leaseFences (fenceWorkspaceLeaseRows i at d)) = insert i (fst ` set (leaseFences d))"
    by (simp add: fenceWorkspaceLeaseRows_def fenced_def insert_absorb)
  have "map l_id (map (fence_lease i at) (leases d)) = map l_id (leases d)" by (simp add: o_def)
  then show "distinct (map l_id (leases (fenceWorkspaceLeaseRows i at d)))"
    using lease_okD(1) [OF ok] unfolding leases_fence by metis
  fix l' assume "l' \<in> set (leases (fenceWorkspaceLeaseRows i at d))" and open': "\<not> isClosed (l_state l')"
  then obtain l where l: "l' = fence_lease i at l" "l \<in> set (leases d)" unfolding leases_fence set_map by blast
  have o: "\<not> isClosed (l_state l)" using open' unfolding l(1) by simp
  show "\<exists>e. E (l_workspaceId l') = Some e \<and> \<not> isTerminal (le_state e)"
    using lease_okD(2) [OF ok l(2) o] unfolding l(1) by simp
  assume f: "l_workspaceId l' \<in> fst ` set (leaseFences (fenceWorkspaceLeaseRows i at d))"
  show "l_state l' = LRevoking"
  proof (cases "l_workspaceId l = i")
    case True then show ?thesis unfolding l(1) using o by (rule fence_lease_state(1))
  next
    case False
    then have "l_workspaceId l \<in> fst ` set (leaseFences d)" using f unfolding l(1) fs by simp
    then show ?thesis unfolding l(1) by (intro fence_lease_state(2) lease_okD(3) [OF ok l(2) o])
  qed
qed

lemma update_lease_le:
  assumes "\<And>l. l \<in> set ls \<Longrightarrow> p l \<Longrightarrow> lease_le l (f l)"
  shows "\<forall>l \<in> set ls. \<exists>l' \<in> set (update_where p f ls). lease_le l l'"
proof
  fix l assume l: "l \<in> set ls"
  have "(if p l then f l else l) \<in> set (update_where p f ls)" unfolding in_update_where using l by auto
  moreover have "lease_le l (if p l then f l else l)" using assms [OF l] by simp
  ultimately show "\<exists>l' \<in> set (update_where p f ls). lease_le l l'" by blast
qed

lemma fence_step:
  "\<forall>l \<in> set (leases d). \<exists>l' \<in> set (leases (fenceWorkspaceLeaseRows i at d)). lease_le l l'"
  "set (leaseFences d) \<subseteq> set (leaseFences (fenceWorkspaceLeaseRows i at d))"
  "workspaces (fenceWorkspaceLeaseRows i at d) = workspaces d"
  "stateHistory (fenceWorkspaceLeaseRows i at d) = stateHistory d"
proof -
  show "\<forall>l \<in> set (leases d). \<exists>l' \<in> set (leases (fenceWorkspaceLeaseRows i at d)). lease_le l l'"
    unfolding fenceWorkspaceLeaseRows_def by simp (rule update_lease_le, simp add: lease_le_def)
qed (auto simp: fenceWorkspaceLeaseRows_def)

lemma fence_good: "store_inv d \<Longrightarrow> good_step d (fenceWorkspaceLeaseRows i at d)"
  by (rule good_leases) (simp_all add: fence_step fenced_ok store_inv_def)

text \<open>What the lease check of a transition leaves: the store, or the store with the workspace fenced; and for
  a terminal state it succeeds only when every lease of the workspace is closed.\<close>

lemma prepareLeaseTransition_cases:
  assumes "prepareLeaseTransition i dst at d = (ok, d1)"
  shows "d1 = d \<or> d1 = fenceWorkspaceLeaseRows i at d"
    and "isTerminal dst \<Longrightarrow> ok \<Longrightarrow> \<forall>l \<in> set (leases d1). l_workspaceId l = i \<longrightarrow> isClosed (l_state l)"
  using assms
  by (auto simp: prepareLeaseTransition_def Let_def pendingWorkspaceLeases_def filter_empty_conv split: if_splits)

lemma if_or3: "(if a then x else if b then x else if c then x else y) = (if a \<or> b \<or> c then x else y)"
  by simp

lemma transitionWorkspace_cases:
  assumes run: "transitionWorkspace u d i req = Inr (res, d')"
  obtains (stay) "res = None" and "d' = d \<or> d' = fenceWorkspaceLeaseRows i (rq_at req) d"
  | (moved) cur d1 row where "row_by ws_id i (workspaces d) = Some cur" and "permitsTransition cur req"
      and "ws_purgeRequestedAt cur \<noteq> None \<Longrightarrow> rq_to req \<notin> {Provisioning, Connected, Ready, Preserving, Queued}"
      and "rq_to req = Ready \<Longrightarrow> setupLeaseClosed d cur"
      and "prepareLeaseTransition i (rq_to req) (rq_at req) d = (True, d1)"
      and "commit_transition u d1 cur req = Inr (row, d')" and "res = Some row"
proof (cases "row_by ws_id i (workspaces d)")
  case None
  then show thesis using run stay by (simp add: transitionWorkspace_def)
next
  case (Some cur)
  obtain ok d1 where prep: "prepareLeaseTransition i (rq_to req) (rq_at req) d = (ok, d1)"
    by (cases "prepareLeaseTransition i (rq_to req) (rq_at req) d")
  let ?stop = "\<not> permitsTransition cur req
    \<or> (ws_purgeRequestedAt cur \<noteq> None \<and> rq_to req \<in> set [Provisioning, Connected, Ready, Preserving, Queued])
    \<or> (rq_to req = Ready \<and> \<not> setupLeaseClosed d cur)"
  have eq: "transitionWorkspace u d i req = bindE (run_check req 0) (\<lambda>_. if ?stop then Inr (None, d)
      else if \<not> ok then Inr (None, d1)
      else bindE (commit_transition u d1 cur req) (\<lambda>(row, d2). Inr (Some row, d2)))"
    unfolding transitionWorkspace_def Some option.case prep Let_def prod.case if_or3 ..
  show thesis
  proof (cases ?stop)
    case True
    then have "res = None \<and> d' = d" using run unfolding eq if_P [OF True] by simp
    then show thesis using stay by blast
  next
    case go: False
    show thesis
    proof (cases ok)
      case False
      then have "res = None" "d' = d1" using run unfolding eq if_not_P [OF go] by simp_all
      then show thesis using stay prepareLeaseTransition_cases(1) [OF prep] by blast
    next
      case True
      then obtain row where "commit_transition u d1 cur req = Inr (row, d')" "res = Some row"
        using run unfolding eq if_not_P [OF go] by auto
      then show thesis using moved [OF Some] go prep True by auto
    qed
  qed
qed

lemma transition_good:
  assumes inv: "store_inv d" and run: "transitionWorkspace u d i req = Inr (res, d')"
  shows "good_step d d'"
  using run
proof (cases rule: transitionWorkspace_cases)
  case stay
  then show ?thesis using good_refl [OF inv] fence_good [OF inv] by blast
next
  case (moved cur d1 row)
  have can: "canTransition (ws_state cur) (rq_to req)" using moved(2) by (simp add: permitsTransition_def)
  have cid: "ws_id cur = i" using row_by_SomeD [OF moved(1)] by simp
  note c = commit_transition_Inr [OF moved(6)]
  note p = prepareLeaseTransition_cases [OF moved(5)]
  have base: "lease_ok (lc_entries (abs_store d)) (leaseFences d) (leases d)" using inv by (simp add: store_inv_def)
  have fr: "workspaces d1 = workspaces d" "stateHistory d1 = stateHistory d" using p(1) fence_step(3,4) by auto
  let ?h = "\<lparr> h_id = u_history u, h_workspaceId = i, h_fromState = Some (ws_state cur), h_toState = rq_to req,
      h_reasonCode = ws_reasonCode row, h_occurredAt = rq_at req \<rparr>"
  show ?thesis
  proof (rule good_move [OF inv moved(1), where h = ?h])
    show "row_le cur row" using c transition_row_le [OF can] moved(3) by simp
    show "canTransition (ws_state cur) (ws_state row)" using c can by simp
    show "workspaces d' = set_row ws_id i (\<lambda>_. row) (workspaces d)" using c fr cid by simp
    show "lease_ok (lc_entries (abs_store d)) (leaseFences d') (leases d')"
      using c p(1) base fenced_ok [OF base] by auto
    show "isTerminal (ws_state row) \<Longrightarrow> \<forall>l \<in> set (leases d'). l_workspaceId l = i \<longrightarrow> isClosed (l_state l)"
      using c p(2) by simp
    show "\<forall>l \<in> set (leases d). \<exists>l' \<in> set (leases d'). lease_le l l'"
      using c p(1) fence_step(1) lease_le_refl by metis
    show "set (leaseFences d) \<subseteq> set (leaseFences d')" using c p(1) fence_step(2) by auto
  qed (use c fr cid in simp_all)
qed

section \<open>Admission\<close>

lemma claimWorkspaceAdmission_cases:
  assumes run: "claimWorkspaceAdmission u d claim = Inr (res, d')"
  obtains (stay) "res = None" and "d' = d"
  | (claimed) cur where "row_by ws_id (cm_workspaceId claim) (workspaces d) = Some cur" and "ws_state cur = Queued"
      and "ws_purgeRequestedAt cur = None"
      and "ac_global (countActive d) < cl_global (cm_limits claim)"
      and "count_for (ac_byPrincipal (countActive d)) (ws_principalId cur) < cl_perPrincipal (cm_limits claim)"
      and "count_for (ac_byTemplate (countActive d)) (ws_templateName cur)
             < template_limit (cm_limits claim) (ws_templateName cur)"
      and "res = Some (claimed_row claim cur)"
      and "appendTransition u (claimed_row claim cur) (Some Queued) (ws_reasonCode (claimed_row claim cur)) (cm_at claim)
             (d\<lparr>workspaces := set_row ws_id (ws_id cur) (\<lambda>_. claimed_row claim cur) (workspaces d)\<rparr>) = Inr d'"
proof (cases "row_by ws_id (cm_workspaceId claim) (workspaces d)")
  case None
  then show thesis using run stay by (simp add: claimWorkspaceAdmission_def)
next
  case (Some cur)
  show thesis
  proof (cases "ws_state cur \<noteq> Queued \<or> ws_purgeRequestedAt cur \<noteq> None")
    case True
    then show thesis using run stay Some by (auto simp: claimWorkspaceAdmission_def)
  next
    case False
    then show thesis
      using run stay claimed [OF Some] Some
      by (simp add: claimWorkspaceAdmission_def Let_def not_le split: if_splits)
  qed
qed

lemma claim_good:
  assumes inv: "store_inv d" and run: "claimWorkspaceAdmission u d claim = Inr (res, d')"
  shows "good_step d d'"
  using run
proof (cases rule: claimWorkspaceAdmission_cases)
  case stay
  then show ?thesis using good_refl [OF inv] by simp
next
  case (claimed cur)
  let ?i = "cm_workspaceId claim" and ?row = "claimed_row claim cur"
  have cid: "ws_id cur = ?i" using row_by_SomeD [OF claimed(1)] by simp
  note a = appendTransition_Inr [OF claimed(8)]
  have row: "ws_state ?row = Provisioning" "ws_id ?row = ?i" using cid by (simp_all add: claimed_row_def)
  let ?h = "\<lparr> h_id = u_history u, h_workspaceId = ?i, h_fromState = Some Queued,
        h_toState = Provisioning, h_reasonCode = ws_reasonCode ?row, h_occurredAt = cm_at claim \<rparr>"
  show ?thesis
  proof (rule good_move [OF inv claimed(1), where h = ?h and row = ?row])
    show "row_le cur ?row" using claimed(2,3) unfolding row_le_def same_identity_def
      by (simp add: claimed_row_def isTerminal_def TERMINAL_STATES_def)
    show "canTransition (ws_state cur) (ws_state ?row)" using claimed(2) row by (simp add: canTransition_def)
    show "lease_ok (lc_entries (abs_store d)) (leaseFences d') (leases d')" using a inv by (simp add: store_inv_def)
    show "\<forall>l \<in> set (leases d). \<exists>l' \<in> set (leases d'). lease_le l l'" using a lease_le_refl by force
    show "isTerminal (ws_state ?row) \<Longrightarrow> \<forall>l \<in> set (leases d'). l_workspaceId l = ?i \<longrightarrow> isClosed (l_state l)"
      using row by (simp add: isTerminal_def TERMINAL_STATES_def)
  qed (use a cid row claimed(2) in simp_all)
qed

lemma claimWarmPoolRuntime_cases:
  assumes run: "claimWarmPoolRuntime u d claim = Inr (res, d')"
  obtains (stay) "res = ClaimNone \<or> res = ClaimStale" and "d' = d"
  | (leased) cur rt where "row_by ws_id (ws_id (wk_workspace claim)) (workspaces d) = Some cur"
      and "ws_state cur = Queued" and "ws_purgeRequestedAt cur = None"
      and "ws_changeSeq cur = ws_changeSeq (wk_workspace claim)"
      and "sortValue (ws_outputs cur) = sortValue (ws_outputs (wk_workspace claim))"
      and "warm_candidate d claim cur = Some rt"
      and "res = ClaimLeased (leased_runtime claim rt) (warm_row claim (leased_runtime claim rt) cur)"
      and "workspaces d' = set_row ws_id (ws_id (wk_workspace claim))
             (\<lambda>_. warm_row claim (leased_runtime claim rt) cur) (workspaces d)"
      and "runtimes d' = set_row wr_id (wr_id rt) (leased_runtime claim) (runtimes d)"
      and "stateHistory d' = stateHistory d @ [\<lparr> h_id = u_history u, h_workspaceId = ws_id cur,
             h_fromState = Some Queued, h_toState = Provisioning, h_reasonCode = None, h_occurredAt = wk_at claim \<rparr>]"
      and "leases d' = leases d" and "leaseFences d' = leaseFences d"
proof (cases "row_by ws_id (ws_id (wk_workspace claim)) (workspaces d)")
  case None
  then show thesis using run stay by (simp add: claimWarmPoolRuntime_def)
next
  case (Some cur)
  let ?el = "ws_state cur = Queued \<and> ws_purgeRequestedAt cur = None"
  let ?fr = "ws_changeSeq cur = ws_changeSeq (wk_workspace claim)
    \<and> sortValue (ws_outputs cur) = sortValue (ws_outputs (wk_workspace claim))"
  consider "\<not> ?el" | "?el" "\<not> ?fr" | "?el" "?fr" "warm_candidate d claim cur = None"
    | (go) rt where "?el" "?fr" "warm_candidate d claim cur = Some rt" by (cases "warm_candidate d claim cur") blast+
  then show thesis
  proof cases
    case 1 then show thesis using run stay Some by (auto simp: claimWarmPoolRuntime_def Let_def)
  next
    case 2 then show thesis using run stay Some by (auto simp: claimWarmPoolRuntime_def Let_def)
  next
    case 3 then show thesis using run stay Some by (auto simp: claimWarmPoolRuntime_def Let_def)
  next
    case go
    then show thesis
      using run Some leased [OF Some, of rt] by (simp add: claimWarmPoolRuntime_def Let_def split: if_splits) auto
  qed
qed

lemma warm_claim_good:
  assumes inv: "store_inv d" and run: "claimWarmPoolRuntime u d claim = Inr (res, d')"
  shows "good_step d d'"
  using run
proof (cases rule: claimWarmPoolRuntime_cases)
  case stay
  then show ?thesis using good_refl [OF inv] by simp
next
  case (leased cur rt)
  let ?i = "ws_id (wk_workspace claim)" and ?row = "warm_row claim (leased_runtime claim rt) cur"
  have cid: "ws_id cur = ?i" using row_by_SomeD [OF leased(1)] by simp
  have row: "ws_state ?row = Provisioning" "ws_id ?row = ?i" using cid by (simp_all add: warm_row_def)
  let ?h = "\<lparr> h_id = u_history u, h_workspaceId = ?i, h_fromState = Some Queued,
        h_toState = Provisioning, h_reasonCode = None, h_occurredAt = wk_at claim \<rparr>"
  show ?thesis
  proof (rule good_move [OF inv leased(1), where h = ?h and row = ?row])
    show "row_le cur ?row" using leased(2,3) unfolding row_le_def same_identity_def
      by (simp add: warm_row_def isTerminal_def TERMINAL_STATES_def)
    show "canTransition (ws_state cur) (ws_state ?row)" using leased(2) row by (simp add: canTransition_def)
    show "lease_ok (lc_entries (abs_store d)) (leaseFences d') (leases d')" using leased(11,12) inv by (simp add: store_inv_def)
    show "\<forall>l \<in> set (leases d). \<exists>l' \<in> set (leases d'). lease_le l l'" using leased(11) lease_le_refl by force
    show "isTerminal (ws_state ?row) \<Longrightarrow> \<forall>l \<in> set (leases d'). l_workspaceId l = ?i \<longrightarrow> isClosed (l_state l)"
      using row by (simp add: isTerminal_def TERMINAL_STATES_def)
    show "stateHistory d' = stateHistory d @ [?h]" using leased(10) cid by simp
  qed (use leased(2,8,12) row in simp_all)
qed

section \<open>Creation\<close>

lemma new_workspace_simps [simp]:
  "ws_id (new_workspace w) = wi_id w" "ws_principalId (new_workspace w) = wi_principalId w"
  "ws_externalId (new_workspace w) = wi_externalId w" "ws_idempotencyKey (new_workspace w) = wi_idempotencyKey w"
  "ws_state (new_workspace w) = Queued" "ws_purgeRequestedAt (new_workspace w) = None"
  "ws_requestDigest (new_workspace w) = wi_requestDigest w"
  by (simp_all add: new_workspace_def Let_def)

lemma insertWorkspace_cases:
  assumes run: "insertWorkspace u d w mq = Inr (res, d')"
  obtains (stay) "d' = d" and "insert_conflict d w = Some res \<or> res = CapacityExceeded"
  | (created) "insert_conflict d w = None" and "res = Created (new_workspace w)"
      and "wi_id w \<notin> ws_id ` set (workspaces d)"
      and "\<And>m. mq = Some m \<Longrightarrow> countQueued d < m"
      and "appendTransition u (new_workspace w) None None (wi_createdAt w)
             (d\<lparr>workspaces := workspaces d @ [new_workspace w]\<rparr>) = Inr d'"
proof (cases "insert_conflict d w")
  case (Some r)
  then show thesis using run stay by (simp add: insertWorkspace_def)
next
  case None
  show thesis
  proof (cases "case mq of None \<Rightarrow> False | Some m \<Rightarrow> m \<le> countQueued d")
    case True
    then show thesis using run stay None by (simp add: insertWorkspace_def)
  next
    case False
    then show thesis
      using run None by (intro created) (auto simp: insertWorkspace_def Let_def split: option.splits)
  qed
qed

lemma insert_conflict_None:
  assumes none: "insert_conflict d w = None" and r: "r \<in> set (workspaces d)" "ws_principalId r = wi_principalId w"
  shows "ws_idempotencyKey r \<noteq> wi_idempotencyKey w"
    and "ws_externalId r = wi_externalId w \<Longrightarrow> isTerminal (ws_state r)"
proof -
  let ?p = "\<lambda>r. ws_principalId r = wi_principalId w \<and> ws_idempotencyKey r = wi_idempotencyKey w"
  have a: "List.find ?p (workspaces d) = None"
    using none unfolding insert_conflict_def by (cases "List.find ?p (workspaces d)") simp_all
  then show "ws_idempotencyKey r \<noteq> wi_idempotencyKey w" using r unfolding find_None_iff2 by blast
  have "List.find (\<lambda>r. ws_principalId r = wi_principalId w \<and> ws_externalId r = wi_externalId w
      \<and> \<not> isTerminal (ws_state r)) (workspaces d) = None"
    using none a unfolding insert_conflict_def by simp
  then show "isTerminal (ws_state r)" if "ws_externalId r = wi_externalId w"
    using r that unfolding find_None_iff2 by blast
qed

lemma insert_good:
  assumes inv: "store_inv d" and run: "insertWorkspace u d w mq = Inr (res, d')"
  shows "good_step d d'"
  using run
proof (cases rule: insertWorkspace_cases)
  case stay
  then show ?thesis using good_refl [OF inv] by simp
next
  case created
  let ?row = "new_workspace w"
  note a = appendTransition_Inr [OF created(5)]
  let ?h = "\<lparr> h_id = u_history u, h_workspaceId = wi_id w, h_fromState = None, h_toState = Queued,
        h_reasonCode = None, h_occurredAt = wi_createdAt w \<rparr>"
  have may: "may_create (abs_store d) (ws_id ?row) (entry ?row)"
    unfolding may_create_def
  proof (intro conjI allI impI)
    show "lc_entries (abs_store d) (ws_id ?row) = None" using created(3) by (simp add: row_by_None_iff)
    show "le_state (entry ?row) = Queued" by simp
    fix j e assume "lc_entries (abs_store d) j = Some e \<and> le_principal e = le_principal (entry ?row)"
    then obtain r where r: "row_by ws_id j (workspaces d) = Some r" "e = entry r" "ws_principalId r = wi_principalId w"
      by auto
    have mem: "r \<in> set (workspaces d)" using row_by_SomeD [OF r(1)] by simp
    show "le_idem e \<noteq> le_idem (entry ?row)"
      using insert_conflict_None(1) [OF created(1) mem r(3)] r(2) by simp
    show "isTerminal (le_state e)" if "le_external e = le_external (entry ?row)"
      using insert_conflict_None(2) [OF created(1) mem r(3)] r(2) that by simp
  qed
  have none: "ws_processExecution ?row = None" by (simp add: new_workspace_def Let_def)
  show ?thesis
    by (rule good_insert [OF inv may, where h = ?h]) (use a none in simp_all)
qed

section \<open>Lease transactions\<close>

lemma inv_lease_eq:
  assumes "store_inv d" and "row_by l_id i (leases d) = Some row" and "l \<in> set (leases d)" and "l_id l = i"
  shows "l = row"
proof -
  have "distinct (map l_id (leases d))" using assms(1) unfolding store_inv_def by (blast dest: lease_okD(1))
  then show ?thesis using row_by_mem [of l_id "leases d" l] assms by simp
qed

lemma set_lease_good:
  assumes inv: "store_inv d" and row: "row_by l_id i (leases d) = Some row"
    and le: "lease_le row (f row)" and was: "\<not> isClosed (l_state row)"
    and fen: "\<not> isClosed (l_state (f row)) \<Longrightarrow> fenced d (l_workspaceId row) \<Longrightarrow> l_state (f row) = LRevoking"
  shows "good_step d (set_lease i f d)"
proof -
  let ?g = "\<lambda>l. if l_id l = i then f l else l"
  have ls: "leases (set_lease i f d) = map ?g (leases d)"
    by (simp add: set_lease_def set_row_def update_where_def)
  have g: "lease_le l (?g l)" if "l \<in> set (leases d)" for l
    using inv_lease_eq [OF inv row that] le by (cases "l_id l = i") simp_all
  have keep: "l_id (?g l) = l_id l \<and> l_workspaceId (?g l) = l_workspaceId l" if "l \<in> set (leases d)" for l
    using g [OF that] unfolding lease_le_def by blast
  have base: "lease_ok (lc_entries (abs_store d)) (leaseFences d) (leases d)" using inv by (simp add: store_inv_def)
  have "lease_ok (lc_entries (abs_store d)) (leaseFences d) (map ?g (leases d))"
  proof (rule lease_okI)
    have "map l_id (map ?g (leases d)) = map l_id (leases d)" using keep by simp
    then show "distinct (map l_id (map ?g (leases d)))" using lease_okD(1) [OF base] by metis
    fix l' assume "l' \<in> set (map ?g (leases d))" and o': "\<not> isClosed (l_state l')"
    then obtain l where l: "l' = ?g l" "l \<in> set (leases d)" unfolding set_map by blast
    have o: "\<not> isClosed (l_state l)" using o' was inv_lease_eq [OF inv row l(2)] unfolding l(1) by (cases "l_id l = i") auto
    show "\<exists>e. lc_entries (abs_store d) (l_workspaceId l') = Some e \<and> \<not> isTerminal (le_state e)"
      using lease_okD(2) [OF base l(2) o] keep [OF l(2)] unfolding l(1) by simp
    assume f: "l_workspaceId l' \<in> fst ` set (leaseFences d)"
    show "l_state l' = LRevoking"
    proof (cases "l_id l = i")
      case True
      then have "l' = f row" "l_workspaceId l' = l_workspaceId row"
        using inv_lease_eq [OF inv row l(2)] l(1) keep [OF l(2)] by simp_all
      then show ?thesis using fen o' f unfolding fenced_def by simp
    next
      case False
      then show ?thesis using lease_okD(3) [OF base l(2) o] f l(1) by simp
    qed
  qed
  moreover have "\<forall>l \<in> set (leases d). \<exists>l' \<in> set (map ?g (leases d)). lease_le l l'"
    using g unfolding set_map by blast
  ultimately show ?thesis
    by (intro good_leases [OF inv]) (simp_all add: ls, simp_all add: set_lease_def)
qed

lemma writable_lease_Inr:
  assumes "writable_lease d i = Inr (row, owner)"
  shows "row_by l_id i (leases d) = Some row \<and> row_by ws_id (l_workspaceId row) (workspaces d) = Some owner
    \<and> ws_id owner = l_workspaceId row"
proof -
  obtain r where r: "row_by l_id i (leases d) = Some r"
    using assms by (cases "row_by l_id i (leases d)") (simp_all add: writable_lease_def)
  obtain w where w: "row_by ws_id (l_workspaceId r) (workspaces d) = Some w"
    using assms r by (cases "row_by ws_id (l_workspaceId r) (workspaces d)") (simp_all add: writable_lease_def)
  show ?thesis using assms r w row_by_SomeD [OF w] by (simp add: writable_lease_def)
qed

lemma lease_issued_good:
  assumes inv: "store_inv d" and run: "recordWorkspaceLeaseIssued d i issuer expires n at = Inr (res, d')"
  shows "good_step d d'"
proof -
  obtain row owner where w: "writable_lease d i = Inr (row, owner)"
    using run by (auto simp: recordWorkspaceLeaseIssued_def)
  note r = writable_lease_Inr [OF w]
  show ?thesis
  proof (cases "isClosed (l_state row)")
    case True
    then show ?thesis using run w good_refl [OF inv] by (simp add: recordWorkspaceLeaseIssued_def)
  next
    case False
    let ?state = "if l_state row = LRevoking \<or> fenced d (ws_id owner) \<or> \<not> leaseWorkspaceActive owner (l_purpose row) at
      then LRevoking else if l_state row \<noteq> LDelivered then LIssued else LDelivered"
    let ?f = "\<lambda>l. l\<lparr>l_issuerLeaseId := Some issuer, l_issuerExpiresAt := Some expires,
                      l_credentialBytes := Some n, l_state := ?state, l_updatedAt := at\<rparr>"
    have "d' = set_lease i ?f d"
      using run w False by (auto simp: recordWorkspaceLeaseIssued_def Let_def)
    moreover have "good_step d (set_lease i ?f d)"
      by (rule set_lease_good [OF inv]) (use r False in \<open>auto simp: lease_le_def\<close>)
    ultimately show ?thesis by simp
  qed
qed

lemma lease_delivered_good:
  assumes inv: "store_inv d" and run: "recordWorkspaceLeaseDelivered d i at = Inr (res, d')"
  shows "good_step d d'"
proof -
  obtain row owner where w: "writable_lease d i = Inr (row, owner)"
    using run by (auto simp: recordWorkspaceLeaseDelivered_def)
  note r = writable_lease_Inr [OF w]
  let ?stop = "l_state row \<notin> {LIssued, LDelivered} \<or> (case l_issuerExpiresAt row of None \<Rightarrow> True | Some e \<Rightarrow> e \<le> at)
        \<or> fenced d (ws_id owner) \<or> \<not> leaseWorkspaceActive owner (l_purpose row) at"
  let ?f = "\<lambda>l. l\<lparr>l_state := LDelivered, l_deliveredAt := Some (or_else (l_deliveredAt row) at), l_updatedAt := at\<rparr>"
  have eq: "recordWorkspaceLeaseDelivered d i at =
      (if ?stop then Inr (None, d) else Inr (Some (?f row), set_lease i ?f d))"
    unfolding recordWorkspaceLeaseDelivered_def w bindE_simps prod.case Let_def ..
  show ?thesis
  proof (cases ?stop)
    case True
    then show ?thesis using run good_refl [OF inv] unfolding eq if_P [OF True] by simp
  next
    case False
    then have o: "\<not> isClosed (l_state row)" "\<not> fenced d (l_workspaceId row)" using r by (auto simp: isClosed_def)
    have "good_step d (set_lease i ?f d)"
      by (rule set_lease_good [OF inv]) (use r o in \<open>auto simp: lease_le_def\<close>)
    then show ?thesis using run unfolding eq if_not_P [OF False] by simp
  qed
qed

lemma lease_close_good:
  assumes inv: "store_inv d" and w: "writable_lease d i = Inr (row, owner)" and o: "\<not> isClosed (l_state row)"
    and s: "s = LRevoking \<or> isClosed s"
  shows "good_step d (set_lease i (\<lambda>l. l\<lparr>l_state := s, l_closedAt := c, l_updatedAt := at\<rparr>) d)"
    and "good_step d (set_lease i (\<lambda>l. l\<lparr>l_state := LRevoking, l_updatedAt := at\<rparr>) d)"
  by (rule set_lease_good [OF inv]; use writable_lease_Inr [OF w] o s in \<open>auto simp: lease_le_def\<close>)+

lemma lease_revocation_good:
  assumes inv: "store_inv d" and run: "requestWorkspaceLeaseRevocation d i at = Inr (res, d')"
  shows "good_step d d'"
proof -
  obtain row owner where w: "writable_lease d i = Inr (row, owner)"
    using run by (auto simp: requestWorkspaceLeaseRevocation_def)
  show ?thesis
    using run w good_refl [OF inv] lease_close_good(2) [OF inv w, where s = LRevoking and at = at]
    by (auto simp: requestWorkspaceLeaseRevocation_def Let_def split: if_splits)
qed

lemma lease_revoked_good:
  assumes inv: "store_inv d" and run: "recordWorkspaceLeaseRevoked d i req at = Inr (res, d')"
  shows "good_step d d'"
proof -
  obtain row owner where w: "writable_lease d i = Inr (row, owner)"
    using run by (auto simp: recordWorkspaceLeaseRevoked_def)
  show ?thesis
    using run w good_refl [OF inv] lease_close_good(1) [OF inv w, where s = LRevoked and c = "Some at" and at = at]
    by (auto simp: recordWorkspaceLeaseRevoked_def Let_def isClosed_def split: if_splits)
qed

lemma lease_expired_good:
  assumes inv: "store_inv d" and run: "recordWorkspaceLeaseExpired d i at = Inr (res, d')"
  shows "good_step d d'"
proof -
  obtain row owner where w: "writable_lease d i = Inr (row, owner)"
    using run by (auto simp: recordWorkspaceLeaseExpired_def)
  show ?thesis
    using run w good_refl [OF inv] lease_close_good(1) [OF inv w, where s = LExpired and c = "Some at" and at = at]
    by (auto simp: recordWorkspaceLeaseExpired_def Let_def isClosed_def split: if_splits)
qed

lemma lease_fence_good:
  "store_inv d \<Longrightarrow> fenceWorkspaceLeases d i at = Inr d' \<Longrightarrow> good_step d d'"
  using fence_good by (cases "row_by ws_id i (workspaces d)") (auto simp: fenceWorkspaceLeases_def)

text \<open>A request may close leases that have expired before it adds its own.\<close>

lemma requestWorkspaceLease_cases:
  assumes run: "requestWorkspaceLease sha uuid d input = Inr (res, d')"
  obtains (stay) "d' = d"
  | (added) owner d1 where "row_by ws_id (lr_workspaceId input) (workspaces d) = Some owner"
      and "\<not> fenced d (ws_id owner)" and "leaseWorkspaceActive owner (lr_purpose input) (lr_at input)"
      and "enforceReferenceLimit input d = Inr d1" and "res \<notin> set (leases d1)"
      and "l_id res \<notin> l_id ` set (leases d1)" and "l_workspaceId res = ws_id owner" and "l_state res = LRequested"
      and "d' = d1\<lparr>leases := leases d1 @ [res]\<rparr>"
proof (cases "row_by ws_id (lr_workspaceId input) (workspaces d)")
  case None
  then show thesis using run by (simp add: requestWorkspaceLease_def)
next
  case (Some owner)
  let ?iss = "List.find (\<lambda>s. s_name s = lr_secretName input \<and> s_versionId s = lr_secretVersionId input
                             \<and> s_type s = lr_purpose input \<and> s_retiredAt s = None) (secrets d)"
  let ?old = "List.find (\<lambda>l. l_secretName l = lr_secretName input \<and> l_requestId l = lr_requestId input) (leases d)"
  have act: "\<not> fenced d (ws_id owner)" "leaseWorkspaceActive owner (lr_purpose input) (lr_at input)"
    using run Some by (simp_all add: requestWorkspaceLease_def)
  obtain issuer where iss: "?iss = Some issuer"
    using run Some act by (cases ?iss) (simp_all add: requestWorkspaceLease_def)
  show thesis
  proof (cases ?old)
    case (Some l)
    then show thesis
      using stay run \<open>row_by ws_id (lr_workspaceId input) (workspaces d) = Some owner\<close> act iss
      by (auto simp: requestWorkspaceLease_def)
  next
    case None
    then obtain source d1 where "leaseSourceIdentity owner (lr_purpose input) (lr_secretName input) = Inr source"
      and d1: "enforceReferenceLimit input d = Inr d1" and uu: "uuid \<notin> l_id ` set (leases d1)"
      and res: "res = (new_lease uuid owner input issuer source)
           \<lparr>l_requestDigest := digestOf sha (lease_identity_json (new_lease uuid owner input issuer source))\<rparr>"
      and d': "d' = d1\<lparr>leases := leases d1 @ [res]\<rparr>"
      using run Some act iss by (auto simp: requestWorkspaceLease_def Let_def)
    have "l_id res = uuid" "l_workspaceId res = ws_id owner" "l_state res = LRequested"
      unfolding res by (simp_all add: new_lease_def)
    then show thesis using added [OF Some act d1] uu d' by blast
  qed
qed

lemma enforceReferenceLimit_good:
  assumes inv: "store_inv d" and run: "enforceReferenceLimit input d = Inr d1"
  shows "good_step d d1" and "leaseFences d1 = leaseFences d" and "workspaces d1 = workspaces d"
    and "stateHistory d1 = stateHistory d"
    and "length (filter (same_reference input) (leases d1)) < 2"
proof -
  let ?p = "\<lambda>l. same_reference input l \<and> (case l_issuerExpiresAt l of None \<Rightarrow> False | Some e \<Rightarrow> e \<le> lr_at input)"
  let ?f = "\<lambda>l. l\<lparr>l_state := LExpired, l_closedAt := Some (lr_at input), l_updatedAt := lr_at input\<rparr>"
  have d1: "d1 = d\<lparr>leases := update_where ?p ?f (leases d)\<rparr>"
    and "length (filter (same_reference input) (leases d1)) < 2"
    using run unfolding enforceReferenceLimit_def Let_def by (auto simp: not_le split: if_splits)
  then show "leaseFences d1 = leaseFences d" "workspaces d1 = workspaces d" "stateHistory d1 = stateHistory d"
    "length (filter (same_reference input) (leases d1)) < 2" by simp_all
  have base: "lease_ok (lc_entries (abs_store d)) (leaseFences d) (leases d)" using inv by (simp add: store_inv_def)
  have "lease_ok (lc_entries (abs_store d)) (leaseFences d) (update_where ?p ?f (leases d))"
  proof (rule lease_okI)
    have "map l_id (update_where ?p ?f (leases d)) = map l_id (leases d)" by (rule map_update_where) simp
    then show "distinct (map l_id (update_where ?p ?f (leases d)))" using lease_okD(1) [OF base] by metis
    fix l assume "l \<in> set (update_where ?p ?f (leases d))" and o: "\<not> isClosed (l_state l)"
    then obtain l0 where "l0 \<in> set (leases d)" "?p l0 \<and> l = ?f l0 \<or> \<not> ?p l0 \<and> l = l0"
      unfolding in_update_where by blast
    moreover have "\<not> isClosed (l_state (?f l0)) \<Longrightarrow> False" for l0 by (simp add: isClosed_def)
    ultimately have mem: "l \<in> set (leases d)" using o by blast
    show "\<exists>e. lc_entries (abs_store d) (l_workspaceId l) = Some e \<and> \<not> isTerminal (le_state e)"
      using lease_okD(2) [OF base mem o] .
    show "l_workspaceId l \<in> fst ` set (leaseFences d) \<Longrightarrow> l_state l = LRevoking"
      using lease_okD(3) [OF base mem o] .
  qed
  moreover have "\<forall>l \<in> set (leases d). \<exists>l' \<in> set (update_where ?p ?f (leases d)). lease_le l l'"
    by (rule update_lease_le) (simp add: lease_le_def same_reference_def)
  ultimately show "good_step d d1"
    unfolding d1 by (intro good_leases [OF inv]) simp_all
qed

lemma lease_request_good:
  assumes inv: "store_inv d" and run: "requestWorkspaceLease sha uuid d input = Inr (res, d')"
  shows "good_step d d'"
  using run
proof (cases rule: requestWorkspaceLease_cases)
  case stay
  then show ?thesis using good_refl [OF inv] by simp
next
  case (added owner d1)
  note e = enforceReferenceLimit_good [OF inv added(4)]
  have inv1: "store_inv d1" and le1: "store_le d d1" using e(1) by (simp_all add: good_step_def)
  have base: "lease_ok (lc_entries (abs_store d1)) (leaseFences d1) (leases d1)" using inv1 by (simp add: store_inv_def)
  have absd: "abs_store d1 = abs_store d" unfolding abs_store_def e(3,4) by simp
  have oid: "ws_id owner = lr_workspaceId input" using row_by_SomeD [OF added(1)] by simp
  have ent: "lc_entries (abs_store d1) (l_workspaceId res) = Some (entry owner)"
    using added(1,7) e(3) oid by simp
  have live: "\<not> isTerminal (ws_state owner)"
    using added(3) by (auto simp: leaseWorkspaceActive_def isTerminal_def TERMINAL_STATES_def split: if_splits)
  have "lease_ok (lc_entries (abs_store d1)) (leaseFences d1) (leases d1 @ [res])"
  proof (rule lease_okI)
    show "distinct (map l_id (leases d1 @ [res]))" using lease_okD(1) [OF base] added(6) by simp
    fix l assume l: "l \<in> set (leases d1 @ [res])" "\<not> isClosed (l_state l)"
    show "\<exists>e. lc_entries (abs_store d1) (l_workspaceId l) = Some e \<and> \<not> isTerminal (le_state e)"
    proof (cases "l = res")
      case True then show ?thesis using ent live by (intro exI [of _ "entry owner"]) simp
    next
      case False then show ?thesis using lease_okD(2) [OF base _ l(2)] l(1) by simp
    qed
    assume f: "l_workspaceId l \<in> fst ` set (leaseFences d1)"
    show "l_state l = LRevoking"
    proof (cases "l = res")
      case True then show ?thesis using added(2,7) f e(2) by (simp add: fenced_def)
    next
      case False then show ?thesis using lease_okD(3) [OF base _ l(2) f] l(1) by simp
    qed
  qed
  moreover have "\<forall>l \<in> set (leases d). \<exists>l' \<in> set (leases d1 @ [res]). lease_le l l'"
    using le1 unfolding store_le_def by fastforce
  ultimately show ?thesis
    unfolding added(9) absd by (intro good_leases [OF inv]) (simp_all add: e(2,3,4) absd)
qed

section \<open>Operations and the tables beside\<close>

lemma insertOperation_good:
  assumes inv: "store_inv d" and run: "insertOperation d input mx = Inr (res, d')"
  shows "good_step d d'"
proof (cases "List.find (\<lambda>o'. op_principalId o' = op_principalId input \<and> op_kind o' = op_kind input
                       \<and> op_idempotencyKey o' = op_idempotencyKey input) (operations d)")
  case (Some e)
  then show ?thesis using run good_refl [OF inv] by (simp add: insertOperation_def)
next
  case None
  then obtain d1 where d1: "mark_purge d input = Inr d1"
    and d': "d' = (journalOperation input (mark_deleting d1 input))
               \<lparr>operations := operations (journalOperation input (mark_deleting d1 input)) @ [input]\<rparr>"
    using run by (auto simp: insertOperation_def admitIntent_def Let_def)
  have fr: "workspaces d' = workspaces d1" "stateHistory d' = stateHistory d1" "leases d' = leases d1"
      "leaseFences d' = leaseFences d1"
    unfolding d' by (simp_all add: journalOperation_def mark_deleting_def split: option.split)
  let ?f = "\<lambda>r. r\<lparr>ws_purgeRequestedAt := Some (or_else (ws_purgeRequestedAt r) (op_createdAt input))\<rparr>"
  have le: "row_le r (?f r) \<and> ws_state (?f r) = ws_state r" for r unfolding row_le_def same_identity_def by auto
  have "d1 = d \<or> (\<exists>i. d1 = set_workspace i ?f d)"
    using d1 unfolding mark_purge_def by (cases "op_workspaceId input") (auto split: if_splits)
  then show ?thesis
  proof (elim disjE exE)
    assume "d1 = d"
    then show ?thesis using good_frame [OF inv] fr by simp
  next
    fix i assume i: "d1 = set_workspace i ?f d"
    show ?thesis
      by (rule good_keep [OF inv, of i ?f]) (use le in \<open>simp_all add: fr i set_workspace_def\<close>)
  qed
qed

text \<open>Operations that write none of the tables the lifecycle is about.\<close>

definition frames :: "store \<Rightarrow> store \<Rightarrow> bool" where
  "frames d d' \<longleftrightarrow> workspaces d' = workspaces d \<and> stateHistory d' = stateHistory d
     \<and> leases d' = leases d \<and> leaseFences d' = leaseFences d"

lemma frames_good: "store_inv d \<Longrightarrow> frames d d' \<Longrightarrow> good_step d d'"
  unfolding frames_def by (blast intro: good_frame)

lemma frames_ops [simp]:
  "frames d (snd (insertWarmPoolRuntime d rt))"
  "frames d (updateWarmPoolRuntime d i p at)"
  "frames d (updateOperation d i q at)"
  "frames d (snd (insertCheckpoint d c))"
  "frames d (updateWorkspaceStorage d i sp at)"
  "frames d (snd (claimDueEvents d now limit))"
  "frames d (markEventDelivered d i at)"
  "frames d (markEventFailed d i code at)"
  by (simp_all add: frames_def insertWarmPoolRuntime_def updateWarmPoolRuntime_def updateOperation_def
      insertCheckpoint_def updateWorkspaceStorage_def claimDueEvents_def Let_def markEventDelivered_def
      markEventFailed_def split: option.split)

lemma frames_partial [simp]:
  "updateCheckpoint d i cp at = Inr d' \<Longrightarrow> frames d d'"
  "insertWorkspaceStorage d st = Inr (x, d') \<Longrightarrow> frames d d'"
  "appendEvent uuid d w t pl at = Inr d' \<Longrightarrow> frames d d'"
  by (auto simp: frames_def updateCheckpoint_def insertWorkspaceStorage_def appendEvent_def
      split: option.splits if_splits)

end
