(* ===== verification/Execution_Steps.thy ===== *)
theory Execution_Steps
  imports Execution_Store Workspace_Steps
begin

text \<open>
  The invariant of the execution ledger and what each of its transactions does to it. An execution is known by
  its reference; \<open>getExecution\<close> is the abstract ledger, a partial function from references to records, and
  every transaction either adds a reference that was not there, for a workspace without a purge request, or
  advances records by \<open>execution_le\<close>, or, for a purged workspace, forgets one.
\<close>

section \<open>Comparing canonical texts\<close>

lemma reference_document: "document (reference_json x)"
  by (simp add: reference_json_def)

lemma owner_name_inj: "owner_name a = owner_name b \<longleftrightarrow> a = b"
  by (cases a; cases b) simp_all

lemma reference_text [simp]: "canonicalJson (reference_json x) = canonicalJson (reference_json y) \<longleftrightarrow> x = y"
proof -
  have "sortValue (reference_json x) = sortValue (reference_json y) \<longleftrightarrow> same_document (reference_json x) (reference_json y)"
    by (rule sortValue_eq_iff [OF reference_document reference_document])
  also have "\<dots> \<longleftrightarrow> x = y"
    by (cases x; cases y) (auto simp: reference_json_def same_document.simps owner_name_inj)
  finally show ?thesis using canonicalJson_eq_iff [OF reference_document [THEN document_defined] reference_document [THEN document_defined]] by simp
qed

abbreviation execution_ref :: "execution_record \<Rightarrow> execution_reference" where
  "execution_ref e \<equiv> ac_execution (er_acceptance e)"

lemma same_execution_iff [simp]: "same_execution x e \<longleftrightarrow> execution_ref e = x"
  by (simp add: same_execution_def)

lemma sameExecution_Some [simp]: "sameExecution a x = Some e \<longleftrightarrow> a = Some e \<and> execution_ref e = x"
  by (auto simp: sameExecution_def split: option.splits)

lemma execution_le_ref: "execution_le e e' \<Longrightarrow> execution_ref e' = execution_ref e"
  by (simp add: execution_le_def)

section \<open>The invariant of the ledger\<close>

text \<open>Each execution of a conversation request is of the request's principal and id, in a workspace of that
  principal; no two requests hold the same execution; and per workspace and conversation at most one execution
  is not finalized.\<close>

definition request_slot :: "workspace_row list \<Rightarrow> conversation_request_row \<Rightarrow> execution_record \<Rightarrow> bool" where
  "request_slot ws q e \<longleftrightarrow> xr_owner (execution_ref e) = OwnerConversation
     \<and> xr_requestId (execution_ref e) = cq_requestId q \<and> ac_callerPrincipalId (er_acceptance e) = cq_principalId q
     \<and> (\<exists>w \<in> set ws. ws_id w = xr_workspaceId (execution_ref e) \<and> ws_principalId w = cq_principalId q)"

definition requests_inv :: "workspace_row list \<Rightarrow> conversation_request_row list \<Rightarrow> bool" where
  "requests_inv ws qs \<longleftrightarrow> distinct (map request_key qs)
     \<and> (\<forall>q \<in> set qs. \<forall>e. cq_execution q = Some e \<longrightarrow> request_slot ws q e)
     \<and> (\<forall>q \<in> set qs. \<forall>q' \<in> set qs. \<forall>e e'. cq_execution q = Some e \<and> cq_execution q' = Some e' \<longrightarrow>
          (execution_ref e = execution_ref e'
            \<or> xr_workspaceId (execution_ref e) = xr_workspaceId (execution_ref e')
               \<and> cq_conversationId q = cq_conversationId q' \<and> er_finalizedAt e = None \<and> er_finalizedAt e' = None) \<longrightarrow> q = q')"

definition exec_inv :: "store \<Rightarrow> bool" where
  "exec_inv d \<longleftrightarrow> requests_inv (workspaces d) (conversationRequests d)
     \<and> (\<forall>w \<in> set (workspaces d). \<forall>e. ws_processExecution w = Some e \<longrightarrow> process_of (ws_id w) e)"

lemma requests_invD:
  assumes "requests_inv ws qs"
  shows "distinct (map request_key qs)"
    and "q \<in> set qs \<Longrightarrow> cq_execution q = Some e \<Longrightarrow> request_slot ws q e"
    and "q \<in> set qs \<Longrightarrow> q' \<in> set qs \<Longrightarrow> cq_execution q = Some e \<Longrightarrow> cq_execution q' = Some e' \<Longrightarrow>
      execution_ref e = execution_ref e' \<Longrightarrow> q = q'"
  using assms unfolding requests_inv_def by blast+

lemma find_exists: "x \<in> set xs \<Longrightarrow> P x \<Longrightarrow> \<exists>y. List.find P xs = Some y"
  by (induction xs) auto

lemma owner_rowD:
  assumes "owner_row d p x = Some q"
  obtains e where "q \<in> set (conversationRequests d)" "cq_principalId q = p" "cq_requestId q = xr_requestId x"
    "cq_execution q = Some e" "execution_ref e = x"
proof -
  have m: "q \<in> set (owner_rows d p x)" "sameExecution (cq_execution q) x \<noteq> None"
    using find_SomeD [OF assms [unfolded owner_row_def]] by simp_all
  then obtain e where "cq_execution q = Some e" "execution_ref e = x" by auto
  then show ?thesis using m(1) unfolding owner_rows_def by (intro that) simp_all
qed

lemma owner_row_exists:
  assumes "q \<in> set (conversationRequests d)" "cq_principalId q = p" "cq_requestId q = xr_requestId x"
    "cq_execution q = Some e" "execution_ref e = x"
  shows "\<exists>q'. owner_row d p x = Some q'"
  unfolding owner_row_def using assms by (intro find_exists [of q]) (simp_all add: owner_rows_def)

lemma owner_row_iff:
  assumes inv: "requests_inv ws (conversationRequests d)"
  shows "Option.bind (owner_row d p x) cq_execution = Some e \<longleftrightarrow>
    (\<exists>q \<in> set (conversationRequests d). cq_principalId q = p \<and> cq_execution q = Some e \<and> execution_ref e = x)"
    (is "?l \<longleftrightarrow> ?r")
proof
  assume ?l
  then obtain q where q: "owner_row d p x = Some q" "cq_execution q = Some e" by (auto simp: bind_eq_Some_conv)
  show ?r by (rule owner_rowD [OF q(1)]) (use q(2) in auto)
next
  assume ?r
  then obtain q where q: "q \<in> set (conversationRequests d)" "cq_principalId q = p" "cq_execution q = Some e" "execution_ref e = x"
    by blast
  have "cq_requestId q = xr_requestId x" using requests_invD(2) [OF inv q(1,3)] q(4) by (simp add: request_slot_def)
  from owner_row_exists [OF q(1,2) this q(3,4)] obtain q' where q': "owner_row d p x = Some q'" by blast
  obtain e' where e': "q' \<in> set (conversationRequests d)" "cq_execution q' = Some e'" "execution_ref e' = x"
    by (rule owner_rowD [OF q'])
  have "q' = q" using requests_invD(3) [OF inv e'(1) q(1) e'(2) q(3)] e'(3) q(4) by simp
  then show ?l using q' q(3) by simp
qed

section \<open>How a transaction may change the ledger\<close>

definition purged :: "store \<Rightarrow> ident \<Rightarrow> bool" where
  "purged d i \<longleftrightarrow> (\<exists>w \<in> set (workspaces d). ws_id w = i \<and> ws_purgeRequestedAt w \<noteq> None)"

definition ledger_le :: "store \<Rightarrow> store \<Rightarrow> bool" where
  "ledger_le d d' \<longleftrightarrow>
     (\<forall>x. slot_le (\<lambda>e. execution_ref e = x) (purged d (xr_workspaceId x)) (purged d' (xr_workspaceId x))
        (getExecution d x) (getExecution d' x))
     \<and> (\<forall>i. purged d i \<longrightarrow> purged d' i)"

lemma ledger_le_refl [simp]: "ledger_le d d"
  by (simp add: ledger_le_def)

lemma ledger_le_trans:
  assumes ab: "ledger_le a b" and bc: "ledger_le b c"
  shows "ledger_le a c"
  unfolding ledger_le_def
proof (intro conjI allI impI)
  fix x
  have p: "purged a i \<longrightarrow> purged b i" "purged b i \<longrightarrow> purged c i" for i using ab bc unfolding ledger_le_def by blast+
  show "slot_le (\<lambda>e. execution_ref e = x) (purged a (xr_workspaceId x)) (purged c (xr_workspaceId x)) (getExecution a x) (getExecution c x)"
  proof (rule slot_le_trans [where p' = "purged b (xr_workspaceId x)" and b = "getExecution b x"])
    show "execution_ref e' = x" if "execution_ref e = x" "execution_le e e'" for e e'
      using execution_le_ref [OF that(2)] that(1) by simp
  qed (use ab bc p in \<open>simp_all add: ledger_le_def\<close>)
  show "purged c i" if "purged a i" for i using p that by blast
qed

text \<open>Under the invariant the ledger is read off the two tables.\<close>

lemma getExecution_process:
  assumes "xr_owner x = OwnerProcess"
  shows "getExecution d x = Option.bind (row_by ws_id (xr_workspaceId x) (workspaces d)) (\<lambda>w. sameExecution (ws_processExecution w) x)"
  using assms by (simp add: getExecution_def readExecution_def)

lemma inv_row_by: "store_inv d \<Longrightarrow> w \<in> set (workspaces d) \<Longrightarrow> row_by ws_id (ws_id w) (workspaces d) = Some w"
  by (simp add: store_inv_def row_by_mem)

lemma getExecution_request:
  assumes inv: "store_inv d" "exec_inv d" and x: "xr_owner x = OwnerConversation"
  shows "getExecution d x = Some e \<longleftrightarrow> (\<exists>q \<in> set (conversationRequests d). cq_execution q = Some e \<and> execution_ref e = x)"
proof -
  have r: "requests_inv (workspaces d) (conversationRequests d)" using inv(2) by (simp add: exec_inv_def)
  show ?thesis
  proof
    assume "getExecution d x = Some e"
    then show "\<exists>q \<in> set (conversationRequests d). cq_execution q = Some e \<and> execution_ref e = x"
      using x owner_row_iff [OF r] by (auto simp: getExecution_def readExecution_def bind_eq_Some_conv)
  next
    assume "\<exists>q \<in> set (conversationRequests d). cq_execution q = Some e \<and> execution_ref e = x"
    then obtain q where q: "q \<in> set (conversationRequests d)" "cq_execution q = Some e" "execution_ref e = x" by blast
    obtain w where w: "w \<in> set (workspaces d)" "ws_id w = xr_workspaceId x" "ws_principalId w = cq_principalId q"
      using requests_invD(2) [OF r q(1,2)] q(3) unfolding request_slot_def by blast
    have "row_by ws_id (xr_workspaceId x) (workspaces d) = Some w" using inv_row_by [OF inv(1) w(1)] w(2) by simp
    moreover have "Option.bind (owner_row d (ws_principalId w) x) cq_execution = Some e"
      unfolding owner_row_iff [OF r] using q w(3) by auto
    ultimately show "getExecution d x = Some e" using x by (simp add: getExecution_def readExecution_def)
  qed
qed

text \<open>Workspaces: every row advances by \<open>row_le\<close>, and a new row has no execution.\<close>

lemma purged_iff:
  assumes "store_inv d" and "w \<in> set (workspaces d)" and "ws_id w = i"
  shows "purged d i \<longleftrightarrow> ws_purgeRequestedAt w \<noteq> None"
proof -
  have "v = w" if "v \<in> set (workspaces d)" "ws_id v = i" for v
    using inv_row_by [OF assms(1) that(1)] inv_row_by [OF assms(1,2)] that(2) assms(3) by simp
  then show ?thesis unfolding purged_def using assms(2,3) by blast
qed

lemma le_row:
  assumes "store_le d d'" and "w \<in> set (workspaces d)"
  obtains w' where "w' \<in> set (workspaces d')" and "row_le w w'" and "ws_id w' = ws_id w" and "ws_principalId w' = ws_principalId w"
proof -
  obtain w' where w': "w' \<in> set (workspaces d')" "row_le w w'" using assms unfolding store_le_def by blast
  then show ?thesis using row_le_identity [OF w'(2)] unfolding same_identity_def by (intro that [of w']) simp_all
qed

lemma purged_mono:
  assumes "store_le d d'" and "purged d i"
  shows "purged d' i"
proof -
  obtain w where w: "w \<in> set (workspaces d)" "ws_id w = i" "ws_purgeRequestedAt w \<noteq> None" using assms(2) unfolding purged_def by blast
  obtain w' where w': "w' \<in> set (workspaces d')" "row_le w w'" "ws_id w' = ws_id w" by (rule le_row [OF assms(1) w(1)])
  then show ?thesis unfolding purged_def using row_le_purge(1) [OF w'(2) w(3)] w by metis
qed

lemma process_ledger:
  assumes inv: "store_inv d" "store_inv d'" and le: "store_le d d'" and fresh: "fresh_rows d d'"
    and x: "xr_owner x = OwnerProcess"
  shows "slot_le (\<lambda>e. execution_ref e = x) (purged d (xr_workspaceId x)) (purged d' (xr_workspaceId x))
    (getExecution d x) (getExecution d' x)"
proof (cases "row_by ws_id (xr_workspaceId x) (workspaces d)")
  case None
  have "sameExecution (ws_processExecution w) x = None"
    if "row_by ws_id (xr_workspaceId x) (workspaces d') = Some w" for w
  proof -
    have "ws_id w \<notin> set (map ws_id (workspaces d))" using None row_by_SomeD [OF that] by (simp add: row_by_None_iff)
    then have "ws_processExecution w = None" using fresh row_by_SomeD [OF that] unfolding fresh_rows_def by blast
    then show ?thesis by (simp add: sameExecution_def)
  qed
  then have "getExecution d' x = None"
    unfolding getExecution_process [OF x] by (cases "row_by ws_id (xr_workspaceId x) (workspaces d')") simp_all
  then show ?thesis using None by (simp add: getExecution_process [OF x])
next
  case (Some w)
  note w = row_by_SomeD [OF Some]
  obtain w' where w': "w' \<in> set (workspaces d')" "row_le w w'" "ws_id w' = ws_id w"
    using le_row [OF le] w by blast
  have r': "row_by ws_id (xr_workspaceId x) (workspaces d') = Some w'" using inv_row_by [OF inv(2) w'(1)] w'(3) w by simp
  have p: "purged d (xr_workspaceId x) \<longleftrightarrow> ws_purgeRequestedAt w \<noteq> None" "purged d' (xr_workspaceId x) \<longleftrightarrow> ws_purgeRequestedAt w' \<noteq> None"
    using purged_iff [OF inv(1)] purged_iff [OF inv(2) w'(1)] w w'(3) by simp_all
  have "slot_le (\<lambda>e. execution_ref e = x) (ws_purgeRequestedAt w \<noteq> None) (ws_purgeRequestedAt w' \<noteq> None)
      (sameExecution (ws_processExecution w) x) (sameExecution (ws_processExecution w') x)"
    using row_le_slot [OF w'(2)] execution_le_ref
    by (cases "ws_processExecution w"; cases "ws_processExecution w'") (auto simp: sameExecution_def slot_le_def)
  then show ?thesis unfolding getExecution_process [OF x] Some r' p by simp
qed

text \<open>Requests: records advance in place, and at most one new execution is added.\<close>

definition advances :: "conversation_request_row \<Rightarrow> conversation_request_row \<Rightarrow> bool" where
  "advances q q' \<longleftrightarrow> request_key q' = request_key q
     \<and> (\<exists>e e'. cq_execution q = Some e \<and> cq_execution q' = Some e' \<and> execution_le e e')"

definition new_slot :: "store \<Rightarrow> conversation_request_row \<Rightarrow> execution_record \<Rightarrow> bool" where
  "new_slot d q e \<longleftrightarrow> request_slot (workspaces d) q e \<and> getExecution d (execution_ref e) = None
     \<and> \<not> purged d (xr_workspaceId (execution_ref e))
     \<and> (\<forall>q' \<in> set (conversationRequests d). \<forall>e'. cq_execution q' = Some e' \<and> er_finalizedAt e' = None
          \<and> xr_workspaceId (execution_ref e') = xr_workspaceId (execution_ref e) \<longrightarrow> cq_conversationId q' \<noteq> cq_conversationId q)"

definition requests_step :: "store \<Rightarrow> store \<Rightarrow> bool" where
  "requests_step d d' \<longleftrightarrow> distinct (map request_key (conversationRequests d'))
     \<and> (\<forall>q \<in> set (conversationRequests d). cq_execution q \<noteq> None \<longrightarrow> (\<exists>q' \<in> set (conversationRequests d'). advances q q'))
     \<and> (\<exists>fresh. \<forall>q' \<in> set (conversationRequests d').
          cq_execution q' = None \<or> (\<exists>q \<in> set (conversationRequests d). advances q q')
          \<or> (q' = fresh \<and> (\<exists>e. cq_execution q' = Some e \<and> new_slot d q' e)))"

lemma advancesD:
  assumes "advances q q'"
  obtains e e' where "cq_execution q = Some e" "cq_execution q' = Some e'" "execution_le e e'"
    "execution_ref e' = execution_ref e" "cq_principalId q' = cq_principalId q" "cq_conversationId q' = cq_conversationId q"
    "cq_requestId q' = cq_requestId q" "er_finalizedAt e' = None \<longrightarrow> er_finalizedAt e = None"
    "er_acceptance e' = er_acceptance e"
proof -
  obtain e e' where e: "cq_execution q = Some e" "cq_execution q' = Some e'" "execution_le e e'"
    using assms unfolding advances_def by blast
  show ?thesis
  proof (rule that [OF e execution_le_ref [OF e(3)]])
    show "er_finalizedAt e' = None \<longrightarrow> er_finalizedAt e = None" using execution_leD(7) [OF e(3)] by blast
    show "er_acceptance e' = er_acceptance e" using execution_leD(1) [OF e(3)] .
  qed (use assms in \<open>simp_all add: advances_def request_key_def\<close>)
qed

lemma key_unique: "distinct (map request_key qs) \<Longrightarrow> q \<in> set qs \<Longrightarrow> q' \<in> set qs \<Longrightarrow> request_key q = request_key q' \<Longrightarrow> q = q'"
  by (metis row_by_mem option.inject)

lemma slot_mono:
  assumes "store_le d d'" and "request_slot (workspaces d) q e"
  shows "request_slot (workspaces d') q e"
proof -
  obtain w where w: "w \<in> set (workspaces d)" "ws_id w = xr_workspaceId (execution_ref e)" "ws_principalId w = cq_principalId q"
    using assms(2) unfolding request_slot_def by blast
  obtain w' where "w' \<in> set (workspaces d')" "ws_id w' = ws_id w" "ws_principalId w' = ws_principalId w"
    using le_row [OF assms(1) w(1)] by metis
  then show ?thesis using assms(2) w unfolding request_slot_def by metis
qed

lemma step_origin:
  assumes st: "requests_step d d'" and q': "q' \<in> set (conversationRequests d')" "cq_execution q' = Some e'"
  obtains (old) q e where "q \<in> set (conversationRequests d)" "advances q q'" "cq_execution q = Some e" "execution_le e e'"
  | (new) "new_slot d q' e'"
proof -
  consider q where "q \<in> set (conversationRequests d)" "advances q q'" | "new_slot d q' e'"
    using st q' unfolding requests_step_def by fastforce
  then show ?thesis
  proof cases
    case (1 q)
    obtain e f where "cq_execution q = Some e" "cq_execution q' = Some f" "execution_le e f" by (rule advancesD [OF 1(2)])
    then show ?thesis using old [OF 1] q'(2) by simp
  next
    case 2
    then show ?thesis by (rule new)
  qed
qed

lemma step_unique_new:
  assumes "requests_step d d'" and "q1 \<in> set (conversationRequests d')" "q2 \<in> set (conversationRequests d')"
    and "cq_execution q1 = Some e1" "cq_execution q2 = Some e2"
    and "\<not> (\<exists>q \<in> set (conversationRequests d). advances q q1)" "\<not> (\<exists>q \<in> set (conversationRequests d). advances q q2)"
  shows "q1 = q2"
proof -
  obtain f where "\<forall>q' \<in> set (conversationRequests d').
      cq_execution q' = None \<or> (\<exists>q \<in> set (conversationRequests d). advances q q')
      \<or> (q' = f \<and> (\<exists>e. cq_execution q' = Some e \<and> new_slot d q' e))"
    using assms(1) unfolding requests_step_def by blast
  then have "q1 = f" "q2 = f" using assms by auto
  then show ?thesis by simp
qed

lemma requests_step_slots:
  assumes le: "store_le d d'" and inv: "requests_inv (workspaces d) (conversationRequests d)" and st: "requests_step d d'"
    and q: "q' \<in> set (conversationRequests d')" "cq_execution q' = Some e'"
  shows "request_slot (workspaces d') q' e'"
  using st q
proof (cases rule: step_origin)
  case (old q e)
  have "request_slot (workspaces d') q e" using slot_mono [OF le requests_invD(2) [OF inv old(1,3)]] .
  then show ?thesis using old(2,4) execution_leD(1) [OF old(4)] unfolding request_slot_def advances_def request_key_def by simp
next
  case new
  then show ?thesis using slot_mono [OF le] unfolding new_slot_def by blast
qed

text \<open>Two requests with the same execution, or with two live executions of one conversation and workspace, are
  one: both come from the same request, or one is new, which the new execution's conditions exclude.\<close>

lemma requests_step_one:
  assumes sinv: "store_inv d" and einv: "exec_inv d" and st: "requests_step d d'"
    and q1: "q1 \<in> set (conversationRequests d')" "cq_execution q1 = Some e1"
    and q2: "q2 \<in> set (conversationRequests d')" "cq_execution q2 = Some e2"
    and clash: "execution_ref e1 = execution_ref e2
      \<or> xr_workspaceId (execution_ref e1) = xr_workspaceId (execution_ref e2)
         \<and> cq_conversationId q1 = cq_conversationId q2 \<and> er_finalizedAt e1 = None \<and> er_finalizedAt e2 = None"
    and adv: "p1 \<in> set (conversationRequests d)" "advances p1 q1"
  shows "q1 = q2"
proof -
  have inv: "requests_inv (workspaces d) (conversationRequests d)" using einv by (simp add: exec_inv_def)
  have keys: "distinct (map request_key (conversationRequests d'))" using st unfolding requests_step_def by blast
  obtain a a' where a: "cq_execution p1 = Some a" "cq_execution q1 = Some a'" "execution_ref a' = execution_ref a"
      "cq_conversationId q1 = cq_conversationId p1" "er_finalizedAt a' = None \<longrightarrow> er_finalizedAt a = None"
    by (rule advancesD [OF adv(2)])
  have ae: "a' = e1" using a(2) q1(2) by simp
  show ?thesis
    using st q2
  proof (cases rule: step_origin)
    case (old p2 e)
    obtain b b' where b: "cq_execution p2 = Some b" "cq_execution q2 = Some b'" "execution_ref b' = execution_ref b"
        "cq_conversationId q2 = cq_conversationId p2" "er_finalizedAt b' = None \<longrightarrow> er_finalizedAt b = None"
      by (rule advancesD [OF old(2)])
    have be: "b' = e2" using b(2) q2(2) by simp
    have "p1 = p2"
      using inv adv(1) old(1) a(1) b(1) clash a(3,4,5) b(3,4,5) unfolding requests_inv_def ae be by metis
    then have "request_key q1 = request_key q2" using adv(2) old(2) unfolding advances_def by simp
    then show ?thesis by (rule key_unique [OF keys q1(1) q2(1)])
  next
    case new
    have x: "xr_owner (execution_ref a) = OwnerConversation"
      using requests_invD(2) [OF inv adv(1) a(1)] unfolding request_slot_def by blast
    have "getExecution d (execution_ref a) = Some a"
      unfolding getExecution_request [OF sinv einv x] using adv(1) a(1) by blast
    then have "execution_ref e1 \<noteq> execution_ref e2" using new a(3) ae unfolding new_slot_def by auto
    then show ?thesis using clash new adv(1) a ae unfolding new_slot_def by metis
  qed
qed

lemma requests_step_inv:
  assumes sinv: "store_inv d" and einv: "exec_inv d" and le: "store_le d d'" and st: "requests_step d d'"
  shows "requests_inv (workspaces d') (conversationRequests d')"
proof -
  have inv: "requests_inv (workspaces d) (conversationRequests d)" using einv by (simp add: exec_inv_def)
  have keys: "distinct (map request_key (conversationRequests d'))" using st unfolding requests_step_def by blast
  have one: "q1 = q2"
    if q: "q1 \<in> set (conversationRequests d')" "q2 \<in> set (conversationRequests d')" "cq_execution q1 = Some e1" "cq_execution q2 = Some e2"
      and c: "execution_ref e1 = execution_ref e2
        \<or> xr_workspaceId (execution_ref e1) = xr_workspaceId (execution_ref e2)
           \<and> cq_conversationId q1 = cq_conversationId q2 \<and> er_finalizedAt e1 = None \<and> er_finalizedAt e2 = None" for q1 q2 e1 e2
  proof (cases "\<exists>p \<in> set (conversationRequests d). advances p q1")
    case True
    then show ?thesis using requests_step_one [OF sinv einv st q(1,3,2,4) c] by blast
  next
    case no1: False
    show ?thesis
    proof (cases "\<exists>p \<in> set (conversationRequests d). advances p q2")
      case True
      have "execution_ref e2 = execution_ref e1
        \<or> xr_workspaceId (execution_ref e2) = xr_workspaceId (execution_ref e1)
           \<and> cq_conversationId q2 = cq_conversationId q1 \<and> er_finalizedAt e2 = None \<and> er_finalizedAt e1 = None" using c by auto
      then show ?thesis using requests_step_one [OF sinv einv st q(2,4,1,3)] True by blast
    next
      case False
      then show ?thesis using step_unique_new [OF st q] no1 by blast
    qed
  qed
  show ?thesis
    unfolding requests_inv_def using keys requests_step_slots [OF le inv st] one by blast
qed

lemma request_ledger:
  assumes sinv: "store_inv d" "store_inv d'" and einv: "exec_inv d" "exec_inv d'" and st: "requests_step d d'"
    and x: "xr_owner x = OwnerConversation"
  shows "slot_le (\<lambda>e. execution_ref e = x) (purged d (xr_workspaceId x)) (purged d' (xr_workspaceId x))
    (getExecution d x) (getExecution d' x)"
proof (cases "getExecution d x")
  case None
  have "execution_ref e' = x \<and> \<not> purged d (xr_workspaceId x)" if e': "getExecution d' x = Some e'" for e'
  proof -
    obtain q' where q': "q' \<in> set (conversationRequests d')" "cq_execution q' = Some e'" "execution_ref e' = x"
      using e' unfolding getExecution_request [OF sinv(2) einv(2) x] by blast
    show ?thesis
      using st q'(1,2)
    proof (cases rule: step_origin)
      case (old q e)
      then have "getExecution d x = Some e"
        unfolding getExecution_request [OF sinv(1) einv(1) x] using execution_le_ref [OF old(4)] q'(3) by auto
      then show ?thesis using None by simp
    next
      case new
      then show ?thesis using q'(3) unfolding new_slot_def by blast
    qed
  qed
  then show ?thesis using None by (cases "getExecution d' x") simp_all
next
  case (Some e)
  obtain q where q: "q \<in> set (conversationRequests d)" "cq_execution q = Some e" "execution_ref e = x"
    using Some unfolding getExecution_request [OF sinv(1) einv(1) x] by blast
  obtain q' where q': "q' \<in> set (conversationRequests d')" "advances q q'"
    using st q(1,2) unfolding requests_step_def by blast
  obtain f f' where f: "cq_execution q = Some f" "cq_execution q' = Some f'" "execution_le f f'" "execution_ref f' = execution_ref f"
    by (rule advancesD [OF q'(2)])
  have "getExecution d' x = Some f'"
    unfolding getExecution_request [OF sinv(2) einv(2) x] using q'(1) f q(2,3) by auto
  then show ?thesis using Some f(1,3) q(2) by simp
qed

definition ledger_step :: "store \<Rightarrow> store \<Rightarrow> bool" where
  "ledger_step d d' \<longleftrightarrow> exec_inv d' \<and> ledger_le d d'"

lemma process_inv_step:
  assumes sinv: "store_inv d" "store_inv d'" and einv: "exec_inv d" and le: "store_le d d'" and fresh: "fresh_rows d d'"
    and w': "w' \<in> set (workspaces d')" "ws_processExecution w' = Some e'"
  shows "process_of (ws_id w') e'"
proof -
  have "ws_id w' \<in> set (map ws_id (workspaces d)) \<or> ws_processExecution w' = None"
    using fresh w'(1) unfolding fresh_rows_def by (rule bspec)
  then have "ws_id w' \<in> ws_id ` set (workspaces d)" using w'(2) by simp
  then obtain w where w: "w \<in> set (workspaces d)" "ws_id w = ws_id w'" by (elim imageE) simp
  obtain v where v: "v \<in> set (workspaces d')" "row_le w v" "ws_id v = ws_id w" by (rule le_row [OF le w(1)])
  have "Some v = Some w'"
    using inv_row_by [OF sinv(2) v(1)] inv_row_by [OF sinv(2) w'(1)] unfolding v(3) w(2) by (rule trans [OF sym])
  then have vw: "v = w'" by (rule option.inject [THEN iffD1])
  have slot: "slot_le (process_of (ws_id w)) (ws_purgeRequestedAt w \<noteq> None) (ws_purgeRequestedAt w' \<noteq> None)
      (ws_processExecution w) (Some e')" using row_le_slot [OF v(2)] unfolding vw w'(2) .
  show ?thesis
  proof (cases "ws_processExecution w")
    case None
    then show ?thesis using slot w(2) by simp
  next
    case (Some e)
    then have "process_of (ws_id w) e" using einv w(1) unfolding exec_inv_def by blast
    moreover have "execution_le e e'" using slot Some by simp
    ultimately show ?thesis using process_of_le w(2) by simp
  qed
qed

lemma ledger_shape:
  assumes sinv: "store_inv d" and einv: "exec_inv d" and good: "good_step d d'" and st: "requests_step d d'"
  shows "ledger_step d d'"
proof -
  have sinv': "store_inv d'" and le: "store_le d d'" and fresh: "fresh_rows d d'" using good by (simp_all add: good_step_def)
  have einv': "exec_inv d'"
    unfolding exec_inv_def using requests_step_inv [OF sinv einv le st] process_inv_step [OF sinv sinv' einv le fresh] by blast
  have "slot_le (\<lambda>e. execution_ref e = x) (purged d (xr_workspaceId x)) (purged d' (xr_workspaceId x))
      (getExecution d x) (getExecution d' x)" for x
    using process_ledger [OF sinv sinv' le fresh] request_ledger [OF sinv sinv' einv einv' st]
    by (cases "xr_owner x") simp_all
  then show ?thesis unfolding ledger_step_def ledger_le_def using einv' purged_mono [OF le] by blast
qed

lemma requests_same:
  assumes "exec_inv d" and "conversationRequests d' = conversationRequests d"
  shows "requests_step d d'"
proof -
  have "advances q q" if "cq_execution q \<noteq> None" for q using that by (auto simp: advances_def)
  moreover have "distinct (map request_key (conversationRequests d))"
    using assms(1) unfolding exec_inv_def requests_inv_def by blast
  ultimately show ?thesis unfolding requests_step_def assms(2) by blast
qed

lemma requests_map:
  assumes inv: "exec_inv d" and d': "conversationRequests d' = map g (conversationRequests d)"
    and g: "\<And>q. q \<in> set (conversationRequests d) \<Longrightarrow> request_key (g q) = request_key q
      \<and> (cq_execution q = None \<and> cq_execution (g q) = None \<or> advances q (g q))"
  shows "requests_step d d'"
proof -
  have "map request_key (map g (conversationRequests d)) = map request_key (conversationRequests d)"
    unfolding map_map using g by (intro map_cong) simp_all
  moreover have "distinct (map request_key (conversationRequests d))"
    using inv unfolding exec_inv_def requests_inv_def by blast
  ultimately have keys: "distinct (map request_key (conversationRequests d'))" unfolding d' by (simp only:)
  have "\<exists>q' \<in> set (conversationRequests d'). advances q q'"
    if "q \<in> set (conversationRequests d)" "cq_execution q \<noteq> None" for q
    unfolding d' using g [OF that(1)] that by auto
  moreover have "cq_execution q' = None \<or> (\<exists>q \<in> set (conversationRequests d). advances q q')"
    if q': "q' \<in> set (conversationRequests d')" for q'
  proof -
    obtain q where q: "q \<in> set (conversationRequests d)" "q' = g q" using q' unfolding d' by auto
    have "cq_execution (g q) = None \<or> advances q (g q)" using g [OF q(1)] by blast
    then show ?thesis using q by blast
  qed
  ultimately show ?thesis unfolding requests_step_def using keys by blast
qed

end
