(* ===== verification/Ledger_Ops.thy ===== *)
theory Ledger_Ops
  imports Execution_Steps
begin

text \<open>
  Every transaction of the execution ledger is a good step of the store and a step of the requests table, so
  that it keeps the ledger's invariant and only advances records.
\<close>

section \<open>Writing a record back\<close>

definition ledger_good :: "store \<Rightarrow> store \<Rightarrow> bool" where
  "ledger_good d d' \<longleftrightarrow> good_step d d' \<and> requests_step d d'"

text \<open>A change of tables that hold neither workspaces, history, leases nor requests.\<close>

definition side_tables :: "store \<Rightarrow> store \<Rightarrow> bool" where
  "side_tables d d' \<longleftrightarrow> frames d d' \<and> conversationRequests d' = conversationRequests d"

lemma side_tables_refl [simp]: "side_tables d d"
  by (simp add: side_tables_def frames_def)

lemma side_tables_trans: "side_tables a b \<Longrightarrow> side_tables b c \<Longrightarrow> side_tables a c"
  by (simp add: side_tables_def frames_def)

lemma side_tables_reads:
  assumes "side_tables d d'"
  shows "workspaces d' = workspaces d" "conversationRequests d' = conversationRequests d"
    "owner_row d' p x = owner_row d p x" "getExecution d' x = getExecution d x"
proof -
  show w: "workspaces d' = workspaces d" and c: "conversationRequests d' = conversationRequests d"
    using assms by (simp_all add: side_tables_def frames_def)
  have own: "owner_row d' p x = owner_row d p x" for p by (simp add: owner_row_def owner_rows_def c)
  then show "owner_row d' p x = owner_row d p x" .
  show "getExecution d' x = getExecution d x"
    unfolding getExecution_def readExecution_def w own ..
qed

lemma side_tables_good: "store_inv d \<Longrightarrow> exec_inv d \<Longrightarrow> side_tables d d' \<Longrightarrow> ledger_good d d'"
  unfolding ledger_good_def side_tables_def by (blast intro: frames_good requests_same)

lemma ledger_good_refl: "store_inv d \<Longrightarrow> exec_inv d \<Longrightarrow> ledger_good d d"
  by (rule side_tables_good) simp_all

lemma write_process_good:
  assumes inv: "store_inv d" "exec_inv d" and side: "side_tables d d1" and x: "xr_owner (execution_ref r) = OwnerProcess"
    and get: "getExecution d (execution_ref r) = Some r" and le: "execution_le r r'"
    and run: "writeExecution d1 r' = Inr d'"
  shows "ledger_good d d'"
proof -
  have x': "execution_ref r' = execution_ref r" by (rule execution_le_ref [OF le])
  have d': "d' = set_workspace (xr_workspaceId (execution_ref r)) (\<lambda>w. w\<lparr>ws_processExecution := Some r'\<rparr>) d1"
    using run x unfolding writeExecution_def Let_def x' by simp
  obtain w where w: "row_by ws_id (xr_workspaceId (execution_ref r)) (workspaces d) = Some w" "ws_processExecution w = Some r"
    using get unfolding getExecution_process [OF x] by (auto simp: bind_eq_Some_conv)
  note side' = side [unfolded side_tables_def frames_def]
  have "good_step d d'"
    unfolding d'
  proof (rule set_workspace_frame_good [OF inv(1) w(1)])
    show "row_le w (w\<lparr>ws_processExecution := Some r'\<rparr>)"
      by (simp add: row_le_def same_identity_def event_view_def erased_def w(2) le)
  qed (use side' in simp_all)
  moreover have "requests_step d d'" by (rule requests_same [OF inv(2)]) (use side' in \<open>simp add: d' set_workspace_def\<close>)
  ultimately show ?thesis unfolding ledger_good_def by blast
qed

lemma write_request_good:
  assumes inv: "store_inv d" "exec_inv d" and side: "side_tables d d1" and x: "xr_owner (execution_ref r) = OwnerConversation"
    and get: "getExecution d (execution_ref r) = Some r" and le: "execution_le r r'"
    and run: "writeExecution d1 r' = Inr d'"
  shows "ledger_good d d'"
proof -
  have r: "requests_inv (workspaces d) (conversationRequests d)" using inv(2) by (simp add: exec_inv_def)
  have x': "execution_ref r' = execution_ref r" by (rule execution_le_ref [OF le])
  let ?p = "ac_callerPrincipalId (er_acceptance r')"
  obtain q where q: "owner_row d ?p (execution_ref r) = Some q" and d': "d' = d1\<lparr>conversationRequests :=
      set_row request_key (?p, cq_conversationId q, xr_requestId (execution_ref r)) (\<lambda>q. q\<lparr>cq_execution := Some r'\<rparr>)
        (conversationRequests d1)\<rparr>"
    using run x unfolding writeExecution_def Let_def x' side_tables_reads(3) [OF side]
    by (auto split: option.splits)
  obtain e where e: "q \<in> set (conversationRequests d)" "cq_principalId q = ?p" "cq_requestId q = xr_requestId (execution_ref r)"
      "cq_execution q = Some e" "execution_ref e = execution_ref r"
    by (rule owner_rowD [OF q])
  have "getExecution d (execution_ref r) = Some e"
    unfolding getExecution_request [OF inv x] using e(1,4,5) by blast
  then have er: "e = r" using get by simp
  have key: "request_key q = (?p, cq_conversationId q, xr_requestId (execution_ref r))" using e(2,3) by (simp add: request_key_def)
  have keys: "distinct (map request_key (conversationRequests d))" using requests_invD(1) [OF r] .
  have "requests_step d d'"
  proof (rule requests_map [OF inv(2)])
    show "conversationRequests d' = map (\<lambda>v. if request_key v = request_key q then v\<lparr>cq_execution := Some r'\<rparr> else v) (conversationRequests d)"
      unfolding d' key side_tables_reads(2) [OF side] set_row_def update_where_def by simp
  next
    fix v assume v: "v \<in> set (conversationRequests d)"
    have "cq_execution v = Some r" if "request_key v = request_key q"
      using key_unique [OF keys v e(1) that] e(4) er by simp
    then show "request_key (if request_key v = request_key q then v\<lparr>cq_execution := Some r'\<rparr> else v) = request_key v
      \<and> (cq_execution v = None \<and> cq_execution (if request_key v = request_key q then v\<lparr>cq_execution := Some r'\<rparr> else v) = None
        \<or> advances v (if request_key v = request_key q then v\<lparr>cq_execution := Some r'\<rparr> else v))"
      using le unfolding advances_def by (cases "cq_execution v") (auto simp: request_key_def)
  qed
  moreover have "good_step d d'"
    using side by (intro frames_good [OF inv(1)]) (simp add: side_tables_def frames_def d')
  ultimately show ?thesis unfolding ledger_good_def by blast
qed

lemma write_good:
  assumes inv: "store_inv d" "exec_inv d" and side: "side_tables d d1"
    and get: "getExecution d (execution_ref r) = Some r" and le: "execution_le r r'"
    and run: "writeExecution d1 r' = Inr d'"
  shows "ledger_good d d'"
  using write_process_good [OF inv side _ get le run] write_request_good [OF inv side _ get le run]
  by (cases "xr_owner (execution_ref r)") simp_all

text \<open>The lookup that every operation starts with.\<close>

lemma getExecution_ref:
  assumes inv: "store_inv d" "exec_inv d" and "getExecution d x = Some r"
  shows "execution_ref r = x"
  using assms(3) getExecution_process [of x d] getExecution_request [OF inv, of x r]
  by (cases "xr_owner x") (auto simp: bind_eq_Some_conv)

lemma withOwner_Inr:
  assumes inv: "store_inv d" "exec_inv d" and run: "withOwner d x task = Inr y"
  obtains w r where "row_by ws_id (xr_workspaceId x) (workspaces d) = Some w" "getExecution d x = Some r"
    "execution_ref r = x" "task w r = Inr y"
proof -
  obtain w r where wr: "row_by ws_id (xr_workspaceId x) (workspaces d) = Some w" "readExecution d w x = Some r" "task w r = Inr y"
    using run unfolding withOwner_def executionConflict_def by (auto split: option.splits)
  then have "getExecution d x = Some r" by (simp add: getExecution_def)
  then show ?thesis using that [OF wr(1) _ getExecution_ref [OF inv] wr(3)] by blast
qed

section \<open>Claim, observation, acknowledgement\<close>

lemma claimed_le: "er_cancel r = None \<Longrightarrow> \<not> executionSettled r \<Longrightarrow> execution_le r (claimed_record r at)"
  by (cases "er_dispatchClaimedAt r") (simp_all add: execution_le_def claimed_record_def or_else_def)

lemma settle_le: "\<not> executionSettled r \<Longrightarrow>
    execution_le r (r\<lparr>er_phase := ph, er_settledAt := t, er_outcome := v\<rparr>)"
  by (simp add: execution_le_def)

lemma claim_ledger_good:
  assumes inv: "store_inv d" "exec_inv d" and run: "claimExecution sha prins d x at = Inr (c, d')"
  shows "ledger_good d d'"
proof -
  obtain w :: workspace_row and r where wr: "getExecution d x = Some r" "execution_ref r = x" and task:
      "(if er_cancel r \<noteq> None then Inr (reconcileExecution w r, d)
        else if executionSettled r then Inr (None, d)
        else case bindE (requireExecutionPrincipal prins (ac_callerPrincipalId (er_acceptance r))) (\<lambda>_.
               bindE (validateExecution sha w (er_acceptance r) at (er_conversationIdentity r)) (\<lambda>_.
                 requireExecutionInputs sha d (er_acceptance r))) of
        Inl (ApiError c) \<Rightarrow>
          bindE (writeExecution d (r\<lparr>er_phase := ExLost, er_settledAt := Some (toISOString at), er_outcome := JNull\<rparr>))
            (\<lambda>d'. Inr (None, d'))
      | Inl e \<Rightarrow> Inl e
      | Inr _ \<Rightarrow> bindE (writeExecution d (claimed_record r at)) (\<lambda>d'.
                  Inr (Some (er_dispatchClaimedAt r = None, claimed_record r at), d'))) = Inr (c, d')"
    by (rule withOwner_Inr [OF inv run [unfolded claimExecution_def]]) (rule that, assumption+)
  show ?thesis
  proof (cases "er_cancel r \<noteq> None \<or> executionSettled r")
    case True
    then have "d' = d" using task by (auto split: if_splits)
    then show ?thesis using ledger_good_refl [OF inv] by simp
  next
    case False
    let ?v = "bindE (requireExecutionPrincipal prins (ac_callerPrincipalId (er_acceptance r))) (\<lambda>_.
               bindE (validateExecution sha w (er_acceptance r) at (er_conversationIdentity r)) (\<lambda>_.
                 requireExecutionInputs sha d (er_acceptance r)))"
    have open_r: "er_cancel r = None" "\<not> executionSettled r" using False by blast+
    note le = claimed_le [OF open_r, of at]
      settle_le [OF open_r(2), where ph = ExLost and t = "Some (toISOString at)" and v = JNull]
    have "\<exists>r'. writeExecution d r' = Inr d' \<and> execution_le r r'"
    proof (cases ?v)
      case (Inl e)
      then show ?thesis using task False le(2) by (cases e) (auto simp: bindE_def split: sum.splits)
    next
      case (Inr u)
      then show ?thesis using task False le(1) by (auto simp: bindE_def [of "writeExecution d r'" for r'] split: sum.splits)
    qed
    then show ?thesis using write_good [OF inv side_tables_refl] wr by blast
  qed
qed

lemma observe_ledger_good:
  assumes inv: "store_inv d" "exec_inv d" and run: "observeExecution d x fp phase epoch at outcome = Inr (b, d')"
  shows "ledger_good d d'"
proof -
  obtain w :: workspace_row and r where wr: "getExecution d x = Some r" "execution_ref r = x" and task:
      "(if er_dispatchClaimedAt r = None \<or> ws_connectionEpoch w \<noteq> epoch
        \<or> Option.bind (ws_runtimeRegistration w) rr_endedAt \<noteq> None
        \<or> ac_fingerprint (er_acceptance r) \<noteq> fp
       then Inr (False, d)
       else if executionSettled r
       then Inr (er_phase r = phase \<and> canonicalJson (er_outcome r) = canonicalJson outcome, d)
       else if phase \<notin> {ExRunning, ExTerminal, ExUnknown, ExLost, ExCanceled} then Inr (False, d)
       else bindE (writeExecution d (observed_record r phase at outcome)) (\<lambda>d'. Inr (True, d'))) = Inr (b, d')"
    by (rule withOwner_Inr [OF inv run [unfolded observeExecution_def]]) (rule that, assumption+)
  consider "d' = d" | "\<not> executionSettled r" "writeExecution d (observed_record r phase at outcome) = Inr d'"
    using task by (auto split: if_splits simp: bindE_def split: sum.splits)
  then show ?thesis
  proof cases
    case 1
    then show ?thesis using ledger_good_refl [OF inv] by simp
  next
    case 2
    have "execution_le r (observed_record r phase at outcome)"
      unfolding observed_record_def by (rule settle_le [OF 2(1)])
    then show ?thesis using write_good [OF inv side_tables_refl] wr 2(2) by blast
  qed
qed

lemma acknowledge_ledger_good:
  assumes inv: "store_inv d" "exec_inv d" and run: "acknowledgeExecution d x fp at = Inr d'"
  shows "ledger_good d d'"
proof -
  obtain w :: workspace_row and r where wr: "getExecution d x = Some r" "execution_ref r = x" and task:
      "(if ac_fingerprint (er_acceptance r) \<noteq> fp \<or> \<not> executionSettled r then executionConflict
        else writeExecution d (r\<lparr>er_acknowledgedAt := Some (or_else (er_acknowledgedAt r) (toISOString at))\<rparr>)) = Inr d'"
    by (rule withOwner_Inr [OF inv run [unfolded acknowledgeExecution_def]]) (rule that, assumption+)
  have "execution_le r (r\<lparr>er_acknowledgedAt := Some (or_else (er_acknowledgedAt r) (toISOString at))\<rparr>)"
    by (cases "er_acknowledgedAt r") (simp_all add: execution_le_def or_else_def)
  moreover have "writeExecution d (r\<lparr>er_acknowledgedAt := Some (or_else (er_acknowledgedAt r) (toISOString at))\<rparr>) = Inr d'"
    using task by (simp add: executionConflict_def split: if_splits)
  ultimately show ?thesis using write_good [OF inv side_tables_refl] wr by blast
qed

section \<open>Inputs\<close>

lemma retain_inputs_side: "retain_inputs at xs d = Inr d' \<Longrightarrow> side_tables d d'"
proof (induction xs arbitrary: d)
  case (Cons x xs)
  then obtain t where "retain_inputs at xs (d\<lparr>inputObjects := t\<rparr>) = Inr d'" by (auto split: option.splits)
  then have "side_tables (d\<lparr>inputObjects := t\<rparr>) d'" by (rule Cons.IH)
  then show ?case by (simp add: side_tables_def frames_def)
qed simp

lemma finalizeInputManifest_side:
  assumes "finalizeInputManifest d i at = Inr d'"
  shows "side_tables d d'"
proof -
  consider "d' = d" | d1 xs t where "retain_inputs at xs d = Inr d1" "d' = d1\<lparr>inputManifests := t\<rparr>"
    using assms unfolding finalizeInputManifest_def bindE_def by (auto split: option.splits if_splits sum.splits)
  then show ?thesis
  proof cases
    case (2 d1 xs t)
    then show ?thesis using retain_inputs_side [OF 2(1)] by (simp add: side_tables_def frames_def)
  qed simp
qed

lemma pinExecutionInputs_side:
  assumes "pinExecutionInputs sha d input at = Inr d'"
  shows "side_tables d d'"
  using assms unfolding pinExecutionInputs_def executionConflict_def
  by (auto split: option.splits if_splits simp: side_tables_def frames_def)

lemma good_step_frames: "frames d1 d2 \<Longrightarrow> good_step d d2 \<longleftrightarrow> good_step d d1"
  unfolding good_step_def store_inv_def store_le_def refines_def fresh_rows_def frames_def abs_store_def by simp

lemma ledger_good_side: "ledger_good d d1 \<Longrightarrow> side_tables d1 d2 \<Longrightarrow> ledger_good d d2"
  unfolding ledger_good_def side_tables_def using good_step_frames [of d1 d2 d]
  unfolding requests_step_def by simp

section \<open>Cancel and finalization\<close>

lemma canceled_le:
  assumes "er_cancel r = None" and "\<not> executionSettled r"
  shows "execution_le r (canceled_record r cid at)"
  using assms by (simp add: execution_le_def canceled_record_def Let_def)

lemma cancel_ledger_good:
  assumes inv: "store_inv d" "exec_inv d" and run: "cancelExecution sha d input at = Inr (res, d')"
  shows "ledger_good d d'"
proof -
  have run': "withOwner d (wk_execution input) (\<lambda>w r. case er_cancel r of
          Some (cid, _) \<Rightarrow> if cid \<noteq> wk_cancelId input then executionConflict else Inr (r, d)
        | None \<Rightarrow>
            if executionSettled r then Inr (r, d)
            else bindE (writeExecution d (canceled_record r (wk_cancelId input) at)) (\<lambda>d1.
                 bindE (if er_dispatchClaimedAt r = None
                        then finalizeInputManifest d1 (executionInputManifestId sha (er_acceptance r)) at else Inr d1)
                   (\<lambda>d2. Inr (canceled_record r (wk_cancelId input) at, d2)))) = Inr (res, d')"
    using run unfolding cancelExecution_def executionConflict_def by (simp split: if_splits)
  obtain w :: workspace_row and r where wr: "getExecution d (wk_execution input) = Some r" "execution_ref r = wk_execution input"
    and task: "(case er_cancel r of
          Some (cid, _) \<Rightarrow> if cid \<noteq> wk_cancelId input then executionConflict else Inr (r, d)
        | None \<Rightarrow>
            if executionSettled r then Inr (r, d)
            else bindE (writeExecution d (canceled_record r (wk_cancelId input) at)) (\<lambda>d1.
                 bindE (if er_dispatchClaimedAt r = None
                        then finalizeInputManifest d1 (executionInputManifestId sha (er_acceptance r)) at else Inr d1)
                   (\<lambda>d2. Inr (canceled_record r (wk_cancelId input) at, d2)))) = Inr (res, d')"
    by (rule withOwner_Inr [OF inv run']) (rule that, assumption+)
  show ?thesis
  proof (cases "er_cancel r = None \<and> \<not> executionSettled r")
    case True
    let ?r' = "canceled_record r (wk_cancelId input) at"
    obtain d1 where w: "writeExecution d ?r' = Inr d1" and
      f: "d' = d1 \<or> finalizeInputManifest d1 (executionInputManifestId sha (er_acceptance r)) at = Inr d'"
      using task True by (auto split: if_splits)
    have "ledger_good d d1"
      using write_good [OF inv side_tables_refl _ canceled_le w] True wr by simp
    then show ?thesis using f ledger_good_side finalizeInputManifest_side by blast
  next
    case False
    then have "d' = d" using task by (auto simp: executionConflict_def split: option.splits if_splits)
    then show ?thesis using ledger_good_refl [OF inv] by simp
  qed
qed

lemma finalize_ledger_good:
  assumes inv: "store_inv d" "exec_inv d" and run: "finalizeExecution sha d x at = Inr d'"
  shows "ledger_good d d'"
proof -
  obtain w :: workspace_row and r where wr: "getExecution d x = Some r" "execution_ref r = x" and task:
      "(if \<not> executionSettled r \<or> er_phase r \<in> {ExUnknown, ExLost} \<or> needsAcknowledgment r then executionConflict
        else bindE (finalizeInputManifest d (executionInputManifestId sha (er_acceptance r)) at) (\<lambda>d1.
            writeExecution d1 (r\<lparr>er_finalizedAt := Some (or_else (er_finalizedAt r) (toISOString at))\<rparr>))) = Inr d'"
    by (rule withOwner_Inr [OF inv run [unfolded finalizeExecution_def]]) (rule that, assumption+)
  obtain d1 where d1: "finalizeInputManifest d (executionInputManifestId sha (er_acceptance r)) at = Inr d1"
      "writeExecution d1 (r\<lparr>er_finalizedAt := Some (or_else (er_finalizedAt r) (toISOString at))\<rparr>) = Inr d'"
    using task by (auto simp: executionConflict_def split: if_splits)
  have le: "execution_le r (r\<lparr>er_finalizedAt := Some (or_else (er_finalizedAt r) (toISOString at))\<rparr>)"
    by (cases "er_finalizedAt r") (simp_all add: execution_le_def or_else_def)
  show ?thesis
    by (rule write_good [OF inv finalizeInputManifest_side [OF d1(1)] _ le d1(2)]) (use wr in simp)
qed

section \<open>Acceptance\<close>

lemma accept_cases:
  assumes run: "acceptExecution sha prins d input at identity = Inr (res, d')"
  obtains (replay) previous where "getExecution d (ac_execution input) = Some previous" "res = AcceptReplayed previous" "d' = d"
    "validateExecutionReplay previous input identity = Inr ()"
  | (new) w owner d1 where "row_by ws_id (xr_workspaceId (ac_execution input)) (workspaces d) = Some w"
    "getExecution d (ac_execution input) = None" "validateExecution sha w input at identity = Inr ()"
    "acceptance_owner d w input identity = Inr owner" "pinExecutionInputs sha d input at = Inr d1"
    "store_acceptance d1 w (new_execution input owner at) at = Inr d'" "res = Accepted (new_execution input owner at)"
proof -
  obtain w where w: "row_by ws_id (xr_workspaceId (ac_execution input)) (workspaces d) = Some w"
    using run unfolding acceptExecution_def by (auto split: if_splits option.splits)
  show ?thesis
  proof (cases "readExecution d w (ac_execution input)")
    case None
    then show ?thesis
      using run w new unfolding acceptExecution_def by (auto simp: getExecution_def split: if_splits)
  next
    case (Some previous)
    then show ?thesis
      using run w replay unfolding acceptExecution_def by (auto simp: getExecution_def split: if_splits)
  qed
qed

lemma validateExecution_row:
  assumes "validateExecution sha w input at identity = Inr ()"
  shows "ws_principalId w = ac_callerPrincipalId input" "ws_purgeRequestedAt w = None"
    "ws_state w = Ready" "ws_deadlineAt w > at"
    "\<exists>runtime. ws_runtimeRegistration w = Some runtime \<and> rr_readyAt runtime \<noteq> None \<and> rr_endedAt runtime = None
       \<and> rr_incarnationId runtime = xr_incarnationId (ac_execution input)"
proof -
  have p: "ws_principalId w = ac_callerPrincipalId input" and l: "live_incarnation w input at \<noteq> None"
    using assms unfolding validateExecution_def executionConflict_def by (auto split: if_splits option.splits)
  show "ws_principalId w = ac_callerPrincipalId input" by (rule p)
  show "ws_purgeRequestedAt w = None" "ws_state w = Ready" "ws_deadlineAt w > at"
    "\<exists>runtime. ws_runtimeRegistration w = Some runtime \<and> rr_readyAt runtime \<noteq> None \<and> rr_endedAt runtime = None
       \<and> rr_incarnationId runtime = xr_incarnationId (ac_execution input)"
    using l unfolding live_incarnation_def by (auto split: option.splits if_splits)
qed

lemma new_execution_ref [simp]:
  "execution_ref (new_execution input owner at) = ac_execution input"
  "er_acceptance (new_execution input owner at) = input"
  "er_conversationIdentity (new_execution input owner at) = owner"
  by (simp_all add: new_execution_def)

lemma accept_process_good:
  assumes inv: "store_inv d" "exec_inv d" and side: "side_tables d d1"
    and x: "xr_owner (ac_execution input) = OwnerProcess"
    and w: "row_by ws_id (xr_workspaceId (ac_execution input)) (workspaces d) = Some w"
    and ok: "ws_purgeRequestedAt w = None" and own: "acceptance_owner d w input identity = Inr owner"
    and run: "store_acceptance d1 w (new_execution input owner at) at = Inr d'"
  shows "ledger_good d d'"
proof -
  let ?r = "new_execution input owner at"
  have i: "ws_id w = xr_workspaceId (ac_execution input)" using row_by_SomeD [OF w] by simp
  have d': "d' = set_workspace (ws_id w) (\<lambda>w. w\<lparr>ws_processExecution := Some ?r\<rparr>) d1"
    using run x by (simp add: store_acceptance_def)
  have none: "ws_processExecution w = None"
    using own x by (simp add: acceptance_owner_def executionConflict_def split: if_splits)
  note side' = side [unfolded side_tables_def frames_def]
  have "good_step d d'"
    unfolding d'
  proof (rule set_workspace_frame_good [OF inv(1) w [folded i]])
    show "row_le w (w\<lparr>ws_processExecution := Some ?r\<rparr>)"
      by (simp add: row_le_def same_identity_def event_view_def none ok process_of_def x i)
  qed (use side' in simp_all)
  moreover have "requests_step d d'" by (rule requests_same [OF inv(2)]) (use side' in \<open>simp add: d' set_workspace_def\<close>)
  ultimately show ?thesis unfolding ledger_good_def by blast
qed

text \<open>A new execution of a conversation: the row that holds it is new or had none.\<close>

lemma requests_insert:
  assumes inv: "exec_inv d" and keys: "distinct (map request_key qs)" and d': "conversationRequests d' = qs"
    and old: "\<And>q. q \<in> set (conversationRequests d) \<Longrightarrow> cq_execution q \<noteq> None \<Longrightarrow> q \<in> set qs"
    and new: "\<And>q'. q' \<in> set qs \<Longrightarrow> cq_execution q' = None \<or> q' \<in> set (conversationRequests d)
      \<or> q' = fresh \<and> (\<exists>e. cq_execution q' = Some e \<and> new_slot d q' e)"
  shows "requests_step d d'"
proof -
  have adv: "advances q q" if "cq_execution q \<noteq> None" for q using that by (auto simp: advances_def)
  have "\<exists>q' \<in> set qs. advances q q'" if "q \<in> set (conversationRequests d)" "cq_execution q \<noteq> None" for q
    using old [OF that] adv [OF that(2)] by blast
  moreover have "cq_execution q' = None \<or> (\<exists>q \<in> set (conversationRequests d). advances q q')
      \<or> (q' = fresh \<and> (\<exists>e. cq_execution q' = Some e \<and> new_slot d q' e))" if "q' \<in> set qs" for q'
    using new [OF that] adv by blast
  ultimately show ?thesis unfolding requests_step_def d' using keys by blast
qed

lemma insertConversationExecution_step:
  assumes inv: "exec_inv d" and c: "conversationRequests d1 = conversationRequests d"
    and new: "\<And>q. cq_principalId q = ac_callerPrincipalId (er_acceptance r) \<Longrightarrow> cq_conversationId q = ci_conversation_id c \<Longrightarrow>
      cq_requestId q = ci_request_id c \<Longrightarrow> new_slot d q r"
    and run: "insertConversationExecution d1 r c at = Inr d'"
  shows "requests_step d d'"
proof -
  let ?key = "(ac_callerPrincipalId (er_acceptance r), ci_conversation_id c, ci_request_id c)"
  have keys: "distinct (map request_key (conversationRequests d))" using inv by (simp add: exec_inv_def requests_inv_def)
  show ?thesis
  proof (cases "row_by request_key ?key (conversationRequests d)")
    case None
    let ?q = "\<lparr> cq_principalId = ac_callerPrincipalId (er_acceptance r), cq_conversationId = ci_conversation_id c,
             cq_requestId = ci_request_id c, cq_workspaceId = None, cq_identity = c, cq_acceptedAt = at, cq_execution = Some r \<rparr>"
    have d': "conversationRequests d' = conversationRequests d @ [?q]"
      using run None unfolding insertConversationExecution_def Let_def c by (simp, hypsubst) simp
    have "request_key ?q \<notin> request_key ` set (conversationRequests d)"
      using None unfolding row_by_None_iff by (simp add: request_key_def)
    then have "distinct (map request_key (conversationRequests d @ [?q]))" using keys by simp
    moreover have "new_slot d ?q r" by (rule new) simp_all
    ultimately show ?thesis by (intro requests_insert [OF inv _ d', of ?q]) auto
  next
    case (Some p)
    note p = row_by_SomeD [OF Some]
    let ?q = "p\<lparr>cq_execution := Some r\<rparr>"
    have none: "cq_execution p = None" and d': "conversationRequests d' =
        set_row request_key ?key (\<lambda>q. q\<lparr>cq_execution := Some r\<rparr>) (conversationRequests d)"
      using run Some unfolding insertConversationExecution_def Let_def c executionConflict_def by (simp_all split: if_splits, hypsubst, simp)
    have uniq: "q = p" if "q \<in> set (conversationRequests d)" "request_key q = ?key" for q
      using key_unique [OF keys that(1), of p] that(2) p by simp
    show ?thesis
    proof (rule requests_insert [OF inv _ d', of ?q])
      show "distinct (map request_key (set_row request_key ?key (\<lambda>q. q\<lparr>cq_execution := Some r\<rparr>) (conversationRequests d)))"
        using keys unfolding set_row_def by (subst map_update_where) (simp_all add: request_key_def)
      show "q \<in> set (set_row request_key ?key (\<lambda>q. q\<lparr>cq_execution := Some r\<rparr>) (conversationRequests d))"
        if "q \<in> set (conversationRequests d)" "cq_execution q \<noteq> None" for q
        unfolding in_set_row using that uniq none by (intro bexI [of _ q]) auto
      show "cq_execution q' = None \<or> q' \<in> set (conversationRequests d) \<or> q' = ?q \<and> (\<exists>e. cq_execution q' = Some e \<and> new_slot d q' e)"
        if m: "q' \<in> set (set_row request_key ?key (\<lambda>q. q\<lparr>cq_execution := Some r\<rparr>) (conversationRequests d))" for q'
      proof -
        obtain q where q: "q \<in> set (conversationRequests d)" "q' = (if request_key q = ?key then q\<lparr>cq_execution := Some r\<rparr> else q)"
          using m unfolding in_set_row by blast
        have "new_slot d ?q r" by (rule new) (use p in \<open>simp_all add: request_key_def\<close>)
        then show ?thesis using q uniq by (cases "request_key q = ?key") auto
      qed
    qed
  qed
qed

lemma owner_identity:
  assumes "acceptance_owner d w input identity = Inr owner" and "xr_owner (ac_execution input) = OwnerConversation"
  obtains c where "owner = Some c" "ci_request_id c = xr_requestId (ac_execution input)"
    "\<And>q e. q \<in> set (conversationRequests d) \<Longrightarrow> cq_execution q = Some e \<Longrightarrow> cq_principalId q = ac_callerPrincipalId input \<Longrightarrow>
       xr_workspaceId (execution_ref e) = xr_workspaceId (ac_execution input) \<Longrightarrow> er_finalizedAt e = None \<Longrightarrow>
       cq_conversationId q \<noteq> ci_conversation_id c"
proof -
  obtain parallel c where c: "owner = Some c" "validateConversationExecution d input identity parallel = Inr c"
  proof -
    obtain caps where "map_sum id Some (validateConversationExecution d input identity
        (list_all (\<lambda>c. c \<in> set caps) PARALLEL_CONVERSATION_CAPABILITIES)) = Inr owner"
      using assms unfolding acceptance_owner_def by auto
    then show ?thesis
      using that by (cases "validateConversationExecution d input identity
        (list_all (\<lambda>c. c \<in> set caps) PARALLEL_CONVERSATION_CAPABILITIES)") auto
  qed
  have v: "ci_request_id c = xr_requestId (ac_execution input)" "\<not> list_ex (\<lambda>q. cq_principalId q = ac_callerPrincipalId input
                    \<and> (parallel \<longrightarrow> cq_conversationId q = ci_conversation_id c)
                    \<and> (case cq_execution q of None \<Rightarrow> False
                       | Some e \<Rightarrow> xr_workspaceId (ac_execution (er_acceptance e)) = xr_workspaceId (ac_execution input)
                           \<and> er_finalizedAt e = None)) (conversationRequests d)"
    using c(2) unfolding validateConversationExecution_def executionConflict_def
    by (cases identity; simp split: if_splits)+
  show ?thesis by (rule that [OF c(1) v(1)]) (use v(2) in \<open>auto simp: list_ex_iff\<close>)
qed

lemma accept_request_good:
  assumes inv: "store_inv d" "exec_inv d" and side: "side_tables d d1"
    and x: "xr_owner (ac_execution input) = OwnerConversation"
    and w: "row_by ws_id (xr_workspaceId (ac_execution input)) (workspaces d) = Some w"
    and ok: "ws_purgeRequestedAt w = None" "ws_principalId w = ac_callerPrincipalId input"
    and none: "getExecution d (ac_execution input) = None" and own: "acceptance_owner d w input identity = Inr owner"
    and run: "store_acceptance d1 w (new_execution input owner at) at = Inr d'"
  shows "ledger_good d d'"
proof -
  obtain c where c: "owner = Some c" "ci_request_id c = xr_requestId (ac_execution input)"
    and one: "\<And>q e. q \<in> set (conversationRequests d) \<Longrightarrow> cq_execution q = Some e \<Longrightarrow> cq_principalId q = ac_callerPrincipalId input \<Longrightarrow>
       xr_workspaceId (execution_ref e) = xr_workspaceId (ac_execution input) \<Longrightarrow> er_finalizedAt e = None \<Longrightarrow>
       cq_conversationId q \<noteq> ci_conversation_id c"
    by (rule owner_identity [OF own x]) (rule that, assumption+)
  let ?r = "new_execution input owner at"
  note wm = row_by_SomeD [OF w]
  have run': "insertConversationExecution d1 ?r c at = Inr d'" using run x c(1) by (simp add: store_acceptance_def)
  have ri: "requests_inv (workspaces d) (conversationRequests d)" using inv(2) by (simp add: exec_inv_def)
  have prin: "cq_principalId q = ac_callerPrincipalId input"
    if q: "q \<in> set (conversationRequests d)" "cq_execution q = Some e" "xr_workspaceId (execution_ref e) = xr_workspaceId (ac_execution input)" for q e
  proof -
    obtain v where "v \<in> set (workspaces d)" "ws_id v = xr_workspaceId (execution_ref e)" "ws_principalId v = cq_principalId q"
      using requests_invD(2) [OF ri q(1,2)] unfolding request_slot_def by blast
    then show ?thesis using inv_row_by [OF inv(1), of v] w q(3) ok(2) by simp
  qed
  have "requests_step d d'"
  proof (rule insertConversationExecution_step [OF inv(2) _ _ run'])
    show "new_slot d q ?r" if "cq_principalId q = ac_callerPrincipalId (er_acceptance ?r)"
      "cq_conversationId q = ci_conversation_id c" "cq_requestId q = ci_request_id c" for q
      unfolding new_slot_def request_slot_def new_execution_ref
    proof (intro conjI ballI allI impI)
      show "\<exists>w \<in> set (workspaces d). ws_id w = xr_workspaceId (ac_execution input) \<and> ws_principalId w = cq_principalId q"
        using wm ok(2) that(1) by auto
      show "\<not> purged d (xr_workspaceId (ac_execution input))" using purged_iff [OF inv(1), of w] wm ok(1) by simp
      show "cq_conversationId q' \<noteq> cq_conversationId q" if "q' \<in> set (conversationRequests d)"
        "cq_execution q' = Some e' \<and> er_finalizedAt e' = None \<and> xr_workspaceId (execution_ref e') = xr_workspaceId (ac_execution input)" for q' e'
        using one [OF that(1)] prin [OF that(1)] that(2) \<open>cq_conversationId q = ci_conversation_id c\<close> by simp
    qed (use that x none c(2) in simp_all)
  qed (simp add: side_tables_reads(2) [OF side])
  moreover have "frames d d'"
    using run' side unfolding insertConversationExecution_def Let_def executionConflict_def
    by (auto split: option.splits if_splits simp: side_tables_def frames_def)
  ultimately show ?thesis unfolding ledger_good_def using frames_good [OF inv(1)] by blast
qed

lemma accept_ledger_good:
  assumes inv: "store_inv d" "exec_inv d" and run: "acceptExecution sha prins d input at identity = Inr (res, d')"
  shows "ledger_good d d'"
  using run
proof (cases rule: accept_cases)
  case (replay previous)
  then show ?thesis using ledger_good_refl [OF inv] by simp
next
  case (new w owner d1)
  note side = pinExecutionInputs_side [OF new(5)] and ok = validateExecution_row [OF new(3)]
  show ?thesis
  proof (cases "xr_owner (ac_execution input)")
    case OwnerProcess
    then show ?thesis using accept_process_good [OF inv side _ new(1) ok(2) new(4,6)] by blast
  next
    case OwnerConversation
    then show ?thesis using accept_request_good [OF inv side _ new(1) ok(2,1) new(2,4,6)] by blast
  qed
qed

lemma receipt_ledger_good:
  assumes inv: "store_inv d" "exec_inv d" and run: "acceptConversationRequest d i c at = Inr (res, d')"
  shows "ledger_good d d'"
proof -
  have keys: "distinct (map request_key (conversationRequests d))" using inv(2) by (simp add: exec_inv_def requests_inv_def)
  obtain w where w: "row_by ws_id i (workspaces d) = Some w"
    using run unfolding acceptConversationRequest_def by (auto split: option.splits)
  let ?key = "(ws_principalId w, ci_conversation_id c, ci_request_id c)"
  let ?g = "\<lambda>v. if request_key v = ?key then v\<lparr>cq_workspaceId := Some i\<rparr> else v"
  let ?row = "\<lparr> cq_principalId = ws_principalId w, cq_conversationId = ci_conversation_id c,
      cq_requestId = ci_request_id c, cq_workspaceId = Some i, cq_identity = c, cq_acceptedAt = at, cq_execution = None \<rparr>"
  consider "d' = d" | "d' = d\<lparr>conversationRequests := map ?g (conversationRequests d)\<rparr>"
    | "row_by request_key ?key (conversationRequests d) = None" "d' = d\<lparr>conversationRequests := conversationRequests d @ [?row]\<rparr>"
    using run w unfolding acceptConversationRequest_def Let_def set_row_def update_where_def
    by (auto split: option.splits if_splits)
  then show ?thesis
  proof cases
    case 1
    then show ?thesis using ledger_good_refl [OF inv] by simp
  next
    case 2
    have "requests_step d d'"
      by (rule requests_map [OF inv(2), of _ ?g]) (auto simp: 2 request_key_def advances_def)
    moreover have "frames d d'" by (simp add: 2 frames_def)
    ultimately show ?thesis unfolding ledger_good_def using frames_good [OF inv(1)] by blast
  next
    case 3
    have "?key \<notin> request_key ` set (conversationRequests d)" using 3(1) unfolding row_by_None_iff .
    then have k: "distinct (map request_key (conversationRequests d @ [?row]))" using keys by (simp add: request_key_def)
    have "requests_step d d'" by (rule requests_insert [OF inv(2) k]) (auto simp: 3(2))
    moreover have "frames d d'" by (simp add: 3 frames_def)
    ultimately show ?thesis unfolding ledger_good_def using frames_good [OF inv(1)] by blast
  qed
qed

end
