(* ===== verification/Request_Frames.thy ===== *)
theory Request_Frames
  imports Ledger_Ops
begin

text \<open>
  The transactions outside the execution ledger leave the conversation requests alone, apart from the end of a
  runtime, which settles the executions of its incarnation as lost.
\<close>

abbreviation keeps_requests :: "store \<Rightarrow> store \<Rightarrow> bool" where
  "keeps_requests d d' \<equiv> conversationRequests d' = conversationRequests d"

lemma appendTransition_requests:
  "appendTransition u row src reason at d = Inr d' \<Longrightarrow> keeps_requests d d'"
  unfolding appendTransition_def Let_def by (auto split: if_splits)

lemma lease_rows_requests [simp]:
  "conversationRequests (fenceWorkspaceLeaseRows i at d) = conversationRequests d"
  "conversationRequests (set_lease i f d) = conversationRequests d"
  "conversationRequests (set_workspace i g d) = conversationRequests d"
  "conversationRequests (retain_conversation i e at d) = conversationRequests d"
  "conversationRequests (journalOperation opr d) = conversationRequests d"
  "conversationRequests (mark_deleting d opr) = conversationRequests d"
  by (simp_all add: fenceWorkspaceLeaseRows_def set_lease_def set_workspace_def retain_conversation_def
      journalOperation_def mark_deleting_def split: option.split)

lemma prepareLease_requests [simp]:
  "conversationRequests (snd (prepareLeaseTransition i s at d)) = conversationRequests d"
  unfolding prepareLeaseTransition_def Let_def by simp

lemma commit_requests:
  assumes "commit_transition u d cur req = Inr (row, d')"
  shows "keeps_requests d d'"
proof -
  let ?row = "transition_row cur req"
  let ?d1 = "d\<lparr>workspaces := set_row ws_id (ws_id cur) (\<lambda>_. ?row) (workspaces d)\<rparr>"
  obtain d2 where "appendTransition u ?row (Some (ws_state cur)) (ws_reasonCode ?row) (rq_at req) ?d1 = Inr d2"
    and "d' = d2 \<or> (\<exists>e. d' = retain_conversation (ws_id cur) e (rq_at req) d2)"
    using assms unfolding commit_transition_def Let_def by (auto split: if_splits)
  then show ?thesis using appendTransition_requests by fastforce
qed

lemma insertWorkspace_requests: "insertWorkspace u d w mq = Inr (r, d') \<Longrightarrow> keeps_requests d d'"
  unfolding insertWorkspace_def Let_def
  by (auto split: option.splits if_splits dest: appendTransition_requests)

lemma transition_requests:
  assumes "transitionWorkspace u d i req = Inr (ro, d')"
  shows "keeps_requests d d'"
proof -
  obtain ok d1 where p: "prepareLeaseTransition i (rq_to req) (rq_at req) d = (ok, d1)" by (rule prod.exhaust)
  have d1: "keeps_requests d d1" using prepareLease_requests [of i "rq_to req" "rq_at req" d] p by simp
  consider "d' = d" | "d' = d1" | cur row where "commit_transition u d1 cur req = Inr (row, d')"
    using assms unfolding transitionWorkspace_def p Let_def by (auto split: option.splits if_splits)
  then show ?thesis using d1 commit_requests by cases fastforce+
qed

lemma claim_requests: "claimWorkspaceAdmission u d cm = Inr (ro, d') \<Longrightarrow> keeps_requests d d'"
  unfolding claimWorkspaceAdmission_def Let_def
  by (auto split: option.splits if_splits dest: appendTransition_requests)

lemma warm_claim_requests: "claimWarmPoolRuntime u d wk = Inr (wres, d') \<Longrightarrow> keeps_requests d d'"
  unfolding claimWarmPoolRuntime_def Let_def by (auto split: option.splits if_splits)

lemma row_requests [simp]:
  "conversationRequests (updateWorkspace d i p at) = conversationRequests d"
  "conversationRequests (setQueuedAdmissionReason d i reason at) = conversationRequests d"
  "conversationRequests (snd (bindWorkspaceRuntime d i rr pref)) = conversationRequests d"
  "conversationRequests (snd (markWorkspaceRuntimeReady d i inc ep at)) = conversationRequests d"
  by (simp_all add: updateWorkspace_def setQueuedAdmissionReason_def bindWorkspaceRuntime_def
      markWorkspaceRuntimeReady_def split: option.split)

lemma recordFiniteProcess_requests: "recordFiniteProcess d i ep fct now = Inr (b, d') \<Longrightarrow> keeps_requests d d'"
  unfolding recordFiniteProcess_def by (auto split: option.splits if_splits)

lemma lease_update_requests:
  assumes "bindE (writable_lease d i) (\<lambda>(row, owner). k row owner) = Inr (x, d')"
    and "\<And>row owner x d'. k row owner = Inr (x, d') \<Longrightarrow> d' = d \<or> (\<exists>f. d' = set_lease i f d)"
  shows "keeps_requests d d'"
proof -
  obtain row owner where "k row owner = Inr (x, d')" using assms(1) by auto
  then have "d' = d \<or> (\<exists>f. d' = set_lease i f d)" by (rule assms(2))
  then show ?thesis by auto
qed

lemma lease_issued_requests: "recordWorkspaceLeaseIssued d i issuer ex n at = Inr (lo, d') \<Longrightarrow> keeps_requests d d'"
  unfolding recordWorkspaceLeaseIssued_def by (erule lease_update_requests) (auto simp: Let_def split: if_splits)

lemma lease_delivered_requests: "recordWorkspaceLeaseDelivered d i at = Inr (lo, d') \<Longrightarrow> keeps_requests d d'"
  unfolding recordWorkspaceLeaseDelivered_def by (erule lease_update_requests) (auto simp: Let_def split: if_splits)

lemma lease_revocation_requests: "requestWorkspaceLeaseRevocation d i at = Inr (l, d') \<Longrightarrow> keeps_requests d d'"
  unfolding requestWorkspaceLeaseRevocation_def by (erule lease_update_requests) (auto simp: Let_def split: if_splits)

lemma lease_revoked_requests: "recordWorkspaceLeaseRevoked d i rid at = Inr (lo, d') \<Longrightarrow> keeps_requests d d'"
  unfolding recordWorkspaceLeaseRevoked_def by (erule lease_update_requests) (auto simp: Let_def split: if_splits)

lemma lease_expired_requests: "recordWorkspaceLeaseExpired d i at = Inr (lo, d') \<Longrightarrow> keeps_requests d d'"
  unfolding recordWorkspaceLeaseExpired_def by (erule lease_update_requests) (auto simp: Let_def split: if_splits)

lemma lease_fence_requests: "fenceWorkspaceLeases d i at = Inr d' \<Longrightarrow> keeps_requests d d'"
  unfolding fenceWorkspaceLeases_def by (auto split: option.splits)

lemma lease_request_requests: "requestWorkspaceLease sha uuid d lr = Inr (l, d') \<Longrightarrow> keeps_requests d d'"
  unfolding requestWorkspaceLease_def enforceReferenceLimit_def Let_def by (auto split: option.splits if_splits)

lemma insertOperation_requests: "insertOperation d opr mx = Inr (ores, d') \<Longrightarrow> keeps_requests d d'"
  unfolding insertOperation_def admitIntent_def mark_purge_def Let_def by (auto split: option.splits if_splits)

lemma table_requests [simp]:
  "conversationRequests (snd (insertWarmPoolRuntime d rt)) = conversationRequests d"
  "conversationRequests (updateWarmPoolRuntime d i p at) = conversationRequests d"
  "conversationRequests (updateOperation d i q at) = conversationRequests d"
  "conversationRequests (snd (insertCheckpoint d c)) = conversationRequests d"
  "conversationRequests (updateWorkspaceStorage d i sp at) = conversationRequests d"
  "conversationRequests (snd (claimDueEvents d now limit)) = conversationRequests d"
  "conversationRequests (markEventDelivered d i at) = conversationRequests d"
  "conversationRequests (markEventFailed d i code at) = conversationRequests d"
  by (simp_all add: insertWarmPoolRuntime_def updateWarmPoolRuntime_def updateOperation_def insertCheckpoint_def
      updateWorkspaceStorage_def claimDueEvents_def Let_def markEventDelivered_def markEventFailed_def split: option.split)

lemma partial_requests:
  "updateCheckpoint d i cp at = Inr d' \<Longrightarrow> keeps_requests d d'"
  "insertWorkspaceStorage d st = Inr (x, d') \<Longrightarrow> keeps_requests d d'"
  "appendEvent uuid d w t pl at = Inr d' \<Longrightarrow> keeps_requests d d'"
  unfolding updateCheckpoint_def insertWorkspaceStorage_def appendEvent_def by (auto split: option.splits if_splits)

lemma lose_request_le: "execution_le e (lose_request i inc at e)"
  by (simp add: lose_request_def execution_le_def)

lemma ended_requests:
  obtains "keeps_requests d (endWorkspaceRuntime d i inc at)"
    | p where "conversationRequests (endWorkspaceRuntime d i inc at) = conversationRequests (lose_requests p i inc at d)"
proof (cases "row_by ws_id i (workspaces d)")
  case None
  then show ?thesis using that(1) by (simp add: endWorkspaceRuntime_def)
next
  case row: (Some row)
  show ?thesis
  proof (cases "ws_runtimeRegistration row")
    case None
    then show ?thesis using that(1) row by (simp add: endWorkspaceRuntime_def)
  next
    case (Some rt)
    then show ?thesis
      using that(1) that(2) [of "ws_principalId row"] row
      by (cases "rr_incarnationId rt \<noteq> inc \<or> rr_endedAt rt \<noteq> None") (simp_all add: endWorkspaceRuntime_def Let_def)
  qed
qed

lemma runtime_ended_requests:
  assumes inv: "exec_inv d"
  shows "requests_step d (endWorkspaceRuntime d i inc at)"
proof -
  consider "keeps_requests d (endWorkspaceRuntime d i inc at)"
    | p where "conversationRequests (endWorkspaceRuntime d i inc at) = conversationRequests (lose_requests p i inc at d)"
    by (rule ended_requests)
  then show ?thesis
  proof cases
    case 1
    then show ?thesis by (rule requests_same [OF inv])
  next
    case (2 p)
    let ?g = "\<lambda>q. if cq_principalId q = p then q\<lparr>cq_execution := map_option (lose_request i inc at) (cq_execution q)\<rparr> else q"
    show ?thesis
    proof (rule requests_map [OF inv, of _ ?g])
      show "conversationRequests (endWorkspaceRuntime d i inc at) = map ?g (conversationRequests d)"
        by (simp add: 2 lose_requests_def update_where_def)
      show "request_key (?g q) = request_key q \<and> (cq_execution q = None \<and> cq_execution (?g q) = None \<or> advances q (?g q))" for q
        using lose_request_le by (cases "cq_execution q") (simp_all add: advances_def request_key_def)
    qed
  qed
qed

end
