(* ===== verification/Store_Steps.thy ===== *)
theory Store_Steps
  imports Request_Frames
begin

text \<open>
  The step relation of the workspace store: one rule per transaction, run in any order and interleaving.
\<close>

section \<open>Any interleaving of transactions\<close>

inductive store_step :: "store \<Rightarrow> store \<Rightarrow> bool" where
  insert_workspace: "insertWorkspace u d w mq = Inr (r, d') \<Longrightarrow> store_step d d'"
| transition: "transitionWorkspace u d i req = Inr (ro, d') \<Longrightarrow> store_step d d'"
| patch: "store_step d (updateWorkspace d i p at)"
| admission_reason: "store_step d (setQueuedAdmissionReason d i reason at)"
| claim: "claimWorkspaceAdmission u d cm = Inr (ro, d') \<Longrightarrow> store_step d d'"
| warm_claim: "claimWarmPoolRuntime u d wk = Inr (wres, d') \<Longrightarrow> store_step d d'"
| bind_runtime: "store_step d (snd (bindWorkspaceRuntime d i rr ref))"
| runtime_ready: "store_step d (snd (markWorkspaceRuntimeReady d i inc ep at))"
| finite_process: "recordFiniteProcess d i ep fct now = Inr (b, d') \<Longrightarrow> store_step d d'"
| runtime_ended: "store_step d (endWorkspaceRuntime d i inc at)"
| lease_request: "requestWorkspaceLease sha uuid d lr = Inr (l, d') \<Longrightarrow> store_step d d'"
| lease_issued: "recordWorkspaceLeaseIssued d i issuer ex n at = Inr (lo, d') \<Longrightarrow> store_step d d'"
| lease_delivered: "recordWorkspaceLeaseDelivered d i at = Inr (lo, d') \<Longrightarrow> store_step d d'"
| lease_revocation: "requestWorkspaceLeaseRevocation d i at = Inr (l, d') \<Longrightarrow> store_step d d'"
| lease_revoked: "recordWorkspaceLeaseRevoked d i rid at = Inr (lo, d') \<Longrightarrow> store_step d d'"
| lease_expired: "recordWorkspaceLeaseExpired d i at = Inr (lo, d') \<Longrightarrow> store_step d d'"
| lease_fence: "fenceWorkspaceLeases d i at = Inr d' \<Longrightarrow> store_step d d'"
| operation: "insertOperation d opr mx = Inr (ores, d') \<Longrightarrow> store_step d d'"
| operation_update: "store_step d (updateOperation d i oq at)"
| warm_insert: "store_step d (snd (insertWarmPoolRuntime d rt))"
| warm_update: "store_step d (updateWarmPoolRuntime d i wp at)"
| checkpoint_insert: "store_step d (snd (insertCheckpoint d c))"
| checkpoint_update: "updateCheckpoint d i cq at = Inr d' \<Longrightarrow> store_step d d'"
| storage_insert: "insertWorkspaceStorage d st = Inr (so, d') \<Longrightarrow> store_step d d'"
| storage_update: "store_step d (updateWorkspaceStorage d i sq at)"
| claim_events: "store_step d (snd (claimDueEvents d now limit))"
| event_delivered: "store_step d (markEventDelivered d i at)"
| event_failed: "store_step d (markEventFailed d i code at)"
| event_append: "appendEvent uuid d w t pl at = Inr d' \<Longrightarrow> store_step d d'"
| execution_accept: "acceptExecution sha prins d acc at idn = Inr (ares, d') \<Longrightarrow> store_step d d'"
| execution_claim: "claimExecution sha prins d x at = Inr (cres, d') \<Longrightarrow> store_step d d'"
| execution_cancel: "cancelExecution sha d wcl at = Inr (er, d') \<Longrightarrow> store_step d d'"
| execution_observe: "observeExecution d x fp ph epo at oc = Inr (b, d') \<Longrightarrow> store_step d d'"
| execution_acknowledge: "acknowledgeExecution d x fp at = Inr d' \<Longrightarrow> store_step d d'"
| execution_finalize: "finalizeExecution sha d x at = Inr d' \<Longrightarrow> store_step d d'"
| conversation_request: "acceptConversationRequest d i cid at = Inr (cres', d') \<Longrightarrow> store_step d d'"

definition full_inv :: "store \<Rightarrow> bool" where
  "full_inv d \<longleftrightarrow> store_inv d \<and> exec_inv d"

definition full_le :: "store \<Rightarrow> store \<Rightarrow> bool" where
  "full_le d d' \<longleftrightarrow> store_le d d' \<and> ledger_le d d'"

lemmas kept_requests = insertWorkspace_requests transition_requests claim_requests warm_claim_requests
  recordFiniteProcess_requests lease_request_requests lease_issued_requests lease_delivered_requests
  lease_revocation_requests lease_revoked_requests lease_expired_requests lease_fence_requests
  insertOperation_requests partial_requests

lemma kept_good: "store_inv d \<Longrightarrow> exec_inv d \<Longrightarrow> good_step d d' \<Longrightarrow> keeps_requests d d' \<Longrightarrow> ledger_good d d'"
  unfolding ledger_good_def using requests_same by blast

lemma store_step_ledger_good:
  assumes "store_step d d'" and inv: "store_inv d" "exec_inv d"
  shows "ledger_good d d'"
  using assms(1)
proof (cases rule: store_step.cases)
  case (insert_workspace u w mq r)
  then show ?thesis by (intro kept_good [OF inv] insert_good [OF inv(1)] insertWorkspace_requests)
next
  case (transition u i req ro)
  then show ?thesis by (intro kept_good [OF inv] transition_good [OF inv(1)] transition_requests)
next
  case (patch i p at)
  then show ?thesis using updateWorkspace_good [OF inv(1)] by (intro kept_good [OF inv]) simp_all
next
  case (admission_reason i reason at)
  then show ?thesis using setQueuedAdmissionReason_good [OF inv(1)] by (intro kept_good [OF inv]) simp_all
next
  case (claim u cm ro)
  then show ?thesis by (intro kept_good [OF inv] claim_good [OF inv(1)] claim_requests)
next
  case (warm_claim u wk wres)
  then show ?thesis by (intro kept_good [OF inv] warm_claim_good [OF inv(1)] warm_claim_requests)
next
  case (bind_runtime i rr pref)
  then show ?thesis using bindWorkspaceRuntime_good [OF inv(1)] by (intro kept_good [OF inv]) simp_all
next
  case (runtime_ready i inc ep at)
  then show ?thesis using markWorkspaceRuntimeReady_good [OF inv(1)] by (intro kept_good [OF inv]) simp_all
next
  case (finite_process i ep fct now b)
  then show ?thesis by (intro kept_good [OF inv] recordFiniteProcess_good [OF inv(1)] recordFiniteProcess_requests)
next
  case (runtime_ended i inc at)
  then show ?thesis
    unfolding ledger_good_def using endWorkspaceRuntime_good [OF inv(1)] runtime_ended_requests [OF inv(2)] by simp
next
  case (lease_request sha uuid lr l)
  then show ?thesis by (intro kept_good [OF inv] lease_request_good [OF inv(1)] lease_request_requests)
next
  case (lease_issued i issuer ex n at lo)
  then show ?thesis by (intro kept_good [OF inv] lease_issued_good [OF inv(1)] lease_issued_requests)
next
  case (lease_delivered i at lo)
  then show ?thesis by (intro kept_good [OF inv] lease_delivered_good [OF inv(1)] lease_delivered_requests)
next
  case (lease_revocation i at l)
  then show ?thesis by (intro kept_good [OF inv] lease_revocation_good [OF inv(1)] lease_revocation_requests)
next
  case (lease_revoked i rid at lo)
  then show ?thesis by (intro kept_good [OF inv] lease_revoked_good [OF inv(1)] lease_revoked_requests)
next
  case (lease_expired i at lo)
  then show ?thesis by (intro kept_good [OF inv] lease_expired_good [OF inv(1)] lease_expired_requests)
next
  case (lease_fence i at)
  then show ?thesis by (intro kept_good [OF inv] lease_fence_good [OF inv(1)] lease_fence_requests)
next
  case (operation opr mx ores)
  then show ?thesis by (intro kept_good [OF inv] insertOperation_good [OF inv(1)] insertOperation_requests)
next
  case (execution_accept sha prins acc at idn ares)
  then show ?thesis by (intro accept_ledger_good [OF inv])
next
  case (execution_claim sha prins x at cres)
  then show ?thesis by (intro claim_ledger_good [OF inv])
next
  case (execution_cancel sha wcl at er)
  then show ?thesis by (intro cancel_ledger_good [OF inv])
next
  case (execution_observe x fp ph epo at oc b)
  then show ?thesis by (intro observe_ledger_good [OF inv])
next
  case (execution_acknowledge x fp at)
  then show ?thesis by (intro acknowledge_ledger_good [OF inv])
next
  case (execution_finalize sha x at)
  then show ?thesis by (intro finalize_ledger_good [OF inv])
next
  case (conversation_request i cid at cres')
  then show ?thesis by (intro receipt_ledger_good [OF inv])
qed (use inv in \<open>simp_all add: side_tables_good side_tables_def partial_requests\<close>)

lemma store_step_good: "store_step d d' \<Longrightarrow> full_inv d \<Longrightarrow> good_step d d'"
  using store_step_ledger_good unfolding full_inv_def ledger_good_def by blast

lemma store_step_full:
  assumes "store_step d d'" and "full_inv d"
  shows "full_inv d' \<and> full_le d d'"
proof -
  have inv: "store_inv d" "exec_inv d" using assms(2) by (simp_all add: full_inv_def)
  have "ledger_good d d'" using store_step_ledger_good [OF assms(1) inv] .
  then have "good_step d d'" "ledger_step d d'"
    using ledger_shape [OF inv] unfolding ledger_good_def by blast+
  then show ?thesis unfolding full_inv_def full_le_def good_step_def ledger_step_def by blast
qed

lemma reaches_refines:
  "reaches store_step d d' \<Longrightarrow> full_inv d \<Longrightarrow>
     full_inv d' \<and> reaches life_step (abs_store d) (abs_store d')"
proof (induction rule: reaches.induct)
  case (refl d)
  then show ?case by (simp add: reaches.refl)
next
  case (snoc d e f)
  then have "good_step e f" "full_inv f" using store_step_good store_step_full by blast+
  then show ?case
    using snoc unfolding good_step_def refines_def by (metis reaches.snoc)
qed

interpretation tables: monotone_system store_step full_inv full_le
proof unfold_locales
  show "full_inv d'" if "full_inv d" "store_step d d'" for d d' using store_step_full that by blast
  show "full_le d d'" if "full_inv d" "store_step d d'" for d d' using store_step_full that by blast
  show "full_le d d" for d by (simp add: full_le_def)
  show "full_le a c" if "full_le a b" "full_le b c" for a b c
    using store_le_trans ledger_le_trans that unfolding full_le_def by blast
qed

end
