(* ===== verification/Workspace_Theorems.thy ===== *)
theory Workspace_Theorems
  imports Store_Steps
begin

text \<open>
  What clients of the workspace store may rely on, whatever the interleaving of its transactions: it
  implements the abstract lifecycle, the recorded history of a workspace is a legal run that ends in its
  current state, a workspace that has ended stays ended and holds no open credential lease, creation is
  idempotent, and purged content does not come back. The names \<open>ex_\<close> are the inputs the theorems are tried on.
\<close>

section \<open>Reachable stores\<close>

text \<open>A deployment starts without workspaces and conversation requests; the other tables may hold anything.\<close>

definition initial_store :: "store \<Rightarrow> bool" where
  "initial_store d \<longleftrightarrow> workspaces d = [] \<and> stateHistory d = [] \<and> leases d = [] \<and> leaseFences d = []
     \<and> conversationRequests d = []"

definition reachable :: "store \<Rightarrow> bool" where
  "reachable d \<longleftrightarrow> (\<exists>d0. initial_store d0 \<and> reaches store_step d0 d)"

lemma initial_inv: "initial_store d \<Longrightarrow> full_inv d" and initial_life_inv: "initial_store d \<Longrightarrow> life_inv (abs_store d)"
  by (simp_all add: initial_store_def full_inv_def exec_inv_def requests_inv_def store_inv_def lease_ok_def life_inv_def
      log_of_def)

lemma reachable_initial: "initial_store d \<Longrightarrow> reachable d"
  unfolding reachable_def by (rule exI [of _ d], rule conjI, assumption, rule reaches.refl)

lemma reachable_step: "reachable d \<Longrightarrow> store_step d d' \<Longrightarrow> reachable d'"
  unfolding reachable_def by (elim exE conjE, rule exI, rule conjI, assumption, rule reaches.snoc)

lemma reachable_trans: "reachable d \<Longrightarrow> reaches store_step d d' \<Longrightarrow> reachable d'"
  unfolding reachable_def by (elim exE conjE, rule exI, rule conjI, assumption, rule reaches_trans)

lemma reachable_life:
  assumes "reachable d"
  shows "life_inv (abs_store d)" and "full_inv d" and "store_inv d"
proof -
  obtain d0 where d0: "initial_store d0" "reaches store_step d0 d" using assms unfolding reachable_def by blast
  note r = reaches_refines [OF d0(2) initial_inv [OF d0(1)]]
  show "life_inv (abs_store d)" using r life.reaches_inv initial_life_inv [OF d0(1)] by blast
  show "full_inv d" using r by blast
  then show "store_inv d" by (simp add: full_inv_def)
qed

section \<open>A store to evaluate on\<close>

definition empty_store :: store where
  "empty_store = \<lparr> workspaces = [], stateHistory = [], eventOutbox = [], conversations = [], leases = [],
     leaseFences = [],
     secrets = [\<lparr> s_name = ''git'', s_type = RuntimeIssuer, s_versionId = ''v1'', s_retiredAt = None \<rparr>], runtimes = [], operations = [], checkpoints = [], storages = [],
     conversationRequests = [], inputObjects = [], inputManifests = [],
     deletionJournal = None \<rparr>"

definition ex_spec :: template_spec where
  "ex_spec = \<lparr> sp_networkMode = ''restricted'',
     sp_timeouts = \<lparr> to_start = ''60s'', to_maxAge = ''2h'', to_idle = ''20m'', to_disconnectGrace = ''30s'',
                     to_terminateGrace = ''10s'' \<rparr>,
     sp_mounts = [], sp_conversationRetention = ''168h'',
     sp_checkpoint = \<lparr> ck_onIdle = ''destroy'', ck_onDeadline = ''destroy'', ck_onCleanExit = ''destroy'',
                       ck_onFailure = ''destroy'', ck_retention = ''168h'' \<rparr>,
     sp_repositories = None, sp_envs = [Some [(''TOKEN'', ''secretRef:git'')], None], sp_setupEnvs = [], sp_uid = 1000, sp_gid = 1000 \<rparr>"

definition ex_snapshot :: template_snapshot where
  "ex_snapshot = \<lparr> ts_name = ''pi'', ts_version = ''1'', ts_digest = ''sha256:0'', ts_spec = ex_spec, ts_manifest = None \<rparr>"

definition ex_insert :: "ident \<Rightarrow> string \<Rightarrow> string \<Rightarrow> string \<Rightarrow> workspace_insert" where
  "ex_insert i external key digest = \<lparr> wi_id = i, wi_principalId = ''p1'', wi_externalId = external,
     wi_idempotencyKey = key, wi_requestDigest = digest, wi_templateId = ''t1'', wi_templateSnapshot = ex_snapshot,
     wi_launchInput = Some (JObj []), wi_metadata = [], wi_deadlineAt = 7200000, wi_createdAt = 0,
     wi_originWorkspaceId = None, wi_restoredFromCheckpointId = None, wi_sourceDescriptor = None,
     wi_resolvedSource = None, wi_persistenceCapability = None, wi_latestCheckpointId = None, wi_launchMode = None,
     wi_outputs = None \<rparr>"

definition ex_uuids :: "string \<Rightarrow> uuids" where
  "ex_uuids s = \<lparr> u_history = ''h'' @ s, u_event = ''e'' @ s \<rparr>"

text \<open>The only secret of the example store is an issuer of runtime credentials.\<close>

lemma ex_insert_simps [simp]:
  "wi_id (ex_insert i x k g) = i" "wi_principalId (ex_insert i x k g) = ''p1''"
  "wi_externalId (ex_insert i x k g) = x" "wi_idempotencyKey (ex_insert i x k g) = k"
  "wi_requestDigest (ex_insert i x k g) = g" "wi_createdAt (ex_insert i x k g) = 0"
  by (simp_all add: ex_insert_def)

text \<open>One workspace, just created.\<close>

definition ex_row :: workspace_row where
  "ex_row = new_workspace (ex_insert ''w1'' ''job'' ''k1'' ''d1'')"

definition ex_created :: store where
  "ex_created = empty_store\<lparr>workspaces := [ex_row],
     stateHistory := [\<lparr> h_id = ''h1'', h_workspaceId = ''w1'', h_fromState = None, h_toState = Queued,
        h_reasonCode = None, h_occurredAt = 0 \<rparr>],
     eventOutbox := [\<lparr> ob_id = ''e1'', ob_workspaceId = ''w1'', ob_eventType = ''workspace.queued'',
        ob_payload = buildEventEnvelope ''e1'' ex_row 0, ob_occurredAt = 0, ob_nextAttemptAt = 0,
        ob_attemptCount = 0, ob_deliveredAt = None, ob_lastErrorCode = None \<rparr>]\<rparr>"

lemma ex_row_simps [simp]:
  "ws_id ex_row = ''w1''" "ws_state ex_row = Queued" "ws_principalId ex_row = ''p1''" "ws_externalId ex_row = ''job''"
  "ws_idempotencyKey ex_row = ''k1''" "ws_requestDigest ex_row = ''d1''" "ws_purgeRequestedAt ex_row = None"
  "ws_connectionEpoch ex_row = 0" "ws_templateName ex_row = ''pi''" "ws_templateSnapshot ex_row = ex_snapshot"
  "ws_changeSeq ex_row = 1" "ws_reasonCode ex_row = None"
  by (simp_all add: ex_row_def) (simp_all add: new_workspace_def ex_insert_def ex_snapshot_def)

lemma ex_created_run:
  "insertWorkspace (ex_uuids ''1'') empty_store (ex_insert ''w1'' ''job'' ''k1'' ''d1'') None =
     Inr (Created ex_row, ex_created)"
  unfolding ex_row_def [symmetric]
  by (simp add: ex_created_def insertWorkspace_def insert_conflict_def empty_store_def appendTransition_def Let_def
      guardE_def ex_row_def [symmetric] ex_uuids_def)

lemma ex_created_tables:
  "workspaces ex_created = [ex_row]" "leases ex_created = []" "leaseFences ex_created = []"
  "map h_id (stateHistory ex_created) = [''h1'']" "map ob_id (eventOutbox ex_created) = [''e1'']"
  by (simp_all add: ex_created_def empty_store_def)

lemma empty_store_initial: "initial_store empty_store"
  by (simp add: initial_store_def empty_store_def)

lemma ex_created_reached: "reachable ex_created"
  by (rule reachable_step [OF reachable_initial [OF empty_store_initial]],
      rule store_step.insert_workspace, rule ex_created_run)

lemma ex_created_inv: "full_inv ex_created"
  using reachable_life(2) [OF ex_created_reached] .

section \<open>Refinement\<close>

text \<open>
  C1. Every transaction of the workspace store implements the abstract lifecycle: it keeps the invariant of
  the tables, and seen through the abstraction it either changes nothing or takes exactly one step of the
  specification, which creates one workspace or moves one workspace along the transition table and logs it.
\<close>

theorem store_refines_lifecycle:
  assumes "full_inv d" and "store_step d d'"
  shows "full_inv d' \<and> (abs_store d' = abs_store d \<or> life_step (abs_store d) (abs_store d'))"
  using store_step_good [OF assms(2,1)] store_step_full [OF assms(2,1)] unfolding good_step_def refines_def by blast

theorem store_refines_lifecycle_witness:
  "full_inv ex_created \<and> life_step (abs_store empty_store) (abs_store ex_created)"
proof -
  have "store_step empty_store ex_created" by (rule store_step.insert_workspace, rule ex_created_run)
  then have "full_inv ex_created \<and> (abs_store ex_created = abs_store empty_store
      \<or> life_step (abs_store empty_store) (abs_store ex_created))"
    by (rule store_refines_lifecycle [OF initial_inv [OF empty_store_initial]])
  moreover have "lc_entries (abs_store ex_created) ''w1'' \<noteq> lc_entries (abs_store empty_store) ''w1''"
    by (simp add: ex_created_tables empty_store_def)
  ultimately show ?thesis by metis
qed

section \<open>History\<close>

definition history_of :: "store \<Rightarrow> ident \<Rightarrow> (workspace_state option \<times> workspace_state) list" where
  "history_of d i = map (\<lambda>h. (h_fromState h, h_toState h)) (filter (\<lambda>h. h_workspaceId h = i) (stateHistory d))"

lemma log_of_abs: "log_of i (abs_store d) = history_of d i"
  unfolding log_of_def history_of_def abs_store_def by (induction "stateHistory d") (simp_all add: filter_map o_def)

text \<open>
  C2. The history of a workspace explains its state. In every store that transactions can produce from one
  without workspaces, in any order and interleaving, replaying the recorded history of a workspace is possible step by
  step (each record starts where the one before it ended and is a legal transition, the first creates the
  workspace queued) and ends exactly in the workspace's current state; an id without a row has no history.
\<close>

theorem history_replays_to_the_state:
  assumes "reachable d"
  shows "replay None (history_of d i) = Some (map_option ws_state (getWorkspace d i))"
proof -
  have "replay None (log_of i (abs_store d)) = Some (map_option le_state (lc_entries (abs_store d) i))"
    using reachable_life(1) [OF assms] unfolding life_inv_def by blast
  then show ?thesis
    unfolding log_of_abs getWorkspace_def by (cases "row_by ws_id i (workspaces d)") simp_all
qed

theorem history_replays_to_the_state_witness:
  "replay None (history_of ex_created ''w1'') = Some (Some Queued)"
  using history_replays_to_the_state [OF ex_created_reached, of "''w1''"]
  by (simp add: getWorkspace_def ex_created_tables)



section \<open>What persists\<close>

lemma reaches_row:
  assumes inv: "full_inv d" and run: "reaches store_step d d'" and row: "getWorkspace d i = Some r"
  obtains r' where "getWorkspace d' i = Some r'" and "row_le r r'"
proof -
  have r: "r \<in> set (workspaces d)" "ws_id r = i"
    using row_by_SomeD [of ws_id i "workspaces d" r] row by (simp_all add: getWorkspace_def)
  obtain r' where r': "r' \<in> set (workspaces d')" "row_le r r'"
    using tables.reaches_le [OF run inv] r(1) unfolding full_le_def store_le_def by blast
  have "distinct (map ws_id (workspaces d'))" using tables.reaches_inv [OF run inv] by (simp add: full_inv_def store_inv_def)
  then have "row_by ws_id (ws_id r') (workspaces d') = Some r'" using r'(1) by (rule row_by_mem)
  moreover have "ws_id r' = i" using r'(2) r(2) unfolding row_le_def same_identity_def by simp
  ultimately show thesis using that r'(2) unfolding getWorkspace_def by blast
qed

lemma terminal_log_stays:
  assumes run: "reaches life_step L L'" and inv: "life_inv L"
    and e: "lc_entries L i = Some e" "isTerminal (le_state e)"
  shows "log_of i L' = log_of i L"
proof -
  have le: "life_le L L'" using life.reaches_le [OF run inv] .
  obtain more where more: "lc_log L' = lc_log L @ more" using le unfolding life_le_def by blast
  obtain e1 where "lc_entries L' i = Some e1" "isTerminal (le_state e) \<longrightarrow> e1 = e"
    using le e(1) unfolding life_le_def by blast
  then have e': "lc_entries L' i = Some e" using e(2) by simp
  define xs where "xs = map snd (filter (\<lambda>x. fst x = i) more)"
  have log: "log_of i L' = log_of i L @ xs" unfolding log_of_def more xs_def by simp
  have "replay None (log_of i L) = Some (Some (le_state e))" using inv e(1) by (simp add: life_inv_iff)
  moreover have "replay None (log_of i L') = Some (Some (le_state e))"
    using life.reaches_inv [OF run inv] e' by (simp add: life_inv_iff)
  ultimately have "replay (Some (le_state e)) xs = Some (Some (le_state e))" unfolding log by (simp add: replay_append)
  then have "lifecycle_path (le_state e) (map snd xs)" using replay_path by blast
  then have "map snd xs = []" using path_terminal e(2) by blast
  then show ?thesis unfolding log by simp
qed

text \<open>
  C5. A workspace that has ended never reopens: after it reached a terminal state, no sequence of transactions
  changes its state, its owner, its external id or its history, and its change cursor does not go back.
\<close>

theorem ended_workspace_stays_ended:
  assumes "reachable d" and "getWorkspace d i = Some r" and "isTerminal (ws_state r)"
    and "reaches store_step d d'"
  shows "history_of d' i = history_of d i
    \<and> (\<exists>r'. getWorkspace d' i = Some r' \<and> ws_state r' = ws_state r \<and> ws_principalId r' = ws_principalId r
         \<and> ws_externalId r' = ws_externalId r \<and> ws_changeSeq r \<le> ws_changeSeq r')"
proof -
  note inv = reachable_life [OF assms(1)]
  have abs: "reaches life_step (abs_store d) (abs_store d')" using reaches_refines [OF assms(4) inv(2)] by blast
  have "lc_entries (abs_store d) i = Some (entry r)" using assms(2) by (simp add: getWorkspace_def)
  then have "history_of d' i = history_of d i"
    using terminal_log_stays [OF abs inv(1)] assms(3) unfolding log_of_abs by simp
  moreover obtain r' where "getWorkspace d' i = Some r'" "row_le r r'"
    using inv(2) assms(4,2) by (rule reaches_row)
  ultimately show ?thesis using assms(3) unfolding row_le_def same_identity_def by blast
qed

definition ex_cancel :: transition_request where
  "ex_cancel = request [Queued] Canceled (Some (Some CanceledByCaller)) 50 no_patch"

lemma ex_duration: "duration_ms ''168h'' = Inr 604800000"
  by (simp add: duration_ms_def parseDurationMs_def duration_match_def is_digit_def UNIT_MS_def
      number_of_digits_def digit_value_def)

lemma ex_canceled:
  obtains row d where "transitionWorkspace (ex_uuids ''2'') ex_created ''w1'' ex_cancel = Inr (Some row, d)"
    and "ws_state row = Canceled" and "getWorkspace d ''w1'' = Some row"
proof -
  let ?t = "transition_row ex_row ex_cancel"
  have st: "ws_state ?t = Canceled" "ws_id ?t = ''w1''" "ws_templateSnapshot ?t = ex_snapshot" "ws_purgeRequestedAt ?t = None"
    by (simp_all add: transition_row_def Let_def ex_cancel_def request_def isTerminal_def TERMINAL_STATES_def)
  have perm: "permitsTransition ex_row ex_cancel"
    by (simp add: permitsTransition_def ex_cancel_def request_def canTransition_def)
  have "\<exists>d. transitionWorkspace (ex_uuids ''2'') ex_created ''w1'' ex_cancel = Inr (Some ?t, d)
      \<and> getWorkspace d ''w1'' = Some ?t"
    using perm st
    by (simp add: transitionWorkspace_def commit_transition_def ex_created_def empty_store_def run_check_def ex_cancel_def
        request_def prepareLeaseTransition_def Let_def fenceWorkspaceLeaseRows_def fenced_def pendingWorkspaceLeases_def
        isTerminal_def TERMINAL_STATES_def appendTransition_def ex_uuids_def set_row_def ex_snapshot_def ex_spec_def
        ex_duration retain_conversation_def getWorkspace_def)
  then show thesis using that st by blast
qed

theorem ended_workspace_stays_ended_witness:
  "\<exists>row d. transitionWorkspace (ex_uuids ''2'') ex_created ''w1'' ex_cancel = Inr (Some row, d)
     \<and> history_of (updateWorkspace d ''w1'' no_patch 99) ''w1'' = history_of d ''w1''"
proof -
  obtain row d where run: "transitionWorkspace (ex_uuids ''2'') ex_created ''w1'' ex_cancel = Inr (Some row, d)"
    and row: "ws_state row = Canceled" "getWorkspace d ''w1'' = Some row" by (rule ex_canceled)
  have reach: "reachable d"
    by (rule reachable_step [OF ex_created_reached], rule store_step.transition, rule run)
  have "reaches store_step d (updateWorkspace d ''w1'' no_patch 99)"
    by (rule reaches_one, rule store_step.patch)
  then show ?thesis
    using ended_workspace_stays_ended [OF reach row(2)] row(1) run by (auto simp: isTerminal_def TERMINAL_STATES_def)
qed

section \<open>Creation\<close>

text \<open>
  C11. Creation is idempotent. Once a workspace was created with an idempotency key, any later request of the
  same principal with that key, whatever happened in between and whatever the queue limit, creates nothing: it
  returns that workspace, as a replay when the request is the same and as a conflict when its digest differs.
\<close>

theorem creation_is_idempotent:
  assumes reach: "reachable d" and first: "insertWorkspace u d w mq = Inr (Created row, d')"
    and later: "reaches store_step d' d''"
    and same: "wi_principalId retry = wi_principalId w" "wi_idempotencyKey retry = wi_idempotencyKey w"
  shows "\<exists>r. getWorkspace d'' (wi_id w) = Some r \<and>
    insertWorkspace u' d'' retry mq' =
      Inr (if wi_requestDigest retry = wi_requestDigest w then Replayed r else IdempotencyConflict r, d'')"
proof -
  have reach': "reachable d'"
    by (rule reachable_step [OF reach], rule store_step.insert_workspace, rule first)
  note inv' = reachable_life(2) [OF reach']
  have row: "row = new_workspace w" "getWorkspace d' (wi_id w) = Some row"
  proof -
    show "row = new_workspace w"
      using first by (cases rule: insertWorkspace_cases) (auto simp: insert_conflict_def split: option.splits if_splits)
    show "getWorkspace d' (wi_id w) = Some row"
      using first
    proof (cases rule: insertWorkspace_cases)
      case stay
      then show ?thesis by (auto simp: insert_conflict_def split: option.splits if_splits)
    next
      case created
      then have "row_by ws_id (wi_id w) (workspaces d) = None" by (simp add: row_by_None_iff)
      then show ?thesis
        using appendTransition_Inr [OF created(5)] created(2) by (simp add: getWorkspace_def row_by_append)
    qed
  qed
  obtain r where r: "getWorkspace d'' (wi_id w) = Some r" and le: "row_le row r"
    using inv' later row(2) by (rule reaches_row)
  have keys: "ws_principalId r = wi_principalId w" "ws_idempotencyKey r = wi_idempotencyKey w"
      "ws_requestDigest r = wi_requestDigest w"
    using le unfolding row_le_def same_identity_def row(1) by simp_all
  have reach'': "reachable d''" using reachable_trans [OF reach' later] .
  have uniq: "entries_unique (lc_entries (abs_store d''))"
    using reachable_life(1) [OF reach''] by (simp add: life_inv_iff)
  let ?p = "\<lambda>x. ws_principalId x = wi_principalId retry \<and> ws_idempotencyKey x = wi_idempotencyKey retry"
  have rm: "r \<in> set (workspaces d'')" "ws_id r = wi_id w"
    using row_by_SomeD [of ws_id "wi_id w" "workspaces d''" r] r by (simp_all add: getWorkspace_def)
  obtain x where x: "List.find ?p (workspaces d'') = Some x"
    using rm(1) keys same by (cases "List.find ?p (workspaces d'')") (auto simp: find_None_iff2)
  have xm: "x \<in> set (workspaces d'')" "?p x" using find_SomeD [OF x] by simp_all
  have dist: "distinct (map ws_id (workspaces d''))" using reachable_life(3) [OF reach''] by (simp add: store_inv_def)
  have xrow: "row_by ws_id (ws_id x) (workspaces d'') = Some x" using row_by_mem [OF dist xm(1)] .
  have "ws_id x = wi_id w"
    using entries_uniqueD(1) [OF uniq, of "ws_id x" "entry x" "wi_id w" "entry r"] xrow r xm(2) keys same
    by (simp add: getWorkspace_def)
  then have "x = r" using xrow r by (simp add: getWorkspace_def)
  then have "insert_conflict d'' retry =
      Some (if wi_requestDigest retry = wi_requestDigest w then Replayed r else IdempotencyConflict r)"
    unfolding insert_conflict_def x option.case using keys(3) by (simp add: eq_commute [of "wi_requestDigest retry"])
  then show ?thesis using r by (simp add: insertWorkspace_def)
qed

theorem creation_is_idempotent_witness:
  "\<exists>r. insertWorkspace (ex_uuids ''9'') ex_created (ex_insert ''w2'' ''other'' ''k1'' ''d1'') (Some 0) = Inr (Replayed r, ex_created)
     \<and> getWorkspace ex_created ''w1'' = Some r"
  using creation_is_idempotent [OF reachable_initial [OF empty_store_initial] ex_created_run reaches.refl,
      of "ex_insert ''w2'' ''other'' ''k1'' ''d1''" "ex_uuids ''9''" "Some 0"] by simp blast



end
