(* ===== verification/Store_Theorems.thy ===== *)
theory Store_Theorems
  imports Workspace_Theorems
begin

text \<open>
  Further promises of the store: credential leases end with the workspace, purged content stays purged,
  admission never exceeds the configured capacity, a transition commits the row, its history record and its
  event together, and the outbox hands out each due event once per lease.
\<close>

section \<open>Credential leases\<close>

text \<open>
  C4. No credential outlives its workspace. In every reachable store a workspace in a terminal state has no
  open lease, and a workspace whose leases are fenced has no open lease except those being revoked. A closed
  lease stays closed and unchanged whatever runs later.
\<close>

theorem leases_end_with_the_workspace:
  assumes reach: "reachable d" and l: "l \<in> set (leases d)"
  shows "(\<not> isClosed (l_state l) \<longrightarrow>
            (\<exists>w. getWorkspace d (l_workspaceId l) = Some w \<and> \<not> isTerminal (ws_state w))
            \<and> (fenced d (l_workspaceId l) \<longrightarrow> l_state l = LRevoking))
    \<and> (isClosed (l_state l) \<and> reaches store_step d d' \<longrightarrow> l \<in> set (leases d'))"
proof (intro conjI impI)
  have ok: "lease_ok (lc_entries (abs_store d)) (leaseFences d) (leases d)"
    using reachable_life(3) [OF reach] by (simp add: store_inv_def)
  assume o: "\<not> isClosed (l_state l)"
  show "\<exists>w. getWorkspace d (l_workspaceId l) = Some w \<and> \<not> isTerminal (ws_state w)"
    using lease_okD(2) [OF ok l o] by (cases "row_by ws_id (l_workspaceId l) (workspaces d)") (simp_all add: getWorkspace_def)
  show "fenced d (l_workspaceId l) \<Longrightarrow> l_state l = LRevoking"
    using lease_okD(3) [OF ok l o] by (simp add: fenced_def)
next
  assume a: "isClosed (l_state l) \<and> reaches store_step d d'"
  then have "store_le d d'" using tables.reaches_le reachable_life(2) [OF reach] unfolding full_le_def by blast
  then obtain l' where "l' \<in> set (leases d')" "lease_le l l'" using l unfolding store_le_def by blast
  then show "l \<in> set (leases d')" using a unfolding lease_le_def by blast
qed

text \<open>The example workspace, admitted.\<close>

definition ex_limits :: capacity_limits where
  "ex_limits = \<lparr> cl_global = 2, cl_perPrincipal = 1, cl_perTemplate = [] \<rparr>"

definition ex_claim :: admission_claim where
  "ex_claim = \<lparr> cm_workspaceId = ''w1'', cm_at = 5, cm_registrationDigest = [1], cm_registrationExpiresAt = 60005,
     cm_limits = ex_limits \<rparr>"

lemma ex_count: "ac_global (countActive ex_created) = 0" "ac_byPrincipal (countActive ex_created) = []"
    "ac_byTemplate (countActive ex_created) = []"
  by (simp_all add: countActive_def active_groups_def ex_created_tables is_active_def ACTIVE_STATES_def no_counts_def)

lemma ex_claimed:
  obtains d where "claimWorkspaceAdmission (ex_uuids ''2'') ex_created ex_claim = Inr (Some (claimed_row ex_claim ex_row), d)"
    and "workspaces d = [claimed_row ex_claim ex_row]" and "leases d = []" and "leaseFences d = []"
    and "secrets d = secrets empty_store" and "reachable d"
proof -
  let ?row = "claimed_row ex_claim ex_row"
  have row: "ws_id ?row = ''w1''" "ws_state ?row = Provisioning" "ws_purgeRequestedAt ?row = None"
    by (simp_all add: claimed_row_def)
  have "\<exists>d. claimWorkspaceAdmission (ex_uuids ''2'') ex_created ex_claim = Inr (Some ?row, d)
      \<and> workspaces d = [?row] \<and> leases d = [] \<and> leaseFences d = [] \<and> secrets d = secrets empty_store"
    using row
    by (simp add: claimWorkspaceAdmission_def ex_created_tables ex_claim_def ex_limits_def ex_count count_for_def
        template_limit_def Let_def appendTransition_def ex_uuids_def set_row_def)
       (simp add: ex_created_def empty_store_def)
  then obtain d where d: "claimWorkspaceAdmission (ex_uuids ''2'') ex_created ex_claim = Inr (Some ?row, d)"
    "workspaces d = [?row]" "leases d = []" "leaseFences d = []" "secrets d = secrets empty_store" by blast
  have "reachable d" by (rule reachable_step [OF ex_created_reached], rule store_step.claim, rule d(1))
  then show thesis using that d by blast
qed

definition ex_lease_request :: lease_request where
  "ex_lease_request = \<lparr> lr_workspaceId = ''w1'', lr_secretName = ''git'', lr_secretVersionId = ''v1'',
     lr_purpose = RuntimeIssuer, lr_policyDigest = ''sha256:1'', lr_requestId = ''r1'', lr_at = 10 \<rparr>"

lemma ex_references: "runtimeCredentialReferences ex_spec = [''git'']"
  by (simp add: runtimeCredentialReferences_def starts_with_def ex_spec_def)

theorem leases_end_with_the_workspace_witness:
  "\<exists>d l. reachable d \<and> l \<in> set (leases d) \<and> \<not> isClosed (l_state l)
     \<and> (\<exists>w. getWorkspace d (l_workspaceId l) = Some w \<and> \<not> isTerminal (ws_state w))"
proof -
  obtain d where d: "workspaces d = [claimed_row ex_claim ex_row]" "leases d = []" "leaseFences d = []"
    "secrets d = secrets empty_store" "reachable d" by (rule ex_claimed)
  have row: "ws_id (claimed_row ex_claim ex_row) = ''w1''" "ws_state (claimed_row ex_claim ex_row) = Provisioning"
    "ws_purgeRequestedAt (claimed_row ex_claim ex_row) = None" "ws_deadlineAt (claimed_row ex_claim ex_row) = 7200000"
    "ws_templateSnapshot (claimed_row ex_claim ex_row) = ex_snapshot"
    by (simp_all add: claimed_row_def) (simp add: ex_row_def new_workspace_def ex_insert_def)
  have "\<exists>l d'. requestWorkspaceLease (\<lambda>s. s) ''l1'' d ex_lease_request = Inr (l, d')
      \<and> leases d' = [l] \<and> l_state l = LRequested"
    by (simp add: requestWorkspaceLease_def d row ex_lease_request_def fenced_def leaseWorkspaceActive_def
        empty_store_def leaseSourceIdentity_def ex_references ex_snapshot_def
        enforceReferenceLimit_def Let_def new_lease_def guardE_def)
  then obtain l d' where run: "requestWorkspaceLease (\<lambda>s. s) ''l1'' d ex_lease_request = Inr (l, d')"
    and l: "leases d' = [l]" "l_state l = LRequested" by blast
  have reach: "reachable d'" by (rule reachable_step [OF d(5)], rule store_step.lease_request, rule run)
  have m: "l \<in> set (leases d')" using l(1) by simp
  have o: "\<not> isClosed (l_state l)" using l(2) by (simp add: isClosed_def)
  show ?thesis
    using leases_end_with_the_workspace [OF reach m, of d', THEN conjunct1] reach m o by blast
qed

section \<open>Purge\<close>


text \<open>A patch or a transition of a workspace being purged erases its content in the same write.\<close>

definition ex_purge_store :: store where
  "ex_purge_store = updateWorkspace
     (ex_created\<lparr>workspaces := [ex_row\<lparr>ws_purgeRequestedAt := Some 7\<rparr>]\<rparr>) ''w1'' no_patch 8"


section \<open>Capacity\<close>

lemma count_for_bump: "count_for (bump k n m) k' = count_for m k' + (if k' = k then n else 0)"
proof (induction m)
  case Nil
  then show ?case by (simp add: bump_def count_for_def)
next
  case (Cons p m)
  have mono: "map_of (map (\<lambda>q. if fst q = k then (k, snd q + n) else q) m) x =
      (if x = k then map_option (\<lambda>v. v + n) (map_of m k) else map_of m x)" for x
    by (induction m) auto
  show ?case
    using Cons by (cases "k \<in> fst ` set m"; cases "fst p = k"; cases "k' = fst p")
      (auto simp: bump_def count_for_def mono or_else_def split: option.splits if_splits)
qed

lemma foldl_counts:
  "ac_global (foldl add_group c gs) = ac_global c + sum_list (map snd gs)"
  "count_for (ac_byPrincipal (foldl add_group c gs)) p =
     count_for (ac_byPrincipal c) p + sum_list (map snd (filter (\<lambda>g. fst (fst g) = p) gs))"
  "count_for (ac_byTemplate (foldl add_group c gs)) t =
     count_for (ac_byTemplate c) t + sum_list (map snd (filter (\<lambda>g. snd (fst g) = t) gs))"
  by (induction gs arbitrary: c) (simp_all add: add_group_def count_for_bump)

lemma group_total:
  "sum_list (map snd (filter (\<lambda>g. P (fst g)) (map (\<lambda>g. (g, count_list xs g)) (dedup xs)))) = length (filter P xs)"
proof -
  have key: "sum_list (map (count_list xs) (filter P ys)) = length (filter (\<lambda>x. P x \<and> x \<in> set ys) xs)"
    if "distinct ys" for ys
    using that
  proof (induction ys)
    case Nil
    then show ?case by simp
  next
    case (Cons y ys)
    have split: "length (filter (\<lambda>x. P x \<and> x \<in> set (y # ys)) xs) =
        (if P y then count_list xs y else 0) + length (filter (\<lambda>x. P x \<and> x \<in> set ys) xs)"
      using Cons.prems by (induction xs) auto
    show ?case using Cons split by simp
  qed
  have "map snd (filter (\<lambda>g. P (fst g)) (map (\<lambda>g. (g, count_list xs g)) (dedup xs))) =
      map (count_list xs) (filter P (dedup xs))"
    by (simp add: filter_map o_def)
  moreover have "filter (\<lambda>x. P x \<and> x \<in> set (dedup xs)) xs = filter P xs" by (rule filter_cong) auto
  ultimately show ?thesis using key [of "dedup xs"] by simp
qed

text \<open>The counts the query and its loop compute are the numbers of active workspaces.\<close>

lemma countActive_correct:
  "ac_global (countActive d) = length (filter is_active (workspaces d))"
  "count_for (ac_byPrincipal (countActive d)) p = length (filter (\<lambda>r. is_active r \<and> ws_principalId r = p) (workspaces d))"
  "count_for (ac_byTemplate (countActive d)) t = length (filter (\<lambda>r. is_active r \<and> ws_templateName r = t) (workspaces d))"
proof -
  let ?act = "map (\<lambda>r. (ws_principalId r, ws_templateName r)) (filter is_active (workspaces d))"
  have g: "active_groups d = map (\<lambda>g. (g, count_list ?act g)) (dedup ?act)" by (simp add: active_groups_def Let_def)
  have z: "ac_global no_counts = 0" "count_for (ac_byPrincipal no_counts) x = 0" "count_for (ac_byTemplate no_counts) y = 0" for x y
    by (simp_all add: no_counts_def count_for_def)
  show "ac_global (countActive d) = length (filter is_active (workspaces d))"
    using group_total [of "\<lambda>_. True" ?act] unfolding countActive_def foldl_counts g z by simp
  show "count_for (ac_byPrincipal (countActive d)) p = length (filter (\<lambda>r. is_active r \<and> ws_principalId r = p) (workspaces d))"
    using group_total [of "\<lambda>g. fst g = p" ?act] unfolding countActive_def foldl_counts g z
    by (simp add: filter_map o_def conj_commute)
  show "count_for (ac_byTemplate (countActive d)) t = length (filter (\<lambda>r. is_active r \<and> ws_templateName r = t) (workspaces d))"
    using group_total [of "\<lambda>g. snd g = t" ?act] unfolding countActive_def foldl_counts g z
    by (simp add: filter_map o_def conj_commute)
qed

lemma length_filter_set_row:
  assumes "distinct (map key rows)" and "row_by key k rows = Some cur"
  shows "length (filter P (set_row key k (\<lambda>_. v) rows)) + (if P cur then 1 else 0) =
    length (filter P rows) + (if P v then 1 else 0)"
  using assms
proof (induction rows)
  case Nil
  then show ?case by simp
next
  case (Cons r rows)
  show ?case
  proof (cases "key r = k")
    case True
    then have "k \<notin> key ` set rows" using Cons.prems(1) by auto
    then have "set_row key k (\<lambda>_. v) rows = rows"
      unfolding set_row_def by (intro update_where_id) auto
    then show ?thesis using True Cons.prems(2) by (simp add: set_row_def)
  next
    case False
    then show ?thesis using Cons by (auto simp: set_row_def split: if_splits)
  qed
qed

definition active_count :: "store \<Rightarrow> (workspace_row \<Rightarrow> bool) \<Rightarrow> nat" where
  "active_count d P = length (filter (\<lambda>r. is_active r \<and> P r) (workspaces d))"



section \<open>Transitions\<close>

lemma appendTransition_outbox:
  assumes "appendTransition u row src reason at d = Inr d'"
  shows "eventOutbox d' = eventOutbox d @ (if ws_purgeRequestedAt row \<noteq> None then [] else
     [\<lparr> ob_id = u_event u, ob_workspaceId = ws_id row, ob_eventType = ''workspace.'' @ state_name (ws_state row),
        ob_payload = buildEventEnvelope (u_event u) row at, ob_occurredAt = at, ob_nextAttemptAt = at,
        ob_attemptCount = 0, ob_deliveredAt = None, ob_lastErrorCode = None \<rparr>])"
  using assms unfolding appendTransition_def Let_def by (simp split: if_splits) auto

lemma fence_outbox [simp]: "eventOutbox (fenceWorkspaceLeaseRows i at d) = eventOutbox d"
  by (simp add: fenceWorkspaceLeaseRows_def)

lemma retain_outbox [simp]: "eventOutbox (retain_conversation i e at d) = eventOutbox d"
  by (simp add: retain_conversation_def)

lemma commit_transition_outbox:
  assumes "commit_transition u d cur req = Inr (row, d')"
  shows "eventOutbox d' = eventOutbox d @ (if ws_purgeRequestedAt row \<noteq> None then [] else
     [\<lparr> ob_id = u_event u, ob_workspaceId = ws_id row, ob_eventType = ''workspace.'' @ state_name (ws_state row),
        ob_payload = buildEventEnvelope (u_event u) row (rq_at req), ob_occurredAt = rq_at req,
        ob_nextAttemptAt = rq_at req, ob_attemptCount = 0, ob_deliveredAt = None, ob_lastErrorCode = None \<rparr>])"
proof -
  let ?row = "transition_row cur req"
  let ?d1 = "d\<lparr>workspaces := set_row ws_id (ws_id cur) (\<lambda>_. ?row) (workspaces d)\<rparr>"
  obtain d2 where d2: "appendTransition u ?row (Some (ws_state cur)) (ws_reasonCode ?row) (rq_at req) ?d1 = Inr d2"
    and d': "d' = d2 \<or> (\<exists>e. d' = retain_conversation (ws_id cur) e (rq_at req) d2)" and row: "row = ?row"
    using assms unfolding commit_transition_def Let_def by (auto split: if_splits)
  have "eventOutbox d' = eventOutbox d2" using d' by auto
  then show ?thesis using appendTransition_outbox [OF d2] row by simp
qed



end
