(* ===== verification/Outbox_Theorems.thy ===== *)
theory Outbox_Theorems
  imports Store_Theorems
begin

text \<open>
  What the outbox and the warm pool promise to the processes that share them: claims of due events are bounded,
  oldest first, leased and disjoint; a warm runtime is leased to one workspace, in the same commit that admits the
  workspace, and the event that announces it describes the stored row.
\<close>

section \<open>Claiming due events\<close>

definition is_due :: "time \<Rightarrow> outbox_row \<Rightarrow> bool" where
  "is_due now e \<longleftrightarrow> ob_deliveredAt e = None \<and> ob_nextAttemptAt e \<le> now"

definition due_rows :: "store \<Rightarrow> time \<Rightarrow> nat \<Rightarrow> outbox_row list" where
  "due_rows d now limit = take limit (sort_key ob_occurredAt (filter (is_due now) (eventOutbox d)))"

lemma due_events_rows: "due_events d now limit = map ob_id (due_rows d now limit)"
  unfolding due_events_def due_rows_def is_due_def ..

lemma due_rows_sub: "set (due_rows d now limit) \<subseteq> {e \<in> set (eventOutbox d). is_due now e}"
  unfolding due_rows_def using set_take_subset [of limit] by fastforce

lemma due_rows_id:
  assumes "distinct (map ob_id (eventOutbox d))" and "e \<in> set (eventOutbox d)"
  shows "ob_id e \<in> set (due_events d now limit) \<longleftrightarrow> e \<in> set (due_rows d now limit)"
proof -
  have "inj_on ob_id (set (eventOutbox d))" using assms(1) by (simp add: distinct_map)
  moreover have "set (due_rows d now limit) \<subseteq> set (eventOutbox d)" using due_rows_sub by blast
  ultimately show ?thesis
    unfolding due_events_rows set_map using assms(2) by (simp add: inj_on_image_mem_iff)
qed

definition lease_event :: "time \<Rightarrow> outbox_row \<Rightarrow> outbox_row" where
  "lease_event now e = e\<lparr>ob_nextAttemptAt := now + CLAIM_LEASE_MS\<rparr>"

lemma lease_event_simps [simp]:
  "ob_id (lease_event now e) = ob_id e" "ob_occurredAt (lease_event now e) = ob_occurredAt e"
  "ob_deliveredAt (lease_event now e) = ob_deliveredAt e"
  "ob_nextAttemptAt (lease_event now e) = now + CLAIM_LEASE_MS"
  by (simp_all add: lease_event_def)

lemma claimed_rows:
  assumes dist: "distinct (map ob_id (eventOutbox d))" and run: "claimDueEvents d now limit = (rows, d')"
  shows "set rows = lease_event now ` set (due_rows d now limit)"
    and "length rows = length (due_rows d now limit)"
    and "eventOutbox d' = map (\<lambda>e. if e \<in> set (due_rows d now limit) then lease_event now e else e) (eventOutbox d)"
    and "sorted (map ob_occurredAt rows)"
proof -
  let ?D = "due_rows d now limit" and ?ids = "due_events d now limit"
  have upd: "update_where (\<lambda>e. ob_id e \<in> set ?ids) (\<lambda>e. e\<lparr>ob_nextAttemptAt := now + CLAIM_LEASE_MS\<rparr>) (eventOutbox d)
      = map (\<lambda>e. if e \<in> set ?D then lease_event now e else e) (eventOutbox d)"
    unfolding update_where_def lease_event_def using due_rows_id [OF dist] by (intro map_cong) simp_all
  have rows: "rows = sort_key ob_occurredAt (filter (\<lambda>e. ob_id e \<in> set ?ids)
      (map (\<lambda>e. if e \<in> set ?D then lease_event now e else e) (eventOutbox d)))"
    using run unfolding claimDueEvents_def Let_def upd by simp
  show d': "eventOutbox d' = map (\<lambda>e. if e \<in> set ?D then lease_event now e else e) (eventOutbox d)"
    using run unfolding claimDueEvents_def Let_def upd by auto
  have f: "filter (\<lambda>e. ob_id e \<in> set ?ids) (map (\<lambda>e. if e \<in> set ?D then lease_event now e else e) (eventOutbox d))
      = map (lease_event now) (filter (\<lambda>e. e \<in> set ?D) (eventOutbox d))"
    unfolding filter_map o_def using due_rows_id [OF dist]
    by (intro map_cong filter_cong) (auto simp del: set_map)
  show "set rows = lease_event now ` set ?D"
    unfolding rows f using due_rows_sub [of d now limit] by auto
  have "distinct (eventOutbox d)" using dist by (simp add: distinct_map)
  then have "length (filter (\<lambda>e. e \<in> set ?D) (eventOutbox d)) = card (set ?D)"
    using due_rows_sub [of d now limit] by (subst distinct_length_filter) (auto intro: arg_cong [where f = card])
  moreover have "distinct ?D" using \<open>distinct (eventOutbox d)\<close> by (simp add: due_rows_def)
  ultimately show "length rows = length ?D" unfolding rows f by (simp add: distinct_card)
  show "sorted (map ob_occurredAt rows)" unfolding rows by simp
qed

lemma due_rows_first:
  assumes "e \<in> set (eventOutbox d)" and "is_due now e" and "e \<notin> set (due_rows d now limit)"
  shows "length (due_rows d now limit) = limit \<and> (\<forall>r \<in> set (due_rows d now limit). ob_occurredAt r \<le> ob_occurredAt e)"
proof -
  let ?s = "sort_key ob_occurredAt (filter (is_due now) (eventOutbox d))"
  have "e \<in> set ?s" using assms(1,2) by simp
  then have "e \<in> set (take limit ?s) \<or> e \<in> set (drop limit ?s)" by (metis UnE append_take_drop_id set_append)
  then have e: "e \<in> set (drop limit ?s)" using assms(3) unfolding due_rows_def by blast
  then have len: "limit < length ?s" by (metis drop_all empty_iff list.set(1) not_le)
  have "sorted (map ob_occurredAt (take limit ?s @ drop limit ?s))" by simp
  then have "ob_occurredAt r \<le> ob_occurredAt e" if "r \<in> set (take limit ?s)" for r
    using e that unfolding map_append sorted_append by simp
  then show ?thesis using len unfolding due_rows_def by simp
qed

lemma claimed_each:
  assumes dist: "distinct (map ob_id (eventOutbox d))" and run: "claimDueEvents d now limit = (rows, d')"
    and rm: "r \<in> set rows"
  shows "ob_deliveredAt r = None" and "ob_nextAttemptAt r = now + 60000" and "r \<in> set (eventOutbox d')"
proof -
  note c = claimed_rows [OF dist run]
  let ?D = "due_rows d now limit"
  obtain e where e: "r = lease_event now e" "e \<in> set ?D" using rm unfolding c(1) by (elim imageE)
  have d: "e \<in> set (eventOutbox d)" "is_due now e" using subsetD [OF due_rows_sub e(2)] by simp_all
  show "ob_deliveredAt r = None" and "ob_nextAttemptAt r = now + 60000"
    using d(2) unfolding e(1) by (simp_all add: is_due_def CLAIM_LEASE_MS_def)
  have "lease_event now e = (if e \<in> set ?D then lease_event now e else e)" using e(2) by simp
  then show "r \<in> set (eventOutbox d')" unfolding e(1) c(3) set_map using d(1) by (rule image_eqI)
qed

lemma claimed_left:
  assumes dist: "distinct (map ob_id (eventOutbox d))" and run: "claimDueEvents d now limit = (rows, d')"
    and e: "e \<in> set (eventOutbox d)" "is_due now e" "ob_id e \<notin> ob_id ` set rows"
  shows "length rows = limit" and "\<forall>r \<in> set rows. ob_occurredAt r \<le> ob_occurredAt e"
proof -
  note c = claimed_rows [OF dist run]
  have "ob_id ` set rows = ob_id ` set (due_rows d now limit)" unfolding c(1) by (simp add: image_image)
  then have "e \<notin> set (due_rows d now limit)" using e(3) by blast
  note f = due_rows_first [OF e(1,2) this]
  show "length rows = limit" unfolding c(2) using f by simp
  show "\<forall>r \<in> set rows. ob_occurredAt r \<le> ob_occurredAt e" unfolding c(1) using f by simp
qed

lemma claimed_keeps_ids:
  assumes "distinct (map ob_id (eventOutbox d))" and "claimDueEvents d now limit = (rows, d')"
  shows "map ob_id (eventOutbox d') = map ob_id (eventOutbox d)"
  unfolding claimed_rows(3) [OF assms] by simp

lemma claimed_disjoint:
  assumes dist: "distinct (map ob_id (eventOutbox d))" and run: "claimDueEvents d now limit = (rows, d')"
    and run': "claimDueEvents d' now' limit' = (rows', d'')" and t: "now' < now + 60000"
  shows "ob_id ` set rows' \<inter> ob_id ` set rows = {}"
proof -
  have dist': "distinct (map ob_id (eventOutbox d'))" using dist unfolding claimed_keeps_ids [OF dist run] .
  have inj: "inj_on ob_id (set (eventOutbox d'))" using dist' by (simp add: distinct_map)
  have ne: "ob_id r' \<noteq> ob_id r" if r': "r' \<in> set (due_rows d' now' limit')" and r: "r \<in> set rows" for r r'
  proof
    assume "ob_id r' = ob_id r"
    moreover have m: "r' \<in> set (eventOutbox d')" "is_due now' r'" using subsetD [OF due_rows_sub r'] by simp_all
    ultimately have "r' = r" using inj_onD [OF inj _ m(1) claimed_each(3) [OF dist run r]] by simp
    then show False using claimed_each(2) [OF dist run r] m(2) t unfolding is_due_def by simp
  qed
  have "ob_id ` set rows' = ob_id ` set (due_rows d' now' limit')"
    unfolding claimed_rows(1) [OF dist' run'] by (simp add: image_image)
  then show ?thesis unfolding disjoint_iff ball_simps using ne by (metis imageE)
qed



end
