(* ===== verification/Outbox_Dispatcher.thy ===== *)
theory Outbox_Dispatcher
  imports Outbox_Theorems
begin

text \<open>
  The dispatcher that delivers the events of the outbox
  (\<^verbatim>\<open>packages/runtime-core/src/outbox/outbox.ts\<close>). The sink's answer is a function of the place of the event in the
  tick and of the request; the clock is a function of the place of the event and of the index of the read. Metrics
  and error callbacks only observe and are left out.
\<close>

section \<open>The dispatcher\<close>

datatype fetch_outcome = Answered nat | Failed

definition answer_ok :: "fetch_outcome \<Rightarrow> bool" where
  "answer_ok r = (case r of Answered s \<Rightarrow> 200 \<le> s \<and> s < 300 | Failed \<Rightarrow> False)"

record event_request =
  er_url :: string
  er_id :: ident
  er_timestamp :: string
  er_signature :: string
  er_body :: string

record outbox_deps =
  od_sinkUrl :: "string option"
  od_sign :: "string \<Rightarrow> string \<Rightarrow> string"
  od_fetch :: "nat \<Rightarrow> event_request \<Rightarrow> fetch_outcome"
  od_now :: "nat \<Rightarrow> clock"

definition BASE_BACKOFF_MS :: int where
  "BASE_BACKOFF_MS = 5000"

definition MAX_BACKOFF_MS :: int where
  "MAX_BACKOFF_MS = 600000"

definition retry_backoff :: "nat \<Rightarrow> int" where
  "retry_backoff attemptCount = min (BASE_BACKOFF_MS * 2 ^ attemptCount) MAX_BACKOFF_MS"

definition retry :: "store \<Rightarrow> time \<Rightarrow> ident \<Rightarrow> nat \<Rightarrow> string \<Rightarrow> store" where
  "retry d now i attemptCount errorCode = markEventFailed d i errorCode (now + retry_backoff attemptCount)"

definition event_request_of :: "outbox_deps \<Rightarrow> string \<Rightarrow> nat \<Rightarrow> outbox_row \<Rightarrow> event_request" where
  "event_request_of deps url j e =
     (let body = stringify (ob_payload e); timestamp = toISOString (od_now deps j 1)
      in \<lparr> er_url = url, er_id = ob_id e, er_timestamp = timestamp, er_signature = od_sign deps timestamp body, er_body = body \<rparr>)"

definition deliver_event :: "outbox_deps \<Rightarrow> nat \<times> outbox_row \<Rightarrow> store \<Rightarrow> store" where
  "deliver_event deps = (\<lambda>(j, e) d.
     case od_sinkUrl deps of
       None \<Rightarrow> markEventDelivered d (ob_id e) (od_now deps j 1)
     | Some url \<Rightarrow>
         if url = [] then markEventDelivered d (ob_id e) (od_now deps j 1)
         else (case od_fetch deps j (event_request_of deps url j e) of
                 Answered s \<Rightarrow>
                   if answer_ok (Answered s) then markEventDelivered d (ob_id e) (od_now deps j 2)
                   else retry d (od_now deps j 2) (ob_id e) (ob_attemptCount e) (''http_'' @ decimal s)
               | Failed \<Rightarrow> retry d (od_now deps j 2) (ob_id e) (ob_attemptCount e) ''network_error''))"

definition tick :: "outbox_deps \<Rightarrow> time \<Rightarrow> nat \<Rightarrow> store \<Rightarrow> store" where
  "tick deps now limit d =
     (let (events, d1) = claimDueEvents d now limit in fold (deliver_event deps) (enumerate 0 events) d1)"

interpretation outbox_backoff: backoff_policy BASE_BACKOFF_MS MAX_BACKOFF_MS retry_backoff
  by unfold_locales (simp_all add: BASE_BACKOFF_MS_def MAX_BACKOFF_MS_def retry_backoff_def backoff_ms_def)

section \<open>What a tick does to a row\<close>

definition accepted :: "outbox_deps \<Rightarrow> nat \<Rightarrow> outbox_row \<Rightarrow> bool" where
  "accepted deps j e = (case od_sinkUrl deps of None \<Rightarrow> True
     | Some url \<Rightarrow> url = [] \<or> answer_ok (od_fetch deps j (event_request_of deps url j e)))"

definition settle :: "outbox_deps \<Rightarrow> nat \<Rightarrow> outbox_row \<Rightarrow> outbox_row \<Rightarrow> outbox_row" where
  "settle deps j e r =
     (let refused = (\<lambda>code. r\<lparr>ob_attemptCount := ob_attemptCount r + 1, ob_lastErrorCode := Some code,
            ob_nextAttemptAt := od_now deps j 2 + retry_backoff (ob_attemptCount e)\<rparr>);
          delivered = (\<lambda>at. r\<lparr>ob_deliveredAt := Some at, ob_attemptCount := ob_attemptCount r + 1\<rparr>)
      in case od_sinkUrl deps of
           None \<Rightarrow> delivered (od_now deps j 1)
         | Some url \<Rightarrow>
             if url = [] then delivered (od_now deps j 1)
             else (case od_fetch deps j (event_request_of deps url j e) of
                     Answered s \<Rightarrow> if answer_ok (Answered s) then delivered (od_now deps j 2) else refused (''http_'' @ decimal s)
                   | Failed \<Rightarrow> refused ''network_error''))"

lemma deliver_event_settle:
  "deliver_event deps (j, e) d = d\<lparr>eventOutbox := set_row ob_id (ob_id e) (settle deps j e) (eventOutbox d)\<rparr>"
  unfolding deliver_event_def settle_def markEventDelivered_def markEventFailed_def retry_def Let_def
  by (simp split: option.split fetch_outcome.split)

lemma settle_cases:
  "ob_id (settle deps j e r) = ob_id r" "ob_attemptCount (settle deps j e r) = ob_attemptCount r + 1"
  "ob_payload (settle deps j e r) = ob_payload r"
  "accepted deps j e \<Longrightarrow> ob_deliveredAt (settle deps j e r) \<noteq> None"
  "\<not> accepted deps j e \<Longrightarrow> ob_deliveredAt (settle deps j e r) = ob_deliveredAt r
     \<and> ob_nextAttemptAt (settle deps j e r) = od_now deps j 2 + retry_backoff (ob_attemptCount e)"
  by (auto simp: settle_def accepted_def answer_ok_def Let_def split: option.splits fetch_outcome.splits)

lemma deliver_event_outbox:
  "eventOutbox (deliver_event deps p d) = set_row ob_id (ob_id (snd p)) (settle deps (fst p) (snd p)) (eventOutbox d)"
  by (cases p) (simp add: deliver_event_settle)

definition settle_all :: "outbox_deps \<Rightarrow> (nat \<times> outbox_row) list \<Rightarrow> outbox_row \<Rightarrow> outbox_row" where
  "settle_all deps = fold (\<lambda>p r. if ob_id r = ob_id (snd p) then settle deps (fst p) (snd p) r else r)"

lemma fold_settle: "eventOutbox (fold (deliver_event deps) jes d) = map (settle_all deps jes) (eventOutbox d)"
proof (induction jes arbitrary: d)
  case Nil
  have "settle_all deps [] = id" by (simp add: settle_all_def fun_eq_iff)
  then show ?case by simp
next
  case (Cons p jes)
  have "settle_all deps (p # jes) = settle_all deps jes \<circ> (\<lambda>r. if ob_id r = ob_id (snd p) then settle deps (fst p) (snd p) r else r)"
    by (simp add: settle_all_def fun_eq_iff)
  then show ?case
    unfolding fold_simps Cons.IH deliver_event_outbox set_row_def update_where_def by (simp only: map_map)
qed

lemma settle_all_id: "ob_id (settle_all deps jes r) = ob_id r"
  by (induction jes arbitrary: r) (simp_all add: settle_all_def settle_cases(1))

lemma settle_all_other: "ob_id r \<notin> (ob_id \<circ> snd) ` set jes \<Longrightarrow> settle_all deps jes r = r"
  by (induction jes) (simp_all add: settle_all_def)

lemma settle_all_hit:
  "distinct (map (ob_id \<circ> snd) jes) \<Longrightarrow> (j, e) \<in> set jes \<Longrightarrow> ob_id r = ob_id e \<Longrightarrow> settle_all deps jes r = settle deps j e r"
proof (induction jes arbitrary: r)
  case (Cons p jes)
  have step: "settle_all deps (p # jes) r = settle_all deps jes (if ob_id r = ob_id (snd p) then settle deps (fst p) (snd p) r else r)"
    by (simp add: settle_all_def)
  show ?case
  proof (cases "p = (j, e)")
    case True
    have "ob_id (settle deps j e r) \<notin> (ob_id \<circ> snd) ` set jes" using Cons.prems(1,3) True by (simp add: settle_cases(1))
    then show ?thesis unfolding step using True Cons.prems(3) by (simp add: settle_all_other)
  next
    case False
    then have m: "(j, e) \<in> set jes" using Cons.prems(2) by auto
    then have "ob_id e \<in> (ob_id \<circ> snd) ` set jes" by force
    moreover have "(ob_id \<circ> snd) p \<notin> (ob_id \<circ> snd) ` set jes" using Cons.prems(1) by simp
    ultimately have "ob_id r \<noteq> ob_id (snd p)" using Cons.prems(3) by (metis o_apply)
    then show ?thesis unfolding step using Cons.IH [OF _ m Cons.prems(3)] Cons.prems(1) by simp
  qed
qed simp

lemma enumerate_ids: "map (ob_id \<circ> snd) (enumerate 0 es) = map ob_id es"
  by (simp flip: map_map)

lemma tick_rows:
  assumes dist: "distinct (map ob_id (eventOutbox d))" and run: "claimDueEvents d now limit = (events, d1)"
  shows "eventOutbox (tick deps now limit d) =
    map (\<lambda>r. settle_all deps (enumerate 0 events) (if r \<in> set (due_rows d now limit) then lease_event now r else r)) (eventOutbox d)"
  unfolding tick_def run Let_def prod.case fold_settle claimed_rows(3) [OF dist run] map_map o_def ..

lemma events_distinct:
  assumes dist: "distinct (map ob_id (eventOutbox d))" and run: "claimDueEvents d now limit = (events, d1)"
  shows "distinct (map ob_id events)" "ob_id ` set events = ob_id ` set (due_rows d now limit)"
proof -
  have img: "ob_id ` set events = ob_id ` set (due_rows d now limit)"
    unfolding claimed_rows(1) [OF dist run] by (simp add: image_image)
  then show "ob_id ` set events = ob_id ` set (due_rows d now limit)" .
  have "distinct (map ob_id (sort_key ob_occurredAt (filter (is_due now) (eventOutbox d))))"
    using dist by (simp add: distinct_map inj_on_def)
  then have "distinct (map ob_id (due_rows d now limit))" unfolding due_rows_def by (simp add: take_map [symmetric] distinct_take)
  then have "card (ob_id ` set (due_rows d now limit)) = length (due_rows d now limit)"
    by (metis distinct_card length_map set_map)
  then have "card (set (map ob_id events)) = length (map ob_id events)"
    using img claimed_rows(2) [OF dist run] by simp
  then show "distinct (map ob_id events)" by (rule card_distinct)
qed

text \<open>A tick leaves every event that it did not claim as it was, and settles each one that it did.\<close>

lemma tick_map:
  assumes dist: "distinct (map ob_id (eventOutbox d))"
  obtains f where "eventOutbox (tick deps now limit d) = map f (eventOutbox d)" and "\<And>r. ob_id (f r) = ob_id r"
    and "\<And>r. r \<in> set (eventOutbox d) \<Longrightarrow> r \<notin> set (due_rows d now limit) \<Longrightarrow> f r = r"
    and "\<And>r. r \<in> set (due_rows d now limit) \<Longrightarrow> \<exists>j < limit. f r = settle deps j (lease_event now r) (lease_event now r)"
proof -
  obtain events d1 where run: "claimDueEvents d now limit = (events, d1)" by (cases "claimDueEvents d now limit")
  let ?f = "\<lambda>r. settle_all deps (enumerate 0 events) (if r \<in> set (due_rows d now limit) then lease_event now r else r)"
  note ev = events_distinct [OF dist run]
  have id: "ob_id (?f r) = ob_id r" for r by (simp add: settle_all_id)
  have other: "?f r = r" if r: "r \<in> set (eventOutbox d)" and n: "r \<notin> set (due_rows d now limit)" for r
  proof -
    have "ob_id r \<notin> ob_id ` set events"
      unfolding ev(2) using n due_rows_id [OF dist r] unfolding due_events_rows by simp
    then have "ob_id r \<notin> (ob_id \<circ> snd) ` set (enumerate 0 events)" by (metis enumerate_ids set_map)
    then show ?thesis using n by (simp add: settle_all_other)
  qed
  have hit: "\<exists>j < limit. ?f r = settle deps j (lease_event now r) (lease_event now r)" if m: "r \<in> set (due_rows d now limit)" for r
  proof -
    have "lease_event now r \<in> set events" unfolding claimed_rows(1) [OF dist run] using m by simp
    then obtain j where j: "j < length events" "events ! j = lease_event now r" by (metis in_set_conv_nth)
    have "(j, lease_event now r) \<in> set (enumerate 0 events)" using j by (simp add: in_set_enumerate_eq)
    moreover have "distinct (map (ob_id \<circ> snd) (enumerate 0 events))" unfolding enumerate_ids by (rule ev(1))
    ultimately have "settle_all deps (enumerate 0 events) (lease_event now r) = settle deps j (lease_event now r) (lease_event now r)"
      by (intro settle_all_hit) simp_all
    moreover have "j < limit" using j(1) claimed_rows(2) [OF dist run] by (simp add: due_rows_def)
    ultimately show ?thesis using m by auto
  qed
  show ?thesis by (rule that [of ?f, OF tick_rows [OF dist run] id other hit])
qed

lemma tick_ids:
  assumes dist: "distinct (map ob_id (eventOutbox d))"
  shows "map ob_id (eventOutbox (tick deps now limit d)) = map ob_id (eventOutbox d)"
  by (rule tick_map [OF dist, of deps now limit]) (simp add: o_def)

section \<open>Draining the outbox\<close>

definition pending_event :: "outbox_row \<Rightarrow> bool" where
  "pending_event e \<longleftrightarrow> ob_deliveredAt e = None"

definition pending_events :: "store \<Rightarrow> outbox_row list" where
  "pending_events d = filter pending_event (eventOutbox d)"

fun run_ticks :: "nat \<Rightarrow> (outbox_deps \<times> time) list \<Rightarrow> store \<Rightarrow> store" where
  "run_ticks limit [] d = d"
| "run_ticks limit ((deps, now) # ts) d = run_ticks limit ts (tick deps now limit d)"

lemma filter_map_settled:
  assumes "\<And>r. r \<in> set rows \<Longrightarrow> r \<notin> D \<Longrightarrow> f r = r" and "\<And>r. r \<in> D \<Longrightarrow> \<not> P (f r)"
  shows "filter P (map f rows) = filter (\<lambda>r. P r \<and> r \<notin> D) rows"
  using assms(1)
proof (induction rows)
  case (Cons r rows)
  then have "filter P (map f rows) = filter (\<lambda>r. P r \<and> r \<notin> D) rows" by (meson list.set_intros(2))
  then show ?case using Cons.prems [of r] assms(2) [of r] by (cases "r \<in> D") simp_all
qed simp

lemma tick_pending:
  assumes dist: "distinct (map ob_id (eventOutbox d))" and ok: "\<And>j e. accepted deps j e"
  shows "pending_events (tick deps now limit d) = filter (\<lambda>r. r \<notin> set (due_rows d now limit)) (pending_events d)"
proof (rule tick_map [OF dist, of deps now limit])
  fix f
  assume f: "eventOutbox (tick deps now limit d) = map f (eventOutbox d)"
    and other: "\<And>r. r \<in> set (eventOutbox d) \<Longrightarrow> r \<notin> set (due_rows d now limit) \<Longrightarrow> f r = r"
    and hit: "\<And>r. r \<in> set (due_rows d now limit) \<Longrightarrow> \<exists>j < limit. f r = settle deps j (lease_event now r) (lease_event now r)"
  have "\<not> pending_event (f r)" if "r \<in> set (due_rows d now limit)" for r
    using hit [OF that] settle_cases(4) [OF ok] unfolding pending_event_def by metis
  then have "pending_events (tick deps now limit d) = filter (\<lambda>r. pending_event r \<and> r \<notin> set (due_rows d now limit)) (eventOutbox d)"
    unfolding pending_events_def f using filter_map_settled [of "eventOutbox d" "set (due_rows d now limit)" f pending_event] other by blast
  then show ?thesis unfolding pending_events_def filter_filter by (simp add: conj_commute)
qed

lemma tick_pending_length:
  assumes dist: "distinct (map ob_id (eventOutbox d))" and ok: "\<And>j e. accepted deps j e"
    and due: "\<And>e. e \<in> set (pending_events d) \<Longrightarrow> ob_nextAttemptAt e \<le> now"
  shows "length (pending_events (tick deps now limit d)) = length (pending_events d) - limit"
    "set (pending_events (tick deps now limit d)) \<subseteq> set (pending_events d)"
proof -
  have "distinct (eventOutbox d)" using dist by (simp add: distinct_map)
  then have dp: "distinct (pending_events d)" by (simp add: pending_events_def)
  have "is_due now e \<longleftrightarrow> pending_event e" if "e \<in> set (eventOutbox d)" for e
    using due [of e] that by (auto simp: is_due_def pending_event_def pending_events_def)
  then have "filter (is_due now) (eventOutbox d) = pending_events d" unfolding pending_events_def by (rule filter_cong [OF HOL.refl])
  then have D: "due_rows d now limit = take limit (sort_key ob_occurredAt (pending_events d))" by (simp add: due_rows_def)
  have "distinct (due_rows d now limit)" "set (due_rows d now limit) \<subseteq> set (pending_events d)"
    unfolding D using dp set_take_subset by (fastforce simp: distinct_take)+
  then have "length (filter (\<lambda>r. r \<in> set (due_rows d now limit)) (pending_events d)) = length (due_rows d now limit)"
    using dp by (simp add: distinct_length_filter Int_absorb2 distinct_card)
  moreover have "length (filter (\<lambda>r. r \<in> set (due_rows d now limit)) (pending_events d))
      + length (filter (\<lambda>r. r \<notin> set (due_rows d now limit)) (pending_events d)) = length (pending_events d)"
    by (rule sum_length_filter_compl)
  moreover have "length (due_rows d now limit) = min limit (length (pending_events d))" unfolding D by simp
  ultimately show "length (pending_events (tick deps now limit d)) = length (pending_events d) - limit"
    unfolding tick_pending [OF dist ok] by linarith
  show "set (pending_events (tick deps now limit d)) \<subseteq> set (pending_events d)" unfolding tick_pending [OF dist ok] by simp
qed

lemma run_ticks_pending:
  assumes "\<forall>p \<in> set ts. t0 \<le> snd p \<and> (\<forall>j e. accepted (fst p) j e)"
  shows "distinct (map ob_id (eventOutbox d)) \<Longrightarrow> \<forall>e \<in> set (pending_events d). ob_nextAttemptAt e \<le> t0 \<Longrightarrow>
    length (pending_events (run_ticks limit ts d)) = length (pending_events d) - limit * length ts"
  using assms
proof (induction limit ts d rule: run_ticks.induct)
  case (2 limit deps now ts d)
  have ok: "\<And>j e. accepted deps j e" and t: "t0 \<le> now" using "2.prems"(3) by simp_all
  have due: "ob_nextAttemptAt e \<le> now" if "e \<in> set (pending_events d)" for e using "2.prems"(2) that t by fastforce
  note l = tick_pending_length [of d deps now limit, OF "2.prems"(1) ok due]
  have "length (pending_events (run_ticks limit ts (tick deps now limit d))) = length (pending_events (tick deps now limit d)) - limit * length ts"
  proof (rule "2.IH")
    show "distinct (map ob_id (eventOutbox (tick deps now limit d)))" using "2.prems"(1) by (simp add: tick_ids)
    show "\<forall>e \<in> set (pending_events (tick deps now limit d)). ob_nextAttemptAt e \<le> t0" using "2.prems"(2) l(2) by blast
  qed (use "2.prems"(3) in simp)
  then show ?case unfolding run_ticks.simps using l(1) by simp
qed simp

text \<open>
  C33. The outbox drains: when the sink accepts every request, ticks at or after the time the undelivered events are
  due deliver \<open>limit\<close> of them each until none is left, so after as many ticks as it takes \<open>limit\<close> at a time, every
  event of the outbox is delivered.
\<close>
theorem outbox_drains:
  assumes "distinct (map ob_id (eventOutbox d))"
    and "\<forall>e \<in> set (eventOutbox d). ob_deliveredAt e = None \<longrightarrow> ob_nextAttemptAt e \<le> t0"
    and "\<forall>p \<in> set ts. t0 \<le> snd p \<and> (\<forall>j e. accepted (fst p) j e)"
    and "length (pending_events d) \<le> limit * length ts"
  shows "\<forall>e \<in> set (eventOutbox (run_ticks limit ts d)). ob_deliveredAt e \<noteq> None"
proof -
  have "\<forall>e \<in> set (pending_events d). ob_nextAttemptAt e \<le> t0" using assms(2) by (simp add: pending_events_def pending_event_def)
  then have "length (pending_events (run_ticks limit ts d)) = 0" using run_ticks_pending [OF assms(3,1)] assms(4) by simp
  then show ?thesis by (auto simp: pending_events_def filter_empty_conv pending_event_def)
qed

text \<open>
  C34. A tick treats each event on its own and never gives up on one: an event it did not claim is unchanged; one it
  claimed counts one more attempt and is either delivered, when the sink accepted it, or stays undelivered and is
  due again between five seconds and ten minutes after the failed attempt.
\<close>
theorem tick_delivers_or_reschedules:
  assumes "distinct (map ob_id (eventOutbox d))" and "r \<in> set (eventOutbox d)"
  shows "\<exists>r' \<in> set (eventOutbox (tick deps now limit d)). ob_id r' = ob_id r \<and>
    (if r \<notin> set (due_rows d now limit) then r' = r
     else \<exists>j < limit. ob_attemptCount r' = ob_attemptCount r + 1 \<and>
       (if accepted deps j (lease_event now r) then ob_deliveredAt r' \<noteq> None
        else ob_deliveredAt r' = None \<and> od_now deps j 2 + 5000 \<le> ob_nextAttemptAt r' \<and> ob_nextAttemptAt r' \<le> od_now deps j 2 + 600000))"
proof (rule tick_map [OF assms(1), of deps now limit])
  fix f
  assume f: "eventOutbox (tick deps now limit d) = map f (eventOutbox d)" and id: "\<And>r. ob_id (f r) = ob_id r"
    and other: "\<And>r. r \<in> set (eventOutbox d) \<Longrightarrow> r \<notin> set (due_rows d now limit) \<Longrightarrow> f r = r"
    and hit: "\<And>r. r \<in> set (due_rows d now limit) \<Longrightarrow> \<exists>j < limit. f r = settle deps j (lease_event now r) (lease_event now r)"
  have mem: "f r \<in> set (eventOutbox (tick deps now limit d))" unfolding f using assms(2) by simp
  show ?thesis
  proof (cases "r \<in> set (due_rows d now limit)")
    case False
    then show ?thesis using mem id [of r] other [OF assms(2) False] by (intro bexI [of _ "f r"]) simp_all
  next
    case True
    then obtain j where j: "j < limit" "f r = settle deps j (lease_event now r) (lease_event now r)" using hit by blast
    have undelivered: "ob_deliveredAt r = None" using due_rows_sub True by (auto simp: is_due_def)
    have "ob_attemptCount (f r) = ob_attemptCount r + 1" unfolding j(2) settle_cases(2) by (simp add: lease_event_def)
    moreover have "if accepted deps j (lease_event now r) then ob_deliveredAt (f r) \<noteq> None
        else ob_deliveredAt (f r) = None \<and> od_now deps j 2 + 5000 \<le> ob_nextAttemptAt (f r) \<and> ob_nextAttemptAt (f r) \<le> od_now deps j 2 + 600000"
      unfolding j(2)
      using settle_cases(4,5) [of deps j "lease_event now r" "lease_event now r"] undelivered
        outbox_backoff.delay_bounds [of "ob_attemptCount (lease_event now r)"]
      by (simp add: BASE_BACKOFF_MS_def MAX_BACKOFF_MS_def)
    ultimately show ?thesis using mem id [of r] True j(1) by (intro bexI [of _ "f r"]) auto
  qed
qed

definition ex_sink :: outbox_deps where
  "ex_sink = \<lparr> od_sinkUrl = Some ''https://sink'', od_sign = (\<lambda>ts body. ''sha256=''), od_fetch = (\<lambda>j q. Answered 204),
     od_now = (\<lambda>j k. 100) \<rparr>"

definition ex_down :: outbox_deps where
  "ex_down = ex_sink\<lparr>od_fetch := (\<lambda>j q. Answered 503)\<rparr>"

lemma ex_outbox:
  "distinct (map ob_id (eventOutbox ex_created))" "length (eventOutbox ex_created) = 1"
  "\<forall>e \<in> set (eventOutbox ex_created). ob_deliveredAt e = None \<and> ob_nextAttemptAt e \<le> 10"
  by (simp_all add: ex_created_def)

lemma ex_due: "due_rows ex_created 10 5 = eventOutbox ex_created"
  by (simp add: due_rows_def is_due_def ex_created_def)

theorem outbox_drains_witness:
  "length (pending_events ex_created) = 1
   \<and> list_all (\<lambda>e. ob_deliveredAt e \<noteq> None) (eventOutbox (run_ticks 5 [(ex_sink, 10)] ex_created))"
proof -
  have p: "length (pending_events ex_created) = 1"
    using ex_outbox(2,3) by (simp add: pending_events_def pending_event_def)
  have a: "accepted ex_sink j e" for j e by (simp add: accepted_def ex_sink_def answer_ok_def)
  have "\<forall>e \<in> set (eventOutbox (run_ticks 5 [(ex_sink, 10)] ex_created)). ob_deliveredAt e \<noteq> None"
    by (rule outbox_drains [where ?t0.0 = 10]) (use ex_outbox p a in simp_all)
  then show ?thesis using p by (simp add: list_all_iff)
qed

theorem tick_delivers_or_reschedules_witness:
  "list_ex (\<lambda>r. ob_attemptCount r = 1 \<and> ob_deliveredAt r = None \<and> 5100 \<le> ob_nextAttemptAt r \<and> ob_nextAttemptAt r \<le> 600100)
     (eventOutbox (tick ex_down 10 5 ex_created))"
proof -
  obtain r where r: "r \<in> set (eventOutbox ex_created)" "ob_attemptCount r = 0" by (simp add: ex_created_def)
  have a: "\<not> accepted ex_down j e" for j e by (simp add: accepted_def ex_down_def ex_sink_def answer_ok_def)
  have t: "od_now ex_down j 2 = 100" for j by (simp add: ex_down_def ex_sink_def)
  show ?thesis
    using tick_delivers_or_reschedules [OF ex_outbox(1) r(1), of ex_down 10 5] r a t by (auto simp: ex_due list_ex_iff)
qed

end
