(* ===== verification/Execution_Example.thy ===== *)
theory Execution_Example
  imports Workspace_Theorems
begin

text \<open>
  A workspace that runs a finite process, with an execution accepted and claimed: the store on which the
  properties of the execution ledger are evaluated. The hash is a constant function.
\<close>

section \<open>A workspace that runs a process\<close>

definition ex_capabilities :: json where
  "ex_capabilities = JArr [JStr ''explicit-start'', JStr ''exact-exit'', JStr ''targeted-cancel'', JStr ''stop-before-export'']"

definition ex_template :: json where
  "ex_template = JObj [(''digest'', JStr ''sha256:0''), (''manifest'', JObj [(''spec'', JObj
     [(''image'', JStr ''img''), (''runtime'', JStr ''oci''),
      (''adapters'', JObj [(''a'', JObj [(''digest'', JStr ''sha256:a''), (''protocol'', JStr ''process''), (''kind'', JStr ''process'')])]),
      (''operations'', JObj [(''run'', JObj [(''adapter'', JStr ''a''), (''inputSchema'', JObj [(''type'', JStr ''object'')])])])])])]"

definition ex_producer :: json where
  "ex_producer = JObj [(''templateDigest'', JStr ''sha256:0''), (''workspaceId'', JStr ''w1''), (''incarnationId'', JStr ''i1''),
     (''image'', JStr ''img''), (''runtime'', JStr ''oci''), (''capabilities'', ex_capabilities),
     (''adapters'', JObj [(''a'', JObj [(''digest'', JStr ''sha256:a''), (''protocol'', JStr ''process''), (''kind'', JStr ''process''),
        (''capabilities'', ex_capabilities)])])]"

definition ex_runtime :: runtime_registration where
  "ex_runtime = \<lparr> rr_incarnationId = ''i1'', rr_containerIdentity = ''c1'', rr_profile = ''finite-process'',
     rr_producer = Some ex_producer, rr_template = Some ex_template, rr_readyAt = Some ''t'', rr_endedAt = None \<rparr>"

definition ex_running :: store where
  "ex_running = ex_created\<lparr>workspaces := [ex_row\<lparr>ws_state := Ready, ws_runtimeRegistration := Some ex_runtime\<rparr>]\<rparr>"

definition ex_reference :: execution_reference where
  "ex_reference = \<lparr> xr_workspaceId = ''w1'', xr_incarnationId = ''i1'', xr_owner = OwnerProcess, xr_requestId = ''q1'' \<rparr>"

definition ex_acceptance :: workload_acceptance where
  "ex_acceptance = \<lparr> ac_execution = ex_reference, ac_callerPrincipalId = ''p1'', ac_templateDigest = ''sha256:0'',
     ac_adapterDigest = ''sha256:a'', ac_operation = ''run'', ac_input = [],
     ac_inputs = \<lparr> im_workspaceId = ''w1'', im_incarnationId = ''i1'', im_digest = ''sha256:h'', im_objects = [] \<rparr>,
     ac_bindingSetDigest = ''sha256:h'', ac_fingerprint = ''sha256:h'' \<rparr>"

definition ex_sha :: "string \<Rightarrow> string" where
  "ex_sha s = ''h''"

definition ex_principals :: "principal_row list" where
  "ex_principals = [example_principal\<lparr>p_id := ''p1'', p_disabledAt := None\<rparr>]"

lemma ex_digest [simp]: "digestOf ex_sha j = ''sha256:h''"
  by (simp add: digestOf_def ex_sha_def)

lemma ex_valid: "valid_acceptance ex_sha ex_acceptance"
  by (simp add: valid_acceptance_def valid_manifest_def ex_acceptance_def ex_reference_def)

lemma ex_row_exec [simp]:
  "ws_templateDigest ex_row = ''sha256:0''" "ws_deadlineAt ex_row = 7200000" "ws_processExecution ex_row = None"
  "ws_finiteProcess ex_row = None"
  by (simp_all add: ex_row_def new_workspace_def ex_insert_def ex_snapshot_def)

abbreviation ex_accepted_record :: execution_record where
  "ex_accepted_record \<equiv> new_execution ex_acceptance None 50"

abbreviation ex_running_row :: workspace_row where
  "ex_running_row \<equiv> ex_row\<lparr>ws_state := Ready, ws_runtimeRegistration := Some ex_runtime\<rparr>"

definition ex_accepted :: store where
  "ex_accepted = ex_running\<lparr>workspaces := [ex_running_row\<lparr>ws_processExecution := Some ex_accepted_record\<rparr>],
     inputManifests := [\<lparr> mf_id = executionInputManifestId ex_sha ex_acceptance, mf_manifest = ac_inputs ex_acceptance, mf_finalizedAt = None \<rparr>]\<rparr>"

lemma ex_evidence: "installedEvidence (ex_running_row\<lparr>ws_processExecution := e\<rparr>) ex_acceptance = Inr (ex_template, ex_producer)"
  by (simp add: installedEvidence_def ex_runtime_def ex_template_def ex_producer_def ex_acceptance_def own_def)

lemma ex_validated: "validateExecution ex_sha (ex_running_row\<lparr>ws_processExecution := e\<rparr>) ex_acceptance 50 None = Inr ()"
proof -
  have live: "live_incarnation (ex_running_row\<lparr>ws_processExecution := e\<rparr>) ex_acceptance 50 = Some ex_runtime"
    by (simp add: live_incarnation_def ex_runtime_def ex_acceptance_def ex_reference_def)
  have p: "ws_principalId (ex_running_row\<lparr>ws_processExecution := e\<rparr>) = ac_callerPrincipalId ex_acceptance" by (simp add: ex_acceptance_def)
  show ?thesis
    unfolding validateExecution_def live ex_evidence p
    by (simp add: installed_adapter_def template_spec_of_def ex_runtime_def ex_template_def ex_producer_def ex_acceptance_def
        ex_reference_def own_def adapter_name_def validateOwner_def operation_capabilities_def ex_capabilities_def
        strings_def member_names_def validateInputLimits_def exceeds_def)
qed

lemma ex_running_none: "getExecution ex_running ex_reference = None"
  by (simp add: getExecution_def readExecution_def ex_running_def ex_reference_def sameExecution_def)

lemma ex_accept_run:
  "acceptExecution ex_sha ex_principals ex_running ex_acceptance 50 None = Inr (Accepted ex_accepted_record, ex_accepted)"
proof -
  have ref: "ac_execution ex_acceptance = ex_reference" "ac_callerPrincipalId ex_acceptance = ''p1''"
    "im_objects (ac_inputs ex_acceptance) = []" by (simp_all add: ex_acceptance_def)
  have x: "xr_workspaceId ex_reference = ''w1''" "xr_owner ex_reference = OwnerProcess" by (simp_all add: ex_reference_def)
  have row: "row_by ws_id ''w1'' (workspaces ex_running) = Some ex_running_row" by (simp add: ex_running_def)
  have read: "readExecution ex_running ex_running_row ex_reference = None"
    by (simp add: readExecution_def x sameExecution_def)
  have prin: "requireExecutionPrincipal ex_principals ''p1'' = Inr ()"
    by (simp add: requireExecutionPrincipal_def ex_principals_def)
  have "ex_running_row\<lparr>ws_processExecution := None\<rparr> = ex_running_row" by (rule workspace_row.equality) simp_all
  then have val: "validateExecution ex_sha ex_running_row ex_acceptance 50 None = Inr ()"
    using ex_validated [of None] by (simp only:)
  have own: "acceptance_owner ex_running ex_running_row ex_acceptance None = Inr None"
    by (simp add: acceptance_owner_def ref x)
  have pin: "pinExecutionInputs ex_sha ex_running ex_acceptance 50 = Inr (ex_running\<lparr>inputManifests :=
      [\<lparr> mf_id = executionInputManifestId ex_sha ex_acceptance, mf_manifest = ac_inputs ex_acceptance, mf_finalizedAt = None \<rparr>]\<rparr>)"
    by (simp add: pinExecutionInputs_def ref ex_running_def ex_created_def empty_store_def)
  show ?thesis
    unfolding acceptExecution_def
    by (simp add: ex_valid ref x row read prin val own pin)
      (simp add: store_acceptance_def ref x set_workspace_def set_row_def ex_running_def ex_accepted_def)
qed

lemma ex_running_inv: "full_inv ex_running"
proof -
  have t: "workspaces ex_running = [ex_running_row]" "leases ex_running = []" "leaseFences ex_running = []"
    "conversationRequests ex_running = []"
    by (simp_all add: ex_running_def ex_created_def empty_store_def)
  show ?thesis by (simp add: full_inv_def exec_inv_def requests_inv_def store_inv_def lease_ok_def t)
qed

definition ex_claimed_store :: store where
  "ex_claimed_store = ex_accepted\<lparr>workspaces := [ex_running_row\<lparr>ws_processExecution := Some (claimed_record ex_accepted_record 50)\<rparr>]\<rparr>"

lemma ex_claim_run:
  "claimExecution ex_sha ex_principals ex_accepted ex_reference 50 =
     Inr (Some (True, claimed_record ex_accepted_record 50), ex_claimed_store)"
proof -
  have ref: "ac_execution ex_acceptance = ex_reference" "ac_callerPrincipalId ex_acceptance = ''p1''"
    "im_objects (ac_inputs ex_acceptance) = []" by (simp_all add: ex_acceptance_def)
  have x: "xr_workspaceId ex_reference = ''w1''" "xr_owner ex_reference = OwnerProcess" by (simp_all add: ex_reference_def)
  let ?row = "ex_running_row\<lparr>ws_processExecution := Some ex_accepted_record\<rparr>"
  have row: "row_by ws_id ''w1'' (workspaces ex_accepted) = Some ?row" by (simp add: ex_accepted_def)
  have read: "readExecution ex_accepted ?row ex_reference = Some ex_accepted_record"
    by (simp add: readExecution_def x ref)
  have prin: "requireExecutionPrincipal ex_principals ''p1'' = Inr ()"
    by (simp add: requireExecutionPrincipal_def ex_principals_def)
  have inp: "requireExecutionInputs ex_sha ex_accepted ex_acceptance = Inr ()"
    by (simp add: requireExecutionInputs_def ref ex_accepted_def same_manifest_text_def)
  have new: "er_cancel ex_accepted_record = None" "\<not> executionSettled ex_accepted_record" "er_dispatchClaimedAt ex_accepted_record = None"
    by (simp_all add: new_execution_def executionSettled_def)
  have claimed: "er_acceptance (claimed_record ex_accepted_record 50) = ex_acceptance" by (simp add: claimed_record_def)
  show ?thesis
    unfolding claimExecution_def withOwner_def x row
    by (simp add: read new ref prin ex_validated inp writeExecution_def claimed Let_def x)
      (simp add: ex_claimed_store_def set_workspace_def set_row_def ex_accepted_def)
qed

lemma ex_accepted_inv: "full_inv ex_accepted" and ex_claimed_inv: "full_inv ex_claimed_store"
proof -
  show a: "full_inv ex_accepted"
    using store_step_full [OF store_step.execution_accept [OF ex_accept_run] ex_running_inv] by blast
  show "full_inv ex_claimed_store"
    using store_step_full [OF store_step.execution_claim [OF ex_claim_run] a] by blast
qed

lemma ex_claim_again:
  "claimExecution ex_sha ex_principals ex_claimed_store ex_reference 50 =
     Inr (Some (False, claimed_record ex_accepted_record 50), ex_claimed_store)"
proof -
  have ref: "ac_execution ex_acceptance = ex_reference" "ac_callerPrincipalId ex_acceptance = ''p1''"
    "im_objects (ac_inputs ex_acceptance) = []" by (simp_all add: ex_acceptance_def)
  have x: "xr_workspaceId ex_reference = ''w1''" "xr_owner ex_reference = OwnerProcess" by (simp_all add: ex_reference_def)
  let ?e = "claimed_record ex_accepted_record 50"
  let ?row = "ex_running_row\<lparr>ws_processExecution := Some ?e\<rparr>"
  have new: "er_cancel ?e = None" "\<not> executionSettled ?e" "er_dispatchClaimedAt ?e \<noteq> None" "er_acceptance ?e = ex_acceptance"
    "er_conversationIdentity ?e = None" "claimed_record ?e 50 = ?e"
    by (simp_all add: new_execution_def executionSettled_def claimed_record_def)
  have row: "row_by ws_id ''w1'' (workspaces ex_claimed_store) = Some ?row" by (simp add: ex_claimed_store_def)
  have read: "readExecution ex_claimed_store ?row ex_reference = Some ?e"
    by (simp add: readExecution_def x ref new)
  have prin: "requireExecutionPrincipal ex_principals ''p1'' = Inr ()"
    by (simp add: requireExecutionPrincipal_def ex_principals_def)
  have inp: "requireExecutionInputs ex_sha ex_claimed_store ex_acceptance = Inr ()"
    by (simp add: requireExecutionInputs_def ref ex_claimed_store_def ex_accepted_def same_manifest_text_def)
  have w: "writeExecution ex_claimed_store ?e = Inr ex_claimed_store"
    by (simp add: writeExecution_def new ref x Let_def ex_claimed_store_def set_workspace_def set_row_def)
  show ?thesis
    unfolding claimExecution_def withOwner_def x row
    using new(3) by (simp add: read new(1,2,4,5,6) ref prin ex_validated inp w)
qed

end
