(* ===== verification/Execution_Theorems.thy ===== *)
theory Execution_Theorems
  imports Execution_Example
begin

text \<open>
  What the execution ledger promises to the callers that submit executions and to the dispatcher that runs
  them, for every interleaving of transactions.
\<close>

lemma withOwner_found:
  "row_by ws_id (xr_workspaceId x) (workspaces d) = Some w \<Longrightarrow> readExecution d w x = Some r \<Longrightarrow> withOwner d x t = t w r"
  by (simp add: withOwner_def)

section \<open>The ledger over time\<close>

lemma ledger_inv: "full_inv d \<Longrightarrow> store_inv d" "full_inv d \<Longrightarrow> exec_inv d"
  by (simp_all add: full_inv_def)

lemma ledger_reaches:
  assumes "full_inv d" and "reaches store_step d d'"
  shows "slot_le (\<lambda>e. execution_ref e = x) (purged d (xr_workspaceId x)) (purged d' (xr_workspaceId x))
      (getExecution d x) (getExecution d' x)"
    and "purged d i \<Longrightarrow> purged d' i"
  using tables.reaches_le [OF assms(2,1)] unfolding full_le_def ledger_le_def by blast+

lemma ledger_later:
  assumes "full_inv d" and "reaches store_step d d'" and "getExecution d x = Some r"
  obtains (kept) r' where "getExecution d' x = Some r'" "execution_le r r'"
  | (purged) "getExecution d' x = None" "purged d' (xr_workspaceId x)"
  using ledger_reaches(1) [OF assms(1,2), of x] assms(3) by (cases "getExecution d' x") (auto simp: slot_le_def)

lemma after_write:
  assumes inv: "store_inv d" "exec_inv d" and get: "getExecution d (execution_ref r) = Some r"
    and le: "execution_le r r'" and run: "writeExecution d r' = Inr d'"
  shows "getExecution d' (execution_ref r) = Some r'"
proof (cases "xr_owner (execution_ref r)")
  case OwnerProcess
  have ref: "execution_ref r' = execution_ref r" by (rule execution_le_ref [OF le])
  obtain w where w: "row_by ws_id (xr_workspaceId (execution_ref r)) (workspaces d) = Some w"
    using get unfolding getExecution_process [OF OwnerProcess] by (auto simp: bind_eq_Some_conv)
  have d': "d' = set_workspace (xr_workspaceId (execution_ref r)) (\<lambda>w. w\<lparr>ws_processExecution := Some r'\<rparr>) d"
    using run OwnerProcess unfolding writeExecution_def Let_def ref by simp
  have "row_by ws_id (xr_workspaceId (execution_ref r)) (workspaces d') = Some (w\<lparr>ws_processExecution := Some r'\<rparr>)"
    unfolding d' set_workspace_def set_row_def
    by (simp add: row_by_update_where_keep w row_by_SomeD [OF w])
  then show ?thesis unfolding getExecution_process [OF OwnerProcess] by (simp add: ref)
next
  case OwnerConversation
  have ref: "execution_ref r' = execution_ref r" by (rule execution_le_ref [OF le])
  have good: "ledger_good d d'" by (rule write_good [OF inv side_tables_refl get le run])
  have inv': "store_inv d'" "exec_inv d'"
    using good ledger_shape [OF inv] unfolding ledger_good_def good_step_def ledger_step_def by blast+
  let ?p = "ac_callerPrincipalId (er_acceptance r')"
  obtain q where q: "owner_row d ?p (execution_ref r) = Some q" and d': "d' = d\<lparr>conversationRequests :=
      set_row request_key (?p, cq_conversationId q, xr_requestId (execution_ref r)) (\<lambda>q. q\<lparr>cq_execution := Some r'\<rparr>)
        (conversationRequests d)\<rparr>"
    using run OwnerConversation unfolding writeExecution_def Let_def ref by (auto split: option.splits)
  obtain e where e: "q \<in> set (conversationRequests d)" "cq_principalId q = ?p" "cq_requestId q = xr_requestId (execution_ref r)"
    by (rule owner_rowD [OF q])
  have "q\<lparr>cq_execution := Some r'\<rparr> \<in> set (conversationRequests d')"
    unfolding d' using e by (auto simp: in_set_row request_key_def intro!: bexI [of _ q])
  then show ?thesis
    unfolding getExecution_request [OF inv' OwnerConversation] using ref
    by (intro bexI [of _ "q\<lparr>cq_execution := Some r'\<rparr>"]) simp_all
qed

section \<open>Dispatch\<close>

lemma claim_Inr:
  assumes inv: "store_inv d" "exec_inv d" and run: "claimExecution sha prins d x at = Inr (c, d')"
  obtains w r where "row_by ws_id (xr_workspaceId x) (workspaces d) = Some w" "getExecution d x = Some r" "execution_ref r = x"
    "er_cancel r \<noteq> None \<and> c = reconcileExecution w r \<and> d' = d
     \<or> er_cancel r = None \<and> executionSettled r \<and> c = None \<and> d' = d
     \<or> er_cancel r = None \<and> \<not> executionSettled r \<and> c = None
     \<or> er_cancel r = None \<and> \<not> executionSettled r \<and> c = Some (er_dispatchClaimedAt r = None, claimed_record r at)
        \<and> writeExecution d (claimed_record r at) = Inr d'
        \<and> validateExecution sha w (er_acceptance r) at (er_conversationIdentity r) = Inr ()
        \<and> requireExecutionInputs sha d (er_acceptance r) = Inr ()
        \<and> requireExecutionPrincipal prins (ac_callerPrincipalId (er_acceptance r)) = Inr ()"
proof -
  obtain w :: workspace_row and r where wr: "row_by ws_id (xr_workspaceId x) (workspaces d) = Some w"
      "getExecution d x = Some r" "execution_ref r = x" and task:
      "(if er_cancel r \<noteq> None then Inr (reconcileExecution w r, d)
        else if executionSettled r then Inr (None, d)
        else case bindE (requireExecutionPrincipal prins (ac_callerPrincipalId (er_acceptance r))) (\<lambda>_.
               bindE (validateExecution sha w (er_acceptance r) at (er_conversationIdentity r)) (\<lambda>_.
                 requireExecutionInputs sha d (er_acceptance r))) of
        Inl (ApiError c) \<Rightarrow>
          bindE (writeExecution d (r\<lparr>er_phase := ExLost, er_settledAt := Some (toISOString at), er_outcome := JNull\<rparr>))
            (\<lambda>d'. Inr (None, d'))
      | Inl e \<Rightarrow> Inl e
      | Inr _ \<Rightarrow> bindE (writeExecution d (claimed_record r at)) (\<lambda>d'.
                  Inr (Some (er_dispatchClaimedAt r = None, claimed_record r at), d'))) = Inr (c, d')"
    by (rule withOwner_Inr [OF inv run [unfolded claimExecution_def]]) (rule that, assumption+)
  let ?v = "bindE (requireExecutionPrincipal prins (ac_callerPrincipalId (er_acceptance r))) (\<lambda>_.
               bindE (validateExecution sha w (er_acceptance r) at (er_conversationIdentity r)) (\<lambda>_.
                 requireExecutionInputs sha d (er_acceptance r)))"
  show ?thesis
  proof (rule that [OF wr])
    consider "er_cancel r \<noteq> None" | "er_cancel r = None" "executionSettled r" | "er_cancel r = None" "\<not> executionSettled r" by blast
    then show "er_cancel r \<noteq> None \<and> c = reconcileExecution w r \<and> d' = d
     \<or> er_cancel r = None \<and> executionSettled r \<and> c = None \<and> d' = d
     \<or> er_cancel r = None \<and> \<not> executionSettled r \<and> c = None
     \<or> er_cancel r = None \<and> \<not> executionSettled r \<and> c = Some (er_dispatchClaimedAt r = None, claimed_record r at)
        \<and> writeExecution d (claimed_record r at) = Inr d'
        \<and> validateExecution sha w (er_acceptance r) at (er_conversationIdentity r) = Inr ()
        \<and> requireExecutionInputs sha d (er_acceptance r) = Inr ()
        \<and> requireExecutionPrincipal prins (ac_callerPrincipalId (er_acceptance r)) = Inr ()"
    proof cases
      case 3
      then show ?thesis
      proof (cases ?v)
        case (Inl e)
        then show ?thesis using task 3 by (cases e) auto
      next
        case (Inr u)
        then show ?thesis using task 3 by auto
      qed
    qed (use task in simp_all)
  qed
qed

text \<open>
  C6. An execution is handed out for a first dispatch at most once. After a claim of an execution was the first
  one, every later claim of the same execution, after any sequence of transactions, is marked as a repeated one
  and carries the time of the first claim and the same acceptance, so that the dispatcher looks the execution up
  instead of sending it again.
\<close>

theorem dispatch_happens_once:
  assumes inv: "full_inv d" and first: "claimExecution sha prins d x at = Inr (Some (True, r), d1)"
    and run: "reaches store_step d1 d2"
    and again: "claimExecution sha' prins' d2 x at' = Inr (Some (again_first, r'), d3)"
  shows "\<not> again_first \<and> er_dispatchClaimedAt r' = er_dispatchClaimedAt r \<and> er_acceptance r' = er_acceptance r"
proof -
  have step: "store_step d d1" by (rule store_step.execution_claim [OF first])
  have inv1: "full_inv d1" using store_step_full [OF step inv] by blast
  have inv2: "full_inv d2" using tables.reaches_inv [OF run inv1] .
  obtain w e where e: "getExecution d x = Some e" "execution_ref e = x" and c: "er_cancel e = None" "\<not> executionSettled e"
      "r = claimed_record e at" "writeExecution d r = Inr d1" "er_dispatchClaimedAt e = None"
    by (rule claim_Inr [OF ledger_inv [OF inv] first]) (auto simp: reconcileExecution_def split: option.splits if_splits)
  have g1: "getExecution d1 x = Some r"
    using after_write [OF ledger_inv [OF inv], of e r d1] e c(3,4) claimed_le [OF c(1,2), of at] by simp
  obtain g where g: "getExecution d2 x = Some g" by (rule claim_Inr [OF ledger_inv [OF inv2] again])
  obtain f where f: "getExecution d2 x = Some f" "execution_le r f"
    by (rule ledger_later [OF inv1 run g1]) (use g that in auto)
  have claimed: "er_dispatchClaimedAt r \<noteq> None" by (simp add: c(3) claimed_record_def)
  then have fd: "er_dispatchClaimedAt f = er_dispatchClaimedAt r"
    using execution_leD(4) [OF f(2)] by (auto simp: once_def)
  have fa: "er_acceptance f = er_acceptance r" using execution_leD(1) [OF f(2)] .
  obtain w' where "(again_first, r') = (False, f) \<or> (again_first, r') = (er_dispatchClaimedAt f = None, claimed_record f at')"
    by (rule claim_Inr [OF ledger_inv [OF inv2] again])
      (use f(1) in \<open>auto simp: reconcileExecution_def split: option.splits if_splits\<close>)
  then show ?thesis using fd fa claimed by (auto simp: claimed_record_def)
qed

theorem dispatch_happens_once_witness:
  "\<exists>r d1 r' d3. claimExecution ex_sha ex_principals ex_accepted ex_reference 50 = Inr (Some (True, r), d1)
     \<and> claimExecution ex_sha ex_principals d1 ex_reference 50 = Inr (Some (False, r'), d3)
     \<and> er_dispatchClaimedAt r' = er_dispatchClaimedAt r"
  using dispatch_happens_once [OF ex_accepted_inv ex_claim_run reaches.refl ex_claim_again] ex_claim_run ex_claim_again
  by blast

section \<open>Settlement\<close>

text \<open>
  C9. A settled execution is final. Whatever runs after an execution settled, its phase, its outcome, its
  acceptance and whether it was dispatched stay as they are, and a settlement, acknowledgement or finalization
  time that was recorded is not changed; the record is lost only when the workspace is purged.
\<close>

theorem settled_execution_is_final:
  assumes "full_inv d" and "getExecution d x = Some r" and "executionSettled r" and "reaches store_step d d'"
  shows "(\<exists>r'. getExecution d' x = Some r' \<and> er_phase r' = er_phase r
        \<and> canonicalJson (er_outcome r') = canonicalJson (er_outcome r) \<and> er_acceptance r' = er_acceptance r
        \<and> er_dispatchClaimedAt r' = er_dispatchClaimedAt r \<and> once (er_settledAt r) (er_settledAt r')
        \<and> once (er_acknowledgedAt r) (er_acknowledgedAt r') \<and> once (er_finalizedAt r) (er_finalizedAt r'))
    \<or> (getExecution d' x = None \<and> purged d' (xr_workspaceId x))"
  using assms(1,4,2)
proof (cases rule: ledger_later)
  case (kept r')
  note le = execution_leD [OF kept(2)]
  show ?thesis using kept(1) le(1,6) le(9-13) [OF assms(3)] by blast
qed blast

definition ex_lost_record :: execution_record where
  "ex_lost_record = (claimed_record ex_accepted_record 50)\<lparr>er_phase := ExLost, er_settledAt := Some (toISOString 60), er_outcome := JNull\<rparr>"

definition ex_ended :: store where
  "ex_ended = endWorkspaceRuntime ex_claimed_store ''w1'' ''i1'' 60"

lemma ex_ended_tables:
  "workspaces ex_ended = [ex_running_row\<lparr>ws_runtimeRegistration := Some (ex_runtime\<lparr>rr_endedAt := Some (toISOString 60)\<rparr>),
     ws_processExecution := Some ex_lost_record, ws_finiteProcess := None, ws_changeSeq := 2, ws_updatedAt := 60\<rparr>]"
proof -
  have "\<not> executionSettled (claimed_record ex_accepted_record 50)"
    by (simp add: claimed_record_def new_execution_def executionSettled_def)
  then show ?thesis
    by (simp add: ex_ended_def endWorkspaceRuntime_def ex_claimed_store_def ex_runtime_def set_workspace_def set_row_def
        lose_requests_def ex_lost_record_def nullable_def)
qed

lemma ex_ended_inv: "full_inv ex_ended"
  using store_step_full [OF store_step.runtime_ended ex_claimed_inv] unfolding ex_ended_def by blast

lemma ex_lost: "getExecution ex_ended ex_reference = Some ex_lost_record" "executionSettled ex_lost_record" "er_phase ex_lost_record = ExLost"
  "er_acceptance ex_lost_record = ex_acceptance"
proof -
  show acc: "er_acceptance ex_lost_record = ex_acceptance" by (simp add: ex_lost_record_def claimed_record_def)
  have x: "xr_workspaceId ex_reference = ''w1''" "xr_owner ex_reference = OwnerProcess" "ac_execution ex_acceptance = ex_reference"
    by (simp_all add: ex_reference_def ex_acceptance_def)
  show "getExecution ex_ended ex_reference = Some ex_lost_record"
    by (simp add: getExecution_process x(1,2) ex_ended_tables acc x(3))
qed (simp_all add: ex_lost_record_def executionSettled_def)

theorem settled_execution_is_final_witness:
  "\<exists>d2 r'. acknowledgeExecution ex_ended ex_reference ''sha256:h'' 70 = Inr d2
     \<and> getExecution d2 ex_reference = Some r' \<and> er_phase r' = ExLost"
proof -
  have x: "xr_workspaceId ex_reference = ''w1''" "xr_owner ex_reference = OwnerProcess" "ac_execution ex_acceptance = ex_reference"
    "ac_fingerprint ex_acceptance = ''sha256:h''"
    by (simp_all add: ex_reference_def ex_acceptance_def)
  have same: "sameExecution (Some ex_lost_record) ex_reference = Some ex_lost_record" by (simp add: x(3) ex_lost(4))
  have own: "withOwner ex_ended ex_reference t = t (hd (workspaces ex_ended)) ex_lost_record" for t :: "workspace_row \<Rightarrow> execution_record \<Rightarrow> js_error + store"
    unfolding withOwner_def readExecution_def by (simp add: ex_ended_tables x same)
  obtain d2 where run: "acknowledgeExecution ex_ended ex_reference ''sha256:h'' 70 = Inr d2"
    using that by (simp add: acknowledgeExecution_def own ex_lost(2,4) x writeExecution_def)
  have "reaches store_step ex_ended d2" by (rule reaches_one, rule store_step.execution_acknowledge [OF run])
  from settled_execution_is_final [OF ex_ended_inv ex_lost(1,2) this]
  have "(\<exists>r'. getExecution d2 ex_reference = Some r' \<and> er_phase r' = ExLost) \<or> purged d2 ''w1''"
    using ex_lost(3) x(1) by auto
  moreover have "\<not> purged d2 ''w1''"
    using run unfolding acknowledgeExecution_def own
    by (auto simp: ex_ended_tables x ex_lost(2,4) writeExecution_def set_workspace_def set_row_def purged_def)
  ultimately show ?thesis using run by blast
qed

section \<open>Acceptance\<close>

lemma store_acceptance_get:
  assumes inv: "store_inv d" "exec_inv d" and run: "acceptExecution sha prins d input at idn = Inr (Accepted r, d')"
  shows "getExecution d' (ac_execution input) = Some r \<and> er_acceptance r = input"
  using run
proof (cases rule: accept_cases)
  case (new w owner d1)
  have r: "r = new_execution input owner at" using new(7) by simp
  note side = pinExecutionInputs_side [OF new(5)] and ok = validateExecution_row [OF new(3)]
  have good: "ledger_good d d'" by (rule accept_ledger_good [OF inv run])
  have inv': "store_inv d'" "exec_inv d'"
    using good ledger_shape [OF inv] unfolding ledger_good_def good_step_def ledger_step_def by blast+
  show ?thesis
  proof (cases "xr_owner (ac_execution input)")
    case OwnerProcess
    have "d' = set_workspace (ws_id w) (\<lambda>w. w\<lparr>ws_processExecution := Some r\<rparr>) d1"
      using new(6) OwnerProcess by (simp add: store_acceptance_def r)
    then have "row_by ws_id (xr_workspaceId (ac_execution input)) (workspaces d') = Some (w\<lparr>ws_processExecution := Some r\<rparr>)"
      using new(1) row_by_SomeD [OF new(1)] side_tables_reads(1) [OF side]
      by (simp add: set_workspace_def set_row_def row_by_update_where_keep)
    then show ?thesis unfolding getExecution_process [OF OwnerProcess] by (simp add: r)
  next
    case OwnerConversation
    obtain c where c: "owner = Some c" by (rule owner_identity [OF new(4) OwnerConversation])
    have ins: "insertConversationExecution d1 r c at = Inr d'"
      using new(6) OwnerConversation c by (simp add: store_acceptance_def r)
    have "\<exists>q \<in> set (conversationRequests d'). cq_execution q = Some r"
    proof (cases "row_by request_key (ac_callerPrincipalId (er_acceptance r), ci_conversation_id c, ci_request_id c) (conversationRequests d1)")
      case None
      then show ?thesis using ins unfolding insertConversationExecution_def Let_def by auto
    next
      case (Some p)
      let ?key = "(ac_callerPrincipalId (er_acceptance r), ci_conversation_id c, ci_request_id c)"
      have "p\<lparr>cq_execution := Some r\<rparr> \<in> set (set_row request_key ?key (\<lambda>q. q\<lparr>cq_execution := Some r\<rparr>) (conversationRequests d1))"
        unfolding in_set_row using row_by_SomeD [OF Some] by (intro bexI [of _ p]) simp_all
      moreover have "conversationRequests d' = set_row request_key ?key (\<lambda>q. q\<lparr>cq_execution := Some r\<rparr>) (conversationRequests d1)"
        using ins Some unfolding insertConversationExecution_def Let_def executionConflict_def by (auto split: if_splits)
      ultimately show ?thesis by (metis conversation_request_row.select_convs(7) conversation_request_row.surjective conversation_request_row.update_convs(7))
    qed
    then show ?thesis unfolding getExecution_request [OF inv' OwnerConversation] by (auto simp: r)
  qed
qed simp

text \<open>
  C7. An execution is accepted at most once. After a submission of an execution returned, as new or as a replay,
  a later submission for the same execution that returns is a replay: it changes nothing, it is for exactly the
  same facts (the canonical text of both acceptances agrees), and it returns the record of the first acceptance,
  advanced only by what happened to it since.
\<close>

theorem acceptance_is_idempotent:
  assumes inv: "full_inv d" and first: "acceptExecution sha prins d input at idn = Inr (res, d1)"
    and run: "reaches store_step d1 d2" and x: "ac_execution input' = ac_execution input"
    and again: "acceptExecution sha' prins' d2 input' at' idn' = Inr (res', d3)"
  shows "\<exists>r'. res' = AcceptReplayed r' \<and> d3 = d2
    \<and> canonicalJson (acceptance_json input') = canonicalJson (acceptance_json (er_acceptance r'))
    \<and> (\<forall>r. res = Accepted r \<longrightarrow> er_acceptance r' = input \<and> execution_le r r')"
proof -
  have step: "store_step d d1" by (rule store_step.execution_accept [OF first])
  have inv1: "full_inv d1" using store_step_full [OF step inv] by blast
  obtain r where r: "getExecution d1 (ac_execution input) = Some r" "\<forall>a. res = Accepted a \<longrightarrow> a = r \<and> er_acceptance r = input"
  proof (cases res)
    case (AcceptReplayed p)
    then show ?thesis using first that by (auto elim!: accept_cases)
  next
    case (Accepted a)
    then show ?thesis using store_acceptance_get [OF ledger_inv [OF inv]] first that by simp
  qed
  have replay: "res' = AcceptReplayed r' \<and> d3 = d2 \<and> canonicalJson (acceptance_json input') = canonicalJson (acceptance_json (er_acceptance r'))"
    if g: "getExecution d2 (ac_execution input') = Some r'" for r'
    using again g
    by (auto elim!: accept_cases simp: validateExecutionReplay_def executionConflict_def split: if_splits)
  show ?thesis
  proof (rule ledger_later [OF inv1 run r(1)])
    fix r' assume k: "getExecution d2 (ac_execution input) = Some r'" "execution_le r r'"
    show ?thesis using replay [of r'] k(1) x r(2) k(2) execution_leD(1) [OF k(2)] by auto
  next
    assume p: "getExecution d2 (ac_execution input) = None" "purged d2 (xr_workspaceId (ac_execution input))"
    have inv2: "store_inv d2" using tables.reaches_inv [OF run inv1] by (simp add: full_inv_def)
    have False
      using again
    proof (cases rule: accept_cases)
      case (new w owner d4)
      then show ?thesis
        using p(2) x validateExecution_row(2) [OF new(3)] purged_iff [OF inv2, of w] row_by_SomeD [OF new(1)] by simp
    qed (use p x in simp)
    then show ?thesis ..
  qed
qed

theorem acceptance_is_idempotent_witness:
  "\<exists>r'. acceptExecution ex_sha ex_principals ex_claimed_store ex_acceptance 70 None = Inr (AcceptReplayed r', ex_claimed_store)
     \<and> er_acceptance r' = ex_acceptance"
proof -
  have run: "reaches store_step ex_accepted ex_claimed_store" by (rule reaches_one, rule store_step.execution_claim [OF ex_claim_run])
  have x: "xr_workspaceId ex_reference = ''w1''" "xr_owner ex_reference = OwnerProcess" "ac_execution ex_acceptance = ex_reference"
    by (simp_all add: ex_reference_def ex_acceptance_def)
  let ?e = "claimed_record ex_accepted_record 50"
  have e: "er_acceptance ?e = ex_acceptance" by (simp add: claimed_record_def)
  have again: "acceptExecution ex_sha ex_principals ex_claimed_store ex_acceptance 70 None = Inr (AcceptReplayed ?e, ex_claimed_store)"
    unfolding acceptExecution_def readExecution_def
    by (simp add: ex_valid x ex_claimed_store_def validateExecutionReplay_def e sameExecution_def)
  show ?thesis
    using acceptance_is_idempotent [OF ex_running_inv ex_accept_run run HOL.refl again] again by auto
qed

section \<open>Cancellation\<close>

lemma cancel_Inr:
  assumes inv: "store_inv d" "exec_inv d" and run: "cancelExecution sha d c at = Inr (r, d')"
  shows "getExecution d' (wk_execution c) = Some r \<and> (er_cancel r \<noteq> None \<or> executionSettled r)"
proof -
  let ?task = "\<lambda>w r. case er_cancel r of
          Some (cid, _) \<Rightarrow> if cid \<noteq> wk_cancelId c then executionConflict else Inr (r, d)
        | None \<Rightarrow>
            if executionSettled r then Inr (r, d)
            else bindE (writeExecution d (canceled_record r (wk_cancelId c) at)) (\<lambda>d1.
                 bindE (if er_dispatchClaimedAt r = None
                        then finalizeInputManifest d1 (executionInputManifestId sha (er_acceptance r)) at else Inr d1)
                   (\<lambda>d2. Inr (canceled_record r (wk_cancelId c) at, d2)))"
  have run': "withOwner d (wk_execution c) ?task = Inr (r, d')"
    using run unfolding cancelExecution_def executionConflict_def by (simp split: if_splits)
  obtain w :: workspace_row and e where e: "getExecution d (wk_execution c) = Some e" "execution_ref e = wk_execution c"
    and task: "?task w e = Inr (r, d')"
    by (rule withOwner_Inr [OF inv run']) (rule that, assumption+)
  show ?thesis
  proof (cases "er_cancel e = None \<and> \<not> executionSettled e")
    case True
    obtain d1 where w: "writeExecution d (canceled_record e (wk_cancelId c) at) = Inr d1" and r: "r = canceled_record e (wk_cancelId c) at"
      and f: "d' = d1 \<or> finalizeInputManifest d1 (executionInputManifestId sha (er_acceptance e)) at = Inr d'"
      using task True by (auto split: if_splits)
    have "getExecution d1 (wk_execution c) = Some r"
      using after_write [OF inv _ canceled_le w] True e r by simp
    moreover have "side_tables d1 d'" using f finalizeInputManifest_side by auto
    ultimately show ?thesis using side_tables_reads(4) by (simp add: r canceled_record_def Let_def)
  next
    case False
    then have "r = e \<and> d' = d" using task by (auto simp: executionConflict_def split: option.splits if_splits)
    moreover have "er_cancel e \<noteq> None \<or> executionSettled e" using False by (simp only: de_Morgan_conj not_not)
    ultimately show ?thesis using e(1) by (simp only: simp_thms)
  qed
qed

text \<open>
  C8. A cancel that arrives before the dispatch wins. When a cancel returned a record that was never claimed, no
  later claim, after any sequence of transactions, hands the execution out, and no later observation of it is
  taken: both leave the store as it is.
\<close>

theorem canceled_before_dispatch_never_runs:
  assumes inv: "full_inv d" and cancel: "cancelExecution sha d c at = Inr (r, d1)" and unclaimed: "er_dispatchClaimedAt r = None"
    and run: "reaches store_step d1 d2"
  shows "(claimExecution sha' prins d2 (wk_execution c) at' = Inr (res, d3) \<longrightarrow> res = None \<and> d3 = d2)
    \<and> (observeExecution d2 (wk_execution c) fp ph ep at'' oc = Inr (b, d4) \<longrightarrow> \<not> b \<and> d4 = d2)"
proof -
  have inv1: "full_inv d1" using store_step_full [OF store_step.execution_cancel [OF cancel] inv] by blast
  have inv2: "store_inv d2" "exec_inv d2" using tables.reaches_inv [OF run inv1] by (simp_all add: full_inv_def)
  have c: "getExecution d1 (wk_execution c) = Some r" "er_cancel r \<noteq> None \<or> executionSettled r"
    using cancel_Inr [OF ledger_inv [OF inv] cancel] by blast+
  have later: "er_dispatchClaimedAt e = None \<and> (er_cancel e \<noteq> None \<or> executionSettled e)"
    if e: "getExecution d2 (wk_execution c) = Some e" for e
  proof -
    have le: "execution_le r e" by (rule ledger_later [OF inv1 run c(1)]) (use e in auto)
    have "er_dispatchClaimedAt e = er_dispatchClaimedAt r" using c(2) execution_leD(8,10) [OF le] by blast
    moreover have "er_cancel r \<noteq> None \<longrightarrow> er_cancel e \<noteq> None" using execution_leD(5) [OF le] by (auto simp: once_def)
    ultimately show ?thesis using unclaimed c(2) execution_le_settled [OF le] by auto
  qed
  have "res = None \<and> d3 = d2" if "claimExecution sha' prins d2 (wk_execution c) at' = Inr (res, d3)"
  proof (rule claim_Inr [OF inv2 that])
    fix w e assume "getExecution d2 (wk_execution c) = Some e" and alt:
      "er_cancel e \<noteq> None \<and> res = reconcileExecution w e \<and> d3 = d2
     \<or> er_cancel e = None \<and> executionSettled e \<and> res = None \<and> d3 = d2
     \<or> er_cancel e = None \<and> \<not> executionSettled e \<and> res = None
     \<or> er_cancel e = None \<and> \<not> executionSettled e \<and> res = Some (er_dispatchClaimedAt e = None, claimed_record e at')
        \<and> writeExecution d2 (claimed_record e at') = Inr d3
        \<and> validateExecution sha' w (er_acceptance e) at' (er_conversationIdentity e) = Inr ()
        \<and> requireExecutionInputs sha' d2 (er_acceptance e) = Inr ()
        \<and> requireExecutionPrincipal prins (ac_callerPrincipalId (er_acceptance e)) = Inr ()"
    note l = later [OF this(1)]
    then have "reconcileExecution w e = None" by (simp add: reconcileExecution_def split: option.split)
    then show ?thesis using alt l by blast
  qed
  moreover have "\<not> b \<and> d4 = d2" if "observeExecution d2 (wk_execution c) fp ph ep at'' oc = Inr (b, d4)"
    using that unfolding observeExecution_def
    by (rule withOwner_Inr [OF inv2]) (use later in \<open>auto split: if_splits\<close>)
  ultimately show ?thesis by blast
qed

definition ex_cancel_input :: workload_cancel where
  "ex_cancel_input = \<lparr> wk_execution = ex_reference, wk_cancelId = ''x1'', wk_scope = ''operation'' \<rparr>"

theorem canceled_before_dispatch_never_runs_witness:
  "\<exists>r d1. cancelExecution ex_sha ex_accepted ex_cancel_input 60 = Inr (r, d1) \<and> er_phase r = ExCanceled
     \<and> claimExecution ex_sha ex_principals d1 ex_reference 70 = Inr (None, d1)"
proof -
  have x: "xr_workspaceId ex_reference = ''w1''" "xr_owner ex_reference = OwnerProcess" "ac_execution ex_acceptance = ex_reference"
    "im_objects (ac_inputs ex_acceptance) = []"
    by (simp_all add: ex_reference_def ex_acceptance_def)
  let ?r = "canceled_record ex_accepted_record ''x1'' 60"
  have e: "er_cancel ex_accepted_record = None" "\<not> executionSettled ex_accepted_record" "er_dispatchClaimedAt ex_accepted_record = None"
    by (simp_all add: new_execution_def executionSettled_def)
  have r: "er_acceptance ?r = ex_acceptance" "er_dispatchClaimedAt ?r = None" "er_phase ?r = ExCanceled"
    "er_cancel ?r = Some (''x1'', toISOString 60)"
    by (simp_all add: canceled_record_def Let_def e)
  have own: "withOwner ex_accepted ex_reference t = t (hd (workspaces ex_accepted)) ex_accepted_record" for t :: "workspace_row \<Rightarrow> execution_record \<Rightarrow> js_error + 'z"
    unfolding withOwner_def readExecution_def by (simp add: ex_accepted_def x sameExecution_def)
  obtain d1 where run: "cancelExecution ex_sha ex_accepted ex_cancel_input 60 = Inr (?r, d1)"
    and ws: "workspaces d1 = [ex_running_row\<lparr>ws_processExecution := Some ?r\<rparr>]"
  proof -
    let ?d = "set_workspace ''w1'' (\<lambda>w. w\<lparr>ws_processExecution := Some ?r\<rparr>) ex_accepted"
    have wr: "writeExecution ex_accepted ?r = Inr ?d" by (simp add: writeExecution_def r x)
    have man: "row_by mf_id (executionInputManifestId ex_sha ex_acceptance) (inputManifests ?d) =
        Some \<lparr> mf_id = executionInputManifestId ex_sha ex_acceptance, mf_manifest = ac_inputs ex_acceptance, mf_finalizedAt = None \<rparr>"
      by (simp add: set_workspace_def ex_accepted_def)
    have ws: "workspaces ?d = [ex_running_row\<lparr>ws_processExecution := Some ?r\<rparr>]"
      by (simp add: set_workspace_def set_row_def ex_accepted_def)
    obtain d1 where fin: "finalizeInputManifest ?d (executionInputManifestId ex_sha ex_acceptance) 60 = Inr d1"
      by (simp add: finalizeInputManifest_def man x)
    have "workspaces d1 = workspaces ?d" using side_tables_reads(1) [OF finalizeInputManifest_side [OF fin]] .
    moreover have "cancelExecution ex_sha ex_accepted ex_cancel_input 60 = Inr (?r, d1)"
      by (simp add: cancelExecution_def ex_cancel_input_def own e wr fin)
    ultimately show ?thesis using that ws by simp
  qed
  have "row_by ws_id (xr_workspaceId ex_reference) (workspaces d1) = Some (ex_running_row\<lparr>ws_processExecution := Some ?r\<rparr>)"
    "readExecution d1 (ex_running_row\<lparr>ws_processExecution := Some ?r\<rparr>) ex_reference = Some ?r"
    by (simp_all add: ws x readExecution_def sameExecution_def r)
  note own1 = withOwner_found [OF this]
  obtain res d3 where again: "claimExecution ex_sha ex_principals d1 ex_reference 70 = Inr (res, d3)"
    using that unfolding claimExecution_def own1 by (simp add: r)
  have "res = None \<and> d3 = d1"
    using canceled_before_dispatch_never_runs [OF ex_accepted_inv run r(2) reaches.refl] again by (simp add: ex_cancel_input_def)
  then show ?thesis using run r(3) again by blast
qed

section \<open>The whole ledger\<close>

lemma in_somes: "x \<in> set (somes xs) \<longleftrightarrow> Some x \<in> set xs"
  by (induction xs) (auto simp: somes_def split: option.splits)

lemma in_image: "y \<in> f ` A \<longleftrightarrow> (\<exists>a \<in> A. f a = y)"
  by (auto simp: image_iff)

definition pending :: "execution_record \<Rightarrow> bool" where
  "pending r \<longleftrightarrow> \<not> executionSettled r \<or> needsAcknowledgment r
     \<or> (xr_owner (execution_ref r) = OwnerConversation \<and> er_phase r \<in> {ExTerminal, ExCanceled} \<and> er_finalizedAt r = None)"



end
