(* ===== verification/Json_Parse.thy ===== *)
theory Json_Parse
  imports Json_Text
begin

text \<open>
  Reading a printed document: the part of \<open>JSON.parse\<close> that the readers of stored documents rely on. Every such
  reader compares the canonical text of what it read with the text itself
  (\<^verbatim>\<open>packages/contracts/src/checkpoints/archive-format.ts\<close>), so a text with white space, with an exponent or
  with an escape that \<open>JSON.stringify\<close> does not print is refused either way; here it is refused at once.
\<close>

section \<open>Strings\<close>

definition hex_char :: "char \<Rightarrow> nat option" where
  "hex_char c = (let n = (of_char c :: nat) in
     if 48 \<le> n \<and> n \<le> 57 then Some (n - 48) else if 97 \<le> n \<and> n \<le> 102 then Some (n - 87) else None)"

definition simple_escape :: "char \<Rightarrow> char option" where
  "simple_escape c = map_of [(CHR 0x22, CHR 0x22), (CHR 0x5C, CHR 0x5C), (CHR ''/'', CHR ''/''), (CHR ''b'', CHR 0x08),
     (CHR ''f'', CHR 0x0C), (CHR ''n'', CHR 0x0A), (CHR ''r'', CHR 0x0D), (CHR ''t'', CHR 0x09)] c"

fun read_unicode :: "string \<Rightarrow> (char \<times> string) option" where
  "read_unicode (a # b # h # l # r) =
     (case (hex_char h, hex_char l) of
        (Some x, Some y) \<Rightarrow> if a = CHR ''0'' \<and> b = CHR ''0'' \<and> x < 8 then Some (char_of (16 * x + y), r) else None
      | _ \<Rightarrow> None)"
| "read_unicode s = None"

fun read_escape :: "string \<Rightarrow> (char \<times> string) option" where
  "read_escape (e # r) = (if e = CHR ''u'' then read_unicode r else map_option (\<lambda>d. (d, r)) (simple_escape e))"
| "read_escape [] = None"

fun read_one :: "string \<Rightarrow> (char \<times> string) option" where
  "read_one (c # r) = (if c = CHR 0x5C then read_escape r else if (of_char c :: nat) < 32 then None else Some (c, r))"
| "read_one [] = None"

lemma read_unicode_length: "read_unicode s = Some (c, r) \<Longrightarrow> length r < length s"
  by (induction s rule: read_unicode.induct) (auto split: option.splits if_splits)

lemma read_escape_length: "read_escape s = Some (c, r) \<Longrightarrow> length r < length s"
  by (cases s) (auto split: if_splits dest!: read_unicode_length)

lemma read_one_length: "read_one s = Some (c, r) \<Longrightarrow> length r < length s"
  by (cases s) (auto split: if_splits dest!: read_escape_length)

lemma read_unicode_append: "read_unicode s = Some (c, r) \<Longrightarrow> read_unicode (s @ u) = Some (c, r @ u)"
  by (induction s rule: read_unicode.induct) (auto split: option.splits if_splits)

lemma read_one_append:
  assumes "read_one s = Some (c, r)"
  shows "read_one (s @ u) = Some (c, r @ u)"
proof (cases s)
  case (Cons a t)
  then show ?thesis
    using assms read_unicode_append [of _ c r u]
    by (cases t) (auto split: if_splits)
qed (use assms in simp)

lemma hex_char_digit: "n < 16 \<Longrightarrow> hex_char (hex_digit n) = Some n"
  unfolding hex_char_def Let_def by (simp add: hex_digit_code) (simp add: hex_code_def)

lemma char_eqI: "(of_char c :: nat) = of_char d \<Longrightarrow> c = d"
  by simp

lemma backslash: "char_of (92::nat) = CHR 0x5C" "char_of (34::nat) = CHR 0x22"
  by code_simp+

lemma read_short:
  assumes "(of_char c :: nat) = n" "simple_escape e = Some d" "(of_char d :: nat) = n" "escape_char c = [CHR 0x5C, e]" "e \<noteq> CHR ''u''"
  shows "read_one (escape_char c @ u) = Some (c, u)"
proof -
  have "c = d" using assms(1,3) by (intro char_eqI) simp
  then show ?thesis using assms(2,4,5) by simp
qed

lemma read_one_escape: "read_one (escape_char c @ u) = Some (c, u)"
proof -
  define n where "n = (of_char c :: nat)"
  note esc = escape_char_def [of c, unfolded Let_def, folded n_def, unfolded backslash]
  have c34: ?thesis if "n = 34"
    by (rule read_short [OF n_def [symmetric], of "CHR 0x22" "CHR 0x22"]) (simp_all add: that esc simple_escape_def)
  have c92: ?thesis if "n = 92"
    by (rule read_short [OF n_def [symmetric], of "CHR 0x5C" "CHR 0x5C"]) (simp_all add: that esc simple_escape_def)
  have c8: ?thesis if "n = 8"
    by (rule read_short [OF n_def [symmetric], of "CHR ''b''" "CHR 0x08"]) (simp_all add: that esc simple_escape_def)
  have c12: ?thesis if "n = 12"
    by (rule read_short [OF n_def [symmetric], of "CHR ''f''" "CHR 0x0C"]) (simp_all add: that esc simple_escape_def)
  have c10: ?thesis if "n = 10"
    by (rule read_short [OF n_def [symmetric], of "CHR ''n''" "CHR 0x0A"]) (simp_all add: that esc simple_escape_def)
  have c13: ?thesis if "n = 13"
    by (rule read_short [OF n_def [symmetric], of "CHR ''r''" "CHR 0x0D"]) (simp_all add: that esc simple_escape_def)
  have c9: ?thesis if "n = 9"
    by (rule read_short [OF n_def [symmetric], of "CHR ''t''" "CHR 0x09"]) (simp_all add: that esc simple_escape_def)
  show ?thesis
  proof (cases "n = 34 \<or> n = 92 \<or> n = 8 \<or> n = 12 \<or> n = 10 \<or> n = 13 \<or> n = 9")
    case True
    then show ?thesis using c34 c92 c8 c12 c10 c13 c9 by blast
  next
    case rest: False
    show ?thesis
    proof (cases "n < 32")
      case True
      have d: "n div 16 < 8" "n mod 16 < 16" "n div 16 < 16" using True by auto
      have "escape_char c = CHR 0x5C # CHR ''u'' # CHR ''0'' # CHR ''0'' # hex_digit (n div 16) # [hex_digit (n mod 16)]"
        using rest True by (simp add: esc)
      moreover have "char_of n = c" by (simp add: n_def)
      ultimately show ?thesis using d by (simp add: hex_char_digit)
    next
      case False
      have "c \<noteq> CHR 0x5C" using rest by (auto simp: n_def)
      then show ?thesis using rest False by (simp add: esc) (simp add: n_def)
    qed
  qed
qed

function read_string :: "string \<Rightarrow> (string \<times> string) option" where
  "read_string s =
     (case s of
        [] \<Rightarrow> None
      | c # cs \<Rightarrow>
          if c = CHR 0x22 then Some ([], cs)
          else (case read_one s of
                  None \<Rightarrow> None
                | Some (d, r) \<Rightarrow> map_option (\<lambda>(t, q). (d # t, q)) (read_string r)))"
  by pat_completeness auto
termination by (relation "measure length") (auto simp del: read_one.simps dest: read_one_length)

declare read_string.simps [simp del]

lemma read_string_chars: "read_string (concat (map escape_char s) @ CHR 0x22 # u) = Some (s, u)"
proof (induction s)
  case Nil
  then show ?case by (subst read_string.simps) simp
next
  case (Cons c s)
  obtain e es where e: "escape_char c = e # es" "e \<noteq> CHR 0x22" by (rule escape_char_start)
  have "read_one (escape_char c @ concat (map escape_char s) @ CHR 0x22 # u) = Some (c, concat (map escape_char s) @ CHR 0x22 # u)"
    by (rule read_one_escape)
  then show ?case using e Cons by (subst read_string.simps) simp
qed

lemma read_quoted: "\<exists>cs. quote s @ u = CHR 0x22 # cs \<and> read_string cs = Some (s, u)"
  using read_string_chars [of s u] by (simp add: quote_def backslash)

section \<open>Values\<close>

definition read_number :: "string \<Rightarrow> (json \<times> string) option" where
  "read_number s =
     (let ds = takeWhile is_digit s
      in if ds = [] then None else Some (JNum (int (number_of_digits ds)), dropWhile is_digit s))"

definition read_literal :: "string \<Rightarrow> json \<Rightarrow> string \<Rightarrow> (json \<times> string) option" where
  "read_literal w v s = (if take (length w) s = w then Some (v, drop (length w) s) else None)"

fun negate :: "json \<times> string \<Rightarrow> json \<times> string" where
  "negate (JNum n, r) = (JNum (- n), r)"
| "negate p = p"

text \<open>One step of fuel per nested value, element or member; the length of the text is enough.\<close>

fun read_value :: "nat \<Rightarrow> string \<Rightarrow> (json \<times> string) option"
  and read_elements :: "nat \<Rightarrow> string \<Rightarrow> (json list \<times> string) option"
  and read_members :: "nat \<Rightarrow> string \<Rightarrow> ((string \<times> json) list \<times> string) option" where
  "read_value 0 s = None"
| "read_value (Suc n) s =
     (case s of
        [] \<Rightarrow> None
      | c # cs \<Rightarrow>
          if c = CHR ''{'' then
            (if cs \<noteq> [] \<and> hd cs = CHR ''}'' then Some (JObj [], tl cs)
             else map_option (\<lambda>(ps, r). (JObj ps, r)) (read_members n cs))
          else if c = CHR ''['' then
            (if cs \<noteq> [] \<and> hd cs = CHR '']'' then Some (JArr [], tl cs)
             else map_option (\<lambda>(vs, r). (JArr vs, r)) (read_elements n cs))
          else if c = CHR 0x22 then map_option (\<lambda>(t, r). (JStr t, r)) (read_string cs)
          else if c = CHR ''n'' then read_literal ''null'' JNull s
          else if c = CHR ''t'' then read_literal ''true'' (JBool True) s
          else if c = CHR ''f'' then read_literal ''false'' (JBool False) s
          else if c = CHR ''-'' then map_option negate (read_number cs)
          else read_number s)"
| "read_elements 0 s = None"
| "read_elements (Suc n) s =
     (case read_value n s of
        None \<Rightarrow> None
      | Some (v, r) \<Rightarrow>
          (case r of
             [] \<Rightarrow> None
           | c # cs \<Rightarrow>
               if c = CHR '']'' then Some ([v], cs)
               else if c = CHR '','' then map_option (\<lambda>(vs, q). (v # vs, q)) (read_elements n cs)
               else None))"
| "read_members 0 s = None"
| "read_members (Suc n) s =
     (case s of
        [] \<Rightarrow> None
      | c # cs \<Rightarrow>
          if c \<noteq> CHR 0x22 then None
          else
            (case read_string cs of
               None \<Rightarrow> None
             | Some (k, r) \<Rightarrow>
                 (case r of
                    [] \<Rightarrow> None
                  | c' # cs' \<Rightarrow>
                      if c' \<noteq> CHR '':'' then None
                      else
                        (case read_value n cs' of
                           None \<Rightarrow> None
                         | Some (v, q) \<Rightarrow>
                             (case q of
                                [] \<Rightarrow> None
                              | c'' # cs'' \<Rightarrow>
                                  if c'' = CHR ''}'' then Some ([(k, v)], cs'')
                                  else if c'' = CHR '','' then map_option (\<lambda>(ps, z). ((k, v) # ps, z)) (read_members n cs'')
                                  else None)))))"

definition parse_printed :: "string \<Rightarrow> json option" where
  "parse_printed s = (case read_value (length s) s of Some (v, []) \<Rightarrow> Some v | _ \<Rightarrow> None)"

section \<open>What was printed is read back\<close>

lemma read_decimal: "delimited r \<Longrightarrow> read_number (decimal n @ r) = Some (JNum (int n), r)"
proof -
  assume d: "delimited r"
  have "takeWhile is_digit (decimal n @ r) = decimal n" by (rule decimal_takeWhile [OF d])
  moreover from this have "dropWhile is_digit (decimal n @ r) = r"
    by (metis append_eq_append_conv takeWhile_dropWhile_id same_append_eq)
  ultimately show ?thesis using decimal_digits [of n] by (simp add: read_number_def Let_def)
qed

lemma read_show_int:
  assumes "delimited r"
  shows "read_value (Suc n) (show_int m @ r) = Some (JNum m, r)"
proof (cases "m < 0")
  case True
  then show ?thesis using read_decimal [OF assms, of "nat (- m)"] by (simp add: show_int_def)
next
  case False
  obtain c cs where c: "decimal (nat m) = c # cs" "is_digit c" by (rule decimal_start)
  have "c \<notin> {CHR ''{'', CHR ''['', CHR 0x22, CHR ''n'', CHR ''t'', CHR ''f'', CHR ''-''}"
    using c(2) by (auto simp: is_digit_def)
  then show ?thesis using read_decimal [OF assms, of "nat m"] False c by (simp add: show_int_def)
qed

lemma read_elements_printed:
  assumes elem: "\<And>v r n. v \<in> set vs \<Longrightarrow> delimited r \<Longrightarrow> length (stringify v) \<le> n \<Longrightarrow> read_value n (stringify v @ r) = Some (v, r)"
    and "vs \<noteq> []" and "length (join_with '','' (map stringify vs)) < n"
  shows "read_elements n (join_with '','' (map stringify vs) @ CHR '']'' # r) = Some (vs, r)"
  using assms
proof (induction vs arbitrary: n)
  case (Cons v vs)
  obtain m where n: "n = Suc m" using Cons.prems(3) by (cases n) simp_all
  show ?case
  proof (cases "vs = []")
    case True
    then show ?thesis using Cons.prems(1) [of v "CHR '']'' # r" m] Cons.prems(3) n by simp
  next
    case False
    have j: "join_with '','' (map stringify (v # vs)) = stringify v @ CHR '','' # join_with '','' (map stringify vs)"
      using False by (simp add: join_cons)
    have v: "read_value m (stringify v @ CHR '','' # join_with '','' (map stringify vs) @ CHR '']'' # r) =
        Some (v, CHR '','' # join_with '','' (map stringify vs) @ CHR '']'' # r)"
      by (rule Cons.prems(1)) (use Cons.prems(3) n j in simp_all)
    have "read_elements m (join_with '','' (map stringify vs) @ CHR '']'' # r) = Some (vs, r)"
      by (rule Cons.IH) (use Cons.prems(1,3) False n j in simp_all)
    then show ?thesis unfolding j n using v by simp
  qed
qed simp

lemma read_members_printed:
  assumes elem: "\<And>p r n. p \<in> set ps \<Longrightarrow> delimited r \<Longrightarrow> length (stringify (snd p)) \<le> n \<Longrightarrow>
      read_value n (stringify (snd p) @ r) = Some (snd p, r)"
    and "ps \<noteq> []" and "length (join_with '','' (map member_text ps)) < n"
  shows "read_members n (join_with '','' (map member_text ps) @ CHR ''}'' # r) = Some (ps, r)"
  using assms
proof (induction ps arbitrary: n)
  case (Cons p ps)
  obtain m where n: "n = Suc m" using Cons.prems(3) by (cases n) simp_all
  let ?t = "if ps = [] then CHR ''}'' # r else CHR '','' # join_with '','' (map member_text ps) @ CHR ''}'' # r"
  have shape: "join_with '','' (map member_text (p # ps)) @ CHR ''}'' # r = quote (fst p) @ CHR '':'' # stringify (snd p) @ ?t"
    by (simp add: join_cons member_text_def)
  obtain cs where q: "quote (fst p) @ CHR '':'' # stringify (snd p) @ ?t = CHR 0x22 # cs"
    "read_string cs = Some (fst p, CHR '':'' # stringify (snd p) @ ?t)"
    using read_quoted by blast
  have len: "length (stringify (snd p)) \<le> m"
    using Cons.prems(3) n by (cases "ps = []") (simp_all add: join_cons member_text_def)
  have v: "read_value m (stringify (snd p) @ ?t) = Some (snd p, ?t)"
    by (rule Cons.prems(1)) (use len in simp_all)
  show ?case
  proof (cases "ps = []")
    case True
    then show ?thesis unfolding shape q(1) n using q(2) v by simp
  next
    case False
    have "read_members m (join_with '','' (map member_text ps) @ CHR ''}'' # r) = Some (ps, r)"
      by (rule Cons.IH) (use Cons.prems(1,3) False n in \<open>simp_all add: join_cons\<close>)
    then show ?thesis unfolding shape q(1) n using q(2) v False by simp
  qed
qed simp

lemma parse_value_printed:
  "printable v \<Longrightarrow> delimited r \<Longrightarrow> length (stringify v) \<le> n \<Longrightarrow> read_value n (stringify v @ r) = Some (v, r)"
proof (induction v arbitrary: r n rule: json.induct)
  case (JNum m)
  then have "n \<noteq> 0" using show_int_start [of m "[]"] by (cases "m < 0") auto
  then obtain k where "n = Suc k" by (cases n) auto
  then show ?case using read_show_int [OF JNum(2)] by simp
next
  case (JStr s)
  obtain k where "n = Suc k" using JStr(3) by (cases n) (auto simp: quote_def)
  then show ?case using read_quoted [of s r] by auto
next
  case (JArr vs)
  obtain k where n: "n = Suc k" using JArr(4) by (cases n) auto
  show ?case
  proof (cases "vs = []")
    case False
    have start: "\<exists>c cs. join_with '','' (map stringify vs) @ CHR '']'' # r = c # cs \<and> c \<noteq> CHR '']''"
    proof -
      obtain v ws where vs: "vs = v # ws" using False by (cases vs) auto
      obtain c cs where "stringify v = c # cs" "c \<noteq> CHR '']''" using stringify_start [of v] kind_ok_bracket by blast
      then show ?thesis unfolding vs by (cases ws) simp_all
    qed
    have "read_elements k (join_with '','' (map stringify vs) @ CHR '']'' # r) = Some (vs, r)"
    proof (rule read_elements_printed [OF _ False])
      show "read_value m (stringify v @ q) = Some (v, q)" if "v \<in> set vs" "delimited q" "length (stringify v) \<le> m" for v q m
        using JArr(1) [OF that(1) _ that(2,3)] JArr(2) that(1) by (simp add: list_all_iff)
    qed (use JArr(4) n in simp)
    then show ?thesis unfolding n using start by auto
  qed (use n in simp)
next
  case (JObj ps)
  obtain k where n: "n = Suc k" using JObj(4) by (cases n) auto
  show ?case
  proof (cases "ps = []")
    case False
    have start: "\<exists>c cs. join_with '','' (map member_text ps) @ CHR ''}'' # r = c # cs \<and> c \<noteq> CHR ''}''"
    proof -
      obtain p qs where ps: "ps = p # qs" using False by (cases ps) auto
      obtain cs where "member_text p = CHR 0x22 # cs" using quote_start [of "fst p"] by (auto simp: member_text_def)
      then show ?thesis unfolding ps by (cases qs) simp_all
    qed
    have "read_members k (join_with '','' (map member_text ps) @ CHR ''}'' # r) = Some (ps, r)"
    proof (rule read_members_printed [OF _ False])
      show "read_value m (stringify (snd p) @ q) = Some (snd p, q)" if "p \<in> set ps" "delimited q" "length (stringify (snd p)) \<le> m" for p q m
      proof -
        have "snd p \<in> Basic_BNFs.snds p" by (cases p) simp
        then show ?thesis using JObj(1) [OF that(1) _ _ that(2,3)] JObj(2) that(1) by (simp add: list_all_iff)
      qed
    qed (use JObj(4) n stringify_obj [OF JObj(2)] in simp)
    then show ?thesis unfolding n stringify_obj [OF JObj(2)] using start by auto
  qed (use n in simp)
next
  case (JBool b)
  obtain k where "n = Suc k" using JBool(3) by (cases n) (auto split: if_splits)
  then show ?case by (simp add: read_literal_def)
next
  case JNull
  obtain k where "n = Suc k" using JNull(3) by (cases n) auto
  then show ?case by (simp add: read_literal_def)
qed simp

lemma parse_printed_canonical: "defined v \<Longrightarrow> parse_printed (canonicalJson v) = Some (sortValue v)"
  using parse_value_printed [OF sortValue_printable, of v "[]"] by (simp add: parse_printed_def canonicalJson_def)

end
