(* ===== verification/Tar_Header.thy ===== *)
theory Tar_Header
  imports Json_Parse
begin

text \<open>
  Tar headers of checkpoint archives (\<^verbatim>\<open>packages/contracts/src/checkpoints/archive-header.ts\<close>). A \<open>Buffer\<close> is the
  list of its bytes as characters. A header is written field by field into 512 zero bytes, with a checksum of
  the whole, and is read back by reading the name and the size and comparing the header they give with the bytes.
\<close>

section \<open>Numbers in a radix\<close>

text \<open>\<open>n.toString(b)\<close> and \<open>padStart(w, "0")\<close>.\<close>

function to_radix :: "nat \<Rightarrow> nat \<Rightarrow> string" where
  "to_radix b n = (if b < 2 \<or> n < b then [hex_digit n] else to_radix b (n div b) @ [hex_digit (n mod b)])"
  by pat_completeness auto
termination by (relation "measure snd") auto

declare to_radix.simps [simp del]

definition pad_start :: "nat \<Rightarrow> string \<Rightarrow> string" where
  "pad_start w s = replicate (w - length s) (CHR ''0'') @ s"

definition digit_of :: "char \<Rightarrow> nat" where
  "digit_of c = (case hex_char c of Some d \<Rightarrow> d | None \<Rightarrow> 0)"

definition radix_value :: "nat \<Rightarrow> string \<Rightarrow> nat" where
  "radix_value b s = foldl (\<lambda>n c. b * n + digit_of c) 0 s"

definition radix_digit :: "nat \<Rightarrow> char \<Rightarrow> bool" where
  "radix_digit b c \<longleftrightarrow> (case hex_char c of Some d \<Rightarrow> d < b | None \<Rightarrow> False)"

lemma digit_of_hex [simp]: "n < 16 \<Longrightarrow> digit_of (hex_digit n) = n"
  by (simp add: digit_of_def hex_char_digit)

lemma radix_digit_hex [simp]: "n < 16 \<Longrightarrow> radix_digit b (hex_digit n) \<longleftrightarrow> n < b"
  by (simp add: radix_digit_def hex_char_digit)

lemma radix_value_snoc: "radix_value b (s @ [c]) = b * radix_value b s + digit_of c"
  by (simp add: radix_value_def)

lemma to_radix_props:
  assumes "2 \<le> b" "b \<le> 16"
  shows "radix_value b (to_radix b n) = n \<and> list_all (radix_digit b) (to_radix b n) \<and> to_radix b n \<noteq> []"
proof (induction n rule: less_induct)
  case (less n)
  show ?case
  proof (cases "n < b")
    case True
    then show ?thesis using assms by (subst (1 2 3) to_radix.simps) (simp add: radix_value_def)
  next
    case False
    then have "n div b < n" using assms by (intro div_less_dividend) auto
    note ih = less.IH [OF this]
    have m: "n mod b < b" using assms by simp
    then have m16: "n mod b < 16" using assms(2) by (rule less_le_trans)
    show ?thesis using ih m m16 False assms by (subst (1 2 3) to_radix.simps) (simp add: radix_value_snoc)
  qed
qed

lemma to_radix_length:
  assumes "2 \<le> b" and "n < b ^ Suc w"
  shows "length (to_radix b n) \<le> Suc w"
  using assms(2)
proof (induction w arbitrary: n)
  case 0
  then show ?case by (subst to_radix.simps) simp
next
  case (Suc w)
  show ?case
  proof (cases "n < b")
    case True
    then show ?thesis by (subst to_radix.simps) simp
  next
    case False
    have "n div b < b ^ Suc w" using Suc.prems by (intro less_mult_imp_div_less) (simp add: mult.commute)
    then have "length (to_radix b (n div b)) \<le> Suc w" by (rule Suc.IH)
    then show ?thesis using False assms(1) by (subst to_radix.simps) simp
  qed
qed

lemma radix_value_zeros: "radix_value b (replicate k (CHR ''0'') @ s) = radix_value b s"
proof -
  have "digit_of (CHR ''0'') = 0" by (simp add: digit_of_def hex_char_def)
  then have "foldl (\<lambda>n c. b * n + digit_of c) 0 (replicate k (CHR ''0'')) = 0" by (induction k) simp_all
  then show ?thesis by (simp add: radix_value_def)
qed

lemma pad_props:
  assumes "2 \<le> b" "b \<le> 16" "n < b ^ w" "0 < w"
  shows "length (pad_start w (to_radix b n)) = w" "radix_value b (pad_start w (to_radix b n)) = n"
    "list_all (radix_digit b) (pad_start w (to_radix b n))"
proof -
  obtain k where k: "w = Suc k" using assms(4) by (cases w) auto
  have "radix_digit b (CHR ''0'')" using assms(1) by (simp add: radix_digit_def hex_char_def)
  then show "length (pad_start w (to_radix b n)) = w" "radix_value b (pad_start w (to_radix b n)) = n"
    "list_all (radix_digit b) (pad_start w (to_radix b n))"
    using to_radix_length [OF assms(1), of n k] assms(3) to_radix_props [OF assms(1,2), of n]
    by (auto simp: pad_start_def radix_value_zeros list_all_iff k)
qed

lemmas octal_props = pad_props [of 8, simplified]

section \<open>Writing into a buffer\<close>

definition write_at :: "nat \<Rightarrow> string \<Rightarrow> string \<Rightarrow> string" where
  "write_at off s v = take off v @ take (length v - off) s @ drop (off + length s) v"

definition slice :: "nat \<Rightarrow> nat \<Rightarrow> string \<Rightarrow> string" where
  "slice a n v = take n (drop a v)"

lemma length_write_at [simp]: "off + length s \<le> length v \<Longrightarrow> length (write_at off s v) = length v"
  by (simp add: write_at_def)

lemma slice_write_same: "off + length s \<le> length v \<Longrightarrow> n = length s \<Longrightarrow> slice off n (write_at off s v) = s"
  by (simp add: slice_def write_at_def)

lemma slice_write_before: "off + length s \<le> length v \<Longrightarrow> a + n \<le> off \<Longrightarrow> slice a n (write_at off s v) = slice a n v"
  by (simp add: slice_def write_at_def take_drop min_def)

lemma slice_write_after:
  assumes "off + length s \<le> length v" and "off + length s \<le> a"
  shows "slice a n (write_at off s v) = slice a n v"
proof -
  have "drop a (write_at off s v) = drop a v" using assms by (simp add: write_at_def)
  then show ?thesis by (simp add: slice_def)
qed

section \<open>The header\<close>

definition tar_name :: "string \<Rightarrow> bool" where
  "tar_name s \<longleftrightarrow> s \<noteq> [] \<and> list_all (\<lambda>c. let n = (of_char c :: nat) in (97 \<le> n \<and> n \<le> 122) \<or> (46 \<le> n \<and> n \<le> 57)) s"

definition MAX_TAR_SIZE :: nat where
  "MAX_TAR_SIZE = 8589934591"

definition octal_field :: "nat \<Rightarrow> nat \<Rightarrow> string" where
  "octal_field width n = take width (pad_start (width - 1) (to_radix 8 n) @ [CHR 0x00])"

definition header_error :: "js_error + 'a" where
  "header_error = Inl (PlainError ''Invalid checkpoint tar header.'')"

definition header_fields :: "string \<Rightarrow> nat \<Rightarrow> string" where
  "header_fields name sz =
     write_at 263 ''00'' (write_at 257 (''ustar'' @ [CHR 0x00]) (write_at 156 ''0'' (write_at 148 (replicate 8 (CHR '' ''))
       (foldl (\<lambda>v (offset, width, n). write_at offset (octal_field width n) v)
         (write_at 0 name (replicate 512 (CHR 0x00)))
         [(100, 8, 384), (108, 8, 0), (116, 8, 0), (124, 12, sz), (136, 12, 0)]))))"

definition checkpointTarHeader :: "string \<Rightarrow> nat \<Rightarrow> js_error + string" where
  "checkpointTarHeader name sz =
     (if \<not> tar_name name \<or> 100 < length name \<or> MAX_TAR_SIZE < sz then header_error
      else let value = header_fields name sz; checksum = sum_list (map (of_char :: char \<Rightarrow> nat) value)
           in Inr (write_at 148 (take 8 (pad_start 6 (to_radix 8 checksum) @ [CHR 0x00, CHR '' ''])) value))"

text \<open>\<open>toString("ascii")\<close> clears the top bit of every byte.\<close>

definition ascii :: "char \<Rightarrow> char" where
  "ascii c = char_of ((of_char c :: nat) mod 128)"

definition parseCheckpointTarHeader :: "string \<Rightarrow> js_error + (string \<times> nat)" where
  "parseCheckpointTarHeader bytes =
     (let name = map ascii (takeWhile (\<lambda>c. c \<noteq> CHR 0x00) (take 100 bytes));
          sizeText = map ascii (take 12 (drop 124 bytes))
      in if \<not> (length sizeText = 12 \<and> list_all (radix_digit 8) (take 11 sizeText) \<and> drop 11 sizeText = [CHR 0x00])
         then Inl (PlainError ''Invalid checkpoint tar header size.'')
         else let sz = radix_value 8 (take 11 sizeText)
              in bindE (checkpointTarHeader name sz) (\<lambda>h. if h \<noteq> bytes then header_error else Inr (name, sz)))"

section \<open>Reading a header back\<close>

lemma octal_field_digits:
  assumes "n < 8 ^ (w - 1)" and "1 < w"
  shows "octal_field w n = pad_start (w - 1) (to_radix 8 n) @ [CHR 0x00]" "length (octal_field w n) = w"
  using octal_props(1) [of n "w - 1"] assms by (simp_all add: octal_field_def)

lemma field_lengths:
  "length (octal_field 8 384) = 8" "length (octal_field 8 0) = 8" "length (octal_field 12 0) = 12"
  "sz \<le> MAX_TAR_SIZE \<Longrightarrow> length (octal_field 12 sz) = 12"
  using octal_field_digits(2) [of 384 8] octal_field_digits(2) [of 0 8] octal_field_digits(2) [of 0 12] octal_field_digits(2) [of sz 12]
  by (simp_all add: MAX_TAR_SIZE_def)

lemma header_fields_props:
  assumes "length name \<le> 100" and "sz \<le> MAX_TAR_SIZE"
  shows "length (header_fields name sz) = 512" "slice 0 100 (header_fields name sz) = name @ replicate (100 - length name) (CHR 0x00)"
    "slice 124 12 (header_fields name sz) = octal_field 12 sz"
proof -
  note len = field_lengths(1-3) field_lengths(4) [OF assms(2)]
  show "length (header_fields name sz) = 512"
    using assms(1) by (simp add: header_fields_def len)
  have "slice 0 100 (write_at 0 name (replicate 512 (CHR 0x00))) = name @ replicate (100 - length name) (CHR 0x00)"
    using assms(1) by (simp add: slice_def write_at_def min_def)
  then show "slice 0 100 (header_fields name sz) = name @ replicate (100 - length name) (CHR 0x00)"
    using assms(1) by (simp add: header_fields_def len slice_write_before)
  show "slice 124 12 (header_fields name sz) = octal_field 12 sz"
    using assms(1) by (simp add: header_fields_def len slice_write_before slice_write_same)
qed

lemma checksum_bound: "sum_list (map (of_char :: char \<Rightarrow> nat) v) \<le> 255 * length v"
proof (induction v)
  case (Cons c v)
  have "(of_char c :: nat) \<le> 255" using nat_of_char_less_256 [of c] by linarith
  then show ?case using Cons by simp
qed simp

lemma tar_header_Inr:
  assumes "checkpointTarHeader name sz = Inr h"
  shows "tar_name name" "length name \<le> 100" "sz \<le> MAX_TAR_SIZE" "length h = 512"
    "slice 0 100 h = name @ replicate (100 - length name) (CHR 0x00)" "slice 124 12 h = octal_field 12 sz"
proof -
  let ?v = "header_fields name sz"
  let ?c = "sum_list (map (of_char :: char \<Rightarrow> nat) ?v)"
  show ok: "tar_name name" "length name \<le> 100" "sz \<le> MAX_TAR_SIZE"
    using assms by (auto simp: checkpointTarHeader_def header_error_def Let_def split: if_splits)
  have h: "h = write_at 148 (take 8 (pad_start 6 (to_radix 8 ?c) @ [CHR 0x00, CHR '' ''])) ?v"
    using assms ok by (simp add: checkpointTarHeader_def Let_def)
  note f = header_fields_props [OF ok(2,3)]
  have "?c < 8 ^ 6" using checksum_bound [of ?v] unfolding f(1) by simp
  then have "length (pad_start 6 (to_radix 8 ?c)) = 6" by (rule octal_props(1)) simp
  then have l: "length (take 8 (pad_start 6 (to_radix 8 ?c) @ [CHR 0x00, CHR '' ''])) = 8" by simp
  show "length h = 512" unfolding h using l f(1) by simp
  show "slice 0 100 h = name @ replicate (100 - length name) (CHR 0x00)"
    unfolding h using l f by (subst slice_write_before) simp_all
  show "slice 124 12 h = octal_field 12 sz" unfolding h using l f by (subst slice_write_before) simp_all
qed

lemma ascii_id: "(of_char c :: nat) < 128 \<Longrightarrow> ascii c = c"
  by (simp add: ascii_def)

lemma tar_name_ascii:
  assumes "tar_name s"
  shows "map ascii s = s" "CHR 0x00 \<notin> set s"
proof -
  have "of_char c < (128 :: nat) \<and> c \<noteq> CHR 0x00" if "c \<in> set s" for c
    using assms that by (auto simp: tar_name_def list_all_iff Let_def)
  then show "map ascii s = s" "CHR 0x00 \<notin> set s" using ascii_id by (auto intro: map_idI)
qed

lemma radix_digit_ascii: "radix_digit b c \<Longrightarrow> ascii c = c"
  by (intro ascii_id) (auto simp: radix_digit_def hex_char_def Let_def split: if_splits option.splits)

lemma takeWhile_zeros: "z \<notin> set s \<Longrightarrow> takeWhile (\<lambda>c. c \<noteq> z) (s @ replicate k z) = s"
  by (induction s) (auto simp: takeWhile_replicate)

text \<open>A header that was written is read back, and one that is read is the one that is written.\<close>

lemma parse_tar_header:
  assumes "checkpointTarHeader name sz = Inr h"
  shows "parseCheckpointTarHeader h = Inr (name, sz)"
proof -
  note p = tar_header_Inr [OF assms]
  have "take 100 h = name @ replicate (100 - length name) (CHR 0x00)" using p(5) by (simp add: slice_def)
  then have "takeWhile (\<lambda>c. c \<noteq> CHR 0x00) (take 100 h) = name"
    using takeWhile_zeros [OF tar_name_ascii(2) [OF p(1)]] by simp
  moreover have sz: "sz < 8 ^ 11" using p(3) by (simp add: MAX_TAR_SIZE_def)
  have digits: "octal_field 12 sz = pad_start 11 (to_radix 8 sz) @ [CHR 0x00]"
    using octal_field_digits(1) [of sz 12] sz by simp
  have pad: "length (pad_start 11 (to_radix 8 sz)) = 11" "radix_value 8 (pad_start 11 (to_radix 8 sz)) = sz"
    "list_all (radix_digit 8) (pad_start 11 (to_radix 8 sz))"
    using octal_props [OF sz] by simp_all
  have asc: "map ascii (pad_start 11 (to_radix 8 sz)) = pad_start 11 (to_radix 8 sz)" "ascii (CHR 0x00) = CHR 0x00"
    using pad(3) radix_digit_ascii [of 8] by (simp_all add: list_all_iff map_idI ascii_id)
  have "map ascii (take 12 (drop 124 h)) = pad_start 11 (to_radix 8 sz) @ [CHR 0x00]"
    using p(6) asc unfolding slice_def digits by simp
  ultimately show ?thesis
    using assms pad tar_name_ascii(1) [OF p(1)] by (simp add: parseCheckpointTarHeader_def Let_def)
qed

lemma parse_tar_header_iff: "parseCheckpointTarHeader h = Inr (name, sz) \<longleftrightarrow> checkpointTarHeader name sz = Inr h"
proof
  assume "parseCheckpointTarHeader h = Inr (name, sz)"
  then show "checkpointTarHeader name sz = Inr h"
    by (auto simp: parseCheckpointTarHeader_def Let_def header_error_def split: if_splits)
qed (rule parse_tar_header)

end
