(* ===== verification/Checkpoint_Format.thy ===== *)
theory Checkpoint_Format
  imports Tar_Header
begin

text \<open>
  The documents of a checkpoint archive (\<^verbatim>\<open>packages/contracts/src/checkpoints/archive-format.ts\<close>): the header,
  the entries and the summary, with the schemas they are parsed with, the paths and links that an entry may
  have, and the canonical text that a document must have. A string is its UTF-8 bytes. SHA-256, the format of a
  UUID and Unicode normalization are the fields of \<open>checkpoint_env\<close>.
\<close>

record checkpoint_env =
  env_sha :: "string \<Rightarrow> string"
  env_uuid :: "string \<Rightarrow> bool"
  env_nfc :: "string \<Rightarrow> bool"

definition CHECKPOINT_ARCHIVE_FORMAT :: string where
  "CHECKPOINT_ARCHIVE_FORMAT = ''pocketcoder-checkpoint-tar/v1''"

definition CHECKPOINT_PAYLOAD_BYTES :: nat where
  "CHECKPOINT_PAYLOAD_BYTES = 67108864"

definition CHECKPOINT_IO_BYTES :: nat where
  "CHECKPOINT_IO_BYTES = 65536"

definition CHECKPOINT_DOCUMENT_BYTES :: nat where
  "CHECKPOINT_DOCUMENT_BYTES = 32768"

definition CHECKPOINT_ENTRY_BYTES :: nat where
  "CHECKPOINT_ENTRY_BYTES = 16384"

definition SAFE_INTEGER :: nat where
  "SAFE_INTEGER = 9007199254740991"

section \<open>Paths\<close>

definition continuation :: "nat \<Rightarrow> bool" where
  "continuation b \<longleftrightarrow> 128 \<le> b \<and> b < 192"

fun utf8_codes :: "nat list \<Rightarrow> bool" where
  "utf8_codes [] = True"
| "utf8_codes (a # r) =
     (if a < 128 then utf8_codes r
      else if 194 \<le> a \<and> a < 224 then
        (case r of b # s \<Rightarrow> continuation b \<and> utf8_codes s | _ \<Rightarrow> False)
      else if 224 \<le> a \<and> a < 240 then
        (case r of b # c # s \<Rightarrow> continuation b \<and> (a = 224 \<longrightarrow> 160 \<le> b) \<and> (a = 237 \<longrightarrow> b < 160) \<and> continuation c \<and> utf8_codes s
         | _ \<Rightarrow> False)
      else if 240 \<le> a \<and> a < 245 then
        (case r of b # c # d # s \<Rightarrow> continuation b \<and> (a = 240 \<longrightarrow> 144 \<le> b) \<and> (a = 244 \<longrightarrow> b < 144) \<and> continuation c
           \<and> continuation d \<and> utf8_codes s
         | _ \<Rightarrow> False)
      else False)"

definition validUnicode :: "string \<Rightarrow> bool" where
  "validUnicode s = utf8_codes (map of_char s)"

fun split_slash :: "string \<Rightarrow> string list" where
  "split_slash [] = [[]]"
| "split_slash (c # s) =
     (if c = CHR ''/'' then [] # split_slash s
      else (case split_slash s of p # ps \<Rightarrow> (c # p) # ps | [] \<Rightarrow> [[c]]))"

definition safe_part :: "string \<Rightarrow> bool" where
  "safe_part p \<longleftrightarrow> p \<noteq> '''' \<and> p \<noteq> ''.'' \<and> p \<noteq> ''..''"

definition safeCheckpointPath :: "checkpoint_env \<Rightarrow> string \<Rightarrow> bool" where
  "safeCheckpointPath env s \<longleftrightarrow> validUnicode s \<and> env_nfc env s \<and> CHR 0x00 \<notin> set s \<and> CHR 0x5C \<notin> set s
     \<and> list_all safe_part (split_slash s)"

text \<open>\<open>posix.dirname\<close> of a path without trailing slash, \<open>posix.normalize\<close> and \<open>posix.join\<close>.\<close>

definition posix_dirname :: "string \<Rightarrow> string" where
  "posix_dirname s =
     (let parts = split_slash s in if length parts < 2 then ''.'' else join_with ''/'' (butlast parts))"

fun normalize_parts :: "bool \<Rightarrow> string list \<Rightarrow> string list \<Rightarrow> string list" where
  "normalize_parts up acc [] = acc"
| "normalize_parts up acc (p # ps) =
     (if p = '''' \<or> p = ''.'' then normalize_parts up acc ps
      else if p = ''..'' then
        (if acc \<noteq> [] \<and> last acc \<noteq> ''..'' then normalize_parts up (butlast acc) ps
         else normalize_parts up (if up then acc @ [p] else acc) ps)
      else normalize_parts up (acc @ [p]) ps)"

definition is_absolute :: "string \<Rightarrow> bool" where
  "is_absolute s \<longleftrightarrow> s \<noteq> [] \<and> hd s = CHR ''/''"

definition posix_normalize :: "string \<Rightarrow> string" where
  "posix_normalize s =
     (if s = [] then ''.''
      else let path = join_with ''/'' (normalize_parts (\<not> is_absolute s) [] (split_slash s)); trailing = last s = CHR ''/''
           in if path = [] then (if is_absolute s then ''/'' else if trailing then ''./'' else ''.'')
              else (if is_absolute s then ''/'' else '''') @ path @ (if trailing then ''/'' else ''''))"

definition posix_join :: "string \<Rightarrow> string \<Rightarrow> string" where
  "posix_join a b = (let joined = join_with ''/'' (filter (\<lambda>x. x \<noteq> []) [a, b]) in if joined = [] then ''.'' else posix_normalize joined)"

definition safeCheckpointLink :: "string \<Rightarrow> string \<Rightarrow> bool" where
  "safeCheckpointLink path target \<longleftrightarrow>
     target \<noteq> [] \<and> validUnicode target \<and> \<not> is_absolute target \<and> CHR 0x00 \<notin> set target \<and> CHR 0x5C \<notin> set target
     \<and> (let resolved = posix_normalize (posix_join (posix_dirname path) target)
        in resolved \<noteq> ''..'' \<and> take 3 resolved \<noteq> ''../'' \<and> \<not> is_absolute resolved)"

section \<open>Schemas\<close>

definition digest_text :: "string \<Rightarrow> bool" where
  "digest_text s \<longleftrightarrow> take 7 s = ''sha256:'' \<and> length s = 71 \<and> list_all (radix_digit 16) (drop 7 s)"

definition alphanumeric :: "char \<Rightarrow> bool" where
  "alphanumeric c \<longleftrightarrow> (let n = (of_char c :: nat) in (97 \<le> n \<and> n \<le> 122) \<or> (48 \<le> n \<and> n \<le> 57))"

definition mount_name :: "string \<Rightarrow> bool" where
  "mount_name s \<longleftrightarrow> s \<noteq> [] \<and> length s \<le> 64 \<and> alphanumeric (hd s) \<and> alphanumeric (last s)
     \<and> list_all (\<lambda>c. alphanumeric c \<or> c = CHR ''-'') s"

record checkpoint_mount =
  cm_name :: string
  cm_logical_bytes :: nat
  cm_file_count :: nat

definition valid_mounts :: "checkpoint_mount list \<Rightarrow> bool" where
  "valid_mounts ms \<longleftrightarrow> length ms \<le> 16 \<and> distinct (map cm_name ms)
     \<and> list_all (\<lambda>m. mount_name (cm_name m) \<and> cm_logical_bytes m \<le> SAFE_INTEGER \<and> cm_file_count m \<le> SAFE_INTEGER) ms"

record checkpoint_header =
  ch_checkpoint_id :: string
  ch_workspace_id :: string
  ch_template_digest :: string
  ch_mounts :: "checkpoint_mount list"

definition valid_header :: "checkpoint_env \<Rightarrow> checkpoint_header \<Rightarrow> bool" where
  "valid_header env h \<longleftrightarrow> env_uuid env (ch_checkpoint_id h) \<and> env_uuid env (ch_workspace_id h)
     \<and> digest_text (ch_template_digest h) \<and> valid_mounts (ch_mounts h)"

datatype entry_kind = Directory | File nat string | Symlink nat string string

record checkpoint_entry =
  ce_mount :: nat
  ce_path :: string
  ce_mode :: nat
  ce_mtime_ns :: string
  ce_kind :: entry_kind

fun kind_size :: "entry_kind \<Rightarrow> nat" where
  "kind_size Directory = 0"
| "kind_size (File n g) = n"
| "kind_size (Symlink n g t) = n"

definition ns_text :: "string \<Rightarrow> bool" where
  "ns_text s \<longleftrightarrow> s \<noteq> [] \<and> list_all is_digit s \<and> (hd s = CHR ''0'' \<longrightarrow> length s = 1)"

definition valid_entry :: "checkpoint_env \<Rightarrow> checkpoint_entry \<Rightarrow> bool" where
  "valid_entry env e \<longleftrightarrow> ce_mount e \<le> 15 \<and> safeCheckpointPath env (ce_path e) \<and> ce_mode e \<le> 511 \<and> ns_text (ce_mtime_ns e)
     \<and> (case ce_kind e of
          Directory \<Rightarrow> True
        | File n g \<Rightarrow> n \<le> SAFE_INTEGER \<and> digest_text g
        | Symlink n g t \<Rightarrow> ce_mode e = 511 \<and> n \<le> SAFE_INTEGER \<and> digest_text g \<and> safeCheckpointLink (ce_path e) t
            \<and> n = length t \<and> g = ''sha256:'' @ env_sha env t)"

record checkpoint_summary =
  cs_mounts :: "checkpoint_mount list"
  cs_manifest_digest :: string
  cs_content_digest :: string

definition valid_summary :: "checkpoint_summary \<Rightarrow> bool" where
  "valid_summary s \<longleftrightarrow> valid_mounts (cs_mounts s) \<and> digest_text (cs_manifest_digest s) \<and> digest_text (cs_content_digest s)"

section \<open>Documents\<close>

definition count_json :: "nat \<Rightarrow> json" where
  "count_json n = JNum (int n)"

definition mount_json :: "checkpoint_mount \<Rightarrow> json" where
  "mount_json m = JObj [(''name'', JStr (cm_name m)), (''logical_bytes'', count_json (cm_logical_bytes m)),
     (''file_count'', count_json (cm_file_count m))]"

definition mounts_json :: "checkpoint_mount list \<Rightarrow> json" where
  "mounts_json ms = JArr (map mount_json ms)"

definition header_json :: "checkpoint_header \<Rightarrow> json" where
  "header_json h = JObj [(''format'', JStr CHECKPOINT_ARCHIVE_FORMAT), (''checkpoint_id'', JStr (ch_checkpoint_id h)),
     (''workspace_id'', JStr (ch_workspace_id h)), (''template_digest'', JStr (ch_template_digest h)),
     (''mounts'', mounts_json (ch_mounts h))]"

fun kind_json :: "entry_kind \<Rightarrow> (string \<times> json) list" where
  "kind_json Directory = [(''kind'', JStr ''directory''), (''size'', count_json 0)]"
| "kind_json (File n g) = [(''kind'', JStr ''file''), (''size'', count_json n), (''digest'', JStr g)]"
| "kind_json (Symlink n g t) =
     [(''kind'', JStr ''symlink''), (''size'', count_json n), (''digest'', JStr g), (''link_target'', JStr t)]"

definition entry_json :: "checkpoint_entry \<Rightarrow> json" where
  "entry_json e = JObj ([(''mount'', count_json (ce_mount e)), (''path'', JStr (ce_path e)), (''mode'', count_json (ce_mode e)),
     (''mtime_ns'', JStr (ce_mtime_ns e))] @ kind_json (ce_kind e))"

definition summary_json :: "checkpoint_summary \<Rightarrow> json" where
  "summary_json s = JObj [(''mounts'', mounts_json (cs_mounts s)), (''manifest_digest'', JStr (cs_manifest_digest s)),
     (''content_digest'', JStr (cs_content_digest s))]"

text \<open>Reading a document: \<open>strictObject\<close> has exactly the named properties.\<close>

definition strict :: "string list \<Rightarrow> json \<Rightarrow> bool" where
  "strict ks v = (case v of JObj ps \<Rightarrow> set (map fst ps) = set ks | _ \<Rightarrow> False)"

definition text_at :: "string \<Rightarrow> json \<Rightarrow> string option" where
  "text_at k v = (case own k v of Some (JStr s) \<Rightarrow> Some s | _ \<Rightarrow> None)"

definition count_at :: "string \<Rightarrow> json \<Rightarrow> nat option" where
  "count_at k v = (case own k v of Some (JNum n) \<Rightarrow> if 0 \<le> n then Some (nat n) else None | _ \<Rightarrow> None)"

definition mount_of_json :: "json \<Rightarrow> checkpoint_mount option" where
  "mount_of_json v =
     (if \<not> strict [''name'', ''logical_bytes'', ''file_count''] v then None
      else case (text_at ''name'' v, count_at ''logical_bytes'' v, count_at ''file_count'' v) of
        (Some n, Some b, Some f) \<Rightarrow> Some \<lparr> cm_name = n, cm_logical_bytes = b, cm_file_count = f \<rparr>
      | _ \<Rightarrow> None)"

fun all_some :: "'a option list \<Rightarrow> 'a list option" where
  "all_some [] = Some []"
| "all_some (x # xs) = (case (x, all_some xs) of (Some a, Some as) \<Rightarrow> Some (a # as) | _ \<Rightarrow> None)"

definition mounts_at :: "string \<Rightarrow> json \<Rightarrow> checkpoint_mount list option" where
  "mounts_at k v = (case own k v of Some (JArr vs) \<Rightarrow> all_some (map mount_of_json vs) | _ \<Rightarrow> None)"

definition header_of_json :: "json \<Rightarrow> checkpoint_header option" where
  "header_of_json v =
     (if \<not> strict [''format'', ''checkpoint_id'', ''workspace_id'', ''template_digest'', ''mounts''] v
         \<or> text_at ''format'' v \<noteq> Some CHECKPOINT_ARCHIVE_FORMAT then None
      else case (text_at ''checkpoint_id'' v, text_at ''workspace_id'' v, text_at ''template_digest'' v, mounts_at ''mounts'' v) of
        (Some c, Some w, Some t, Some ms) \<Rightarrow>
          Some \<lparr> ch_checkpoint_id = c, ch_workspace_id = w, ch_template_digest = t, ch_mounts = ms \<rparr>
      | _ \<Rightarrow> None)"

definition kind_of_json :: "json \<Rightarrow> entry_kind option" where
  "kind_of_json v =
     (let common = [''mount'', ''path'', ''mode'', ''mtime_ns'', ''kind'', ''size'']
      in if text_at ''kind'' v = Some ''directory'' then
           (if strict common v \<and> count_at ''size'' v = Some 0 then Some Directory else None)
         else if text_at ''kind'' v = Some ''file'' then
           (if strict (common @ [''digest'']) v
            then (case (count_at ''size'' v, text_at ''digest'' v) of (Some n, Some g) \<Rightarrow> Some (File n g) | _ \<Rightarrow> None) else None)
         else if text_at ''kind'' v = Some ''symlink'' then
           (if strict (common @ [''digest'', ''link_target'']) v
            then (case (count_at ''size'' v, text_at ''digest'' v, text_at ''link_target'' v) of
                    (Some n, Some g, Some t) \<Rightarrow> Some (Symlink n g t) | _ \<Rightarrow> None) else None)
         else None)"

definition entry_of_json :: "json \<Rightarrow> checkpoint_entry option" where
  "entry_of_json v =
     (case (count_at ''mount'' v, text_at ''path'' v, count_at ''mode'' v, text_at ''mtime_ns'' v, kind_of_json v) of
        (Some m, Some p, Some d, Some t, Some k) \<Rightarrow>
          Some \<lparr> ce_mount = m, ce_path = p, ce_mode = d, ce_mtime_ns = t, ce_kind = k \<rparr>
      | _ \<Rightarrow> None)"

definition summary_of_json :: "json \<Rightarrow> checkpoint_summary option" where
  "summary_of_json v =
     (if \<not> strict [''mounts'', ''manifest_digest'', ''content_digest''] v then None
      else case (mounts_at ''mounts'' v, text_at ''manifest_digest'' v, text_at ''content_digest'' v) of
        (Some ms, Some m, Some c) \<Rightarrow> Some \<lparr> cs_mounts = ms, cs_manifest_digest = m, cs_content_digest = c \<rparr>
      | _ \<Rightarrow> None)"

text \<open>\<open>checkpointDocument\<close>: parse, check the schema, and require the canonical text. The fatal decoding of UTF-8
  refuses the texts that have a string which is not UTF-8; the schemas refuse every such string.\<close>

definition checkpointDocument ::
  "(json \<Rightarrow> 'a option) \<Rightarrow> ('a \<Rightarrow> bool) \<Rightarrow> ('a \<Rightarrow> json) \<Rightarrow> string \<Rightarrow> string \<Rightarrow> js_error + 'a" where
  "checkpointDocument of_json valid to_json name bytes =
     (case Option.bind (parse_printed bytes) of_json of
        Some a \<Rightarrow> if valid a \<and> canonicalJson (to_json a) = bytes then Inr a
                  else Inl (PlainError (''Invalid checkpoint '' @ name @ '' document.''))
      | None \<Rightarrow> Inl (PlainError (''Invalid checkpoint '' @ name @ '' document.'')))"

definition checkpointIndex :: "nat \<Rightarrow> js_error + string" where
  "checkpointIndex n = (if SAFE_INTEGER < n then Inl (PlainError ''Invalid checkpoint entry index.'') else Inr (pad_start 16 (to_radix 16 n)))"

section \<open>A document is read back from its text\<close>

lemma map_of_sort_key:
  assumes "distinct (map fst ps)"
  shows "map_of (sort_key fst ps) k = map_of ps k"
proof -
  have "distinct (map fst (sort_key fst ps))"
    using assms by (metis distinct_sort distinct_map set_sort)
  then show ?thesis
    using assms by (metis map_of_eq_None_iff map_of_eq_Some_iff option.exhaust set_sort)
qed

lemma map_of_sorted_members:
  assumes "distinct (map fst ps)"
  shows "map_of (sorted_members ps) k =
    (case map_of ps k of None \<Rightarrow> None | Some v \<Rightarrow> if v = JUndefined then None else Some (sortValue v))"
  using assms
proof (induction ps arbitrary: k)
  case (Cons p ps)
  have "map_of ps (fst p) = None" using Cons.prems by (simp add: map_of_eq_None_iff)
  then have "map_of (sorted_members ps) (fst p) = None" using Cons.IH [of "fst p"] Cons.prems by simp
  then show ?case using Cons.IH [of k] Cons.prems by (cases p) (auto simp: sorted_members_def)
qed (simp add: sorted_members_def)

lemma sortValue_undefined_iff: "sortValue v = JUndefined \<longleftrightarrow> v = JUndefined"
  by (cases v) simp_all

lemma own_sortValue:
  assumes "distinct (map fst ps)"
  shows "own k (sortValue (JObj ps)) = map_option sortValue (own k (JObj ps))"
proof -
  have "distinct (map fst (sorted_members ps))"
    by (rule sorted_members_distinct [OF assms])
  then have "map_of (sort_key fst (sorted_members ps)) k =
      (case map_of ps k of None \<Rightarrow> None | Some v \<Rightarrow> if v = JUndefined then None else Some (sortValue v))"
    by (simp add: map_of_sort_key map_of_sorted_members [OF assms])
  then show ?thesis
    unfolding sortValue_obj own_def
    by (auto simp: sortValue_undefined_iff split: option.splits json.splits)
qed

lemma strict_sortValue:
  assumes "\<forall>p \<in> set ps. snd p \<noteq> JUndefined"
  shows "strict ks (sortValue (JObj ps)) \<longleftrightarrow> strict ks (JObj ps)"
proof -
  have "fst ` set (sorted_members ps) = fst ` set ps"
    using assms by (force simp: sorted_members_def image_iff)
  then show ?thesis unfolding sortValue_obj strict_def by (simp add: image_Un)
qed

locale document_codec =
  fixes to_json :: "'a \<Rightarrow> json" and of_json :: "json \<Rightarrow> 'a option"
  assumes to_document: "document (to_json a)"
    and of_to: "of_json (sortValue (to_json a)) = Some a"
begin

lemma checkpointDocument_iff:
  "checkpointDocument of_json valid to_json name bytes = Inr a \<longleftrightarrow> valid a \<and> canonicalJson (to_json a) = bytes"
proof
  assume "valid a \<and> canonicalJson (to_json a) = bytes"
  moreover from this have "parse_printed bytes = Some (sortValue (to_json a))"
    using parse_printed_canonical [OF document_defined [OF to_document]] by blast
  ultimately show "checkpointDocument of_json valid to_json name bytes = Inr a"
    by (simp add: checkpointDocument_def of_to)
qed (auto simp: checkpointDocument_def split: option.splits if_splits)

end

lemma text_sortValue: "distinct (map fst ps) \<Longrightarrow> text_at k (sortValue (JObj ps)) = text_at k (JObj ps)"
  unfolding text_at_def own_sortValue by (auto split: option.splits json.splits elim!: sortValue.elims)

lemma count_sortValue: "distinct (map fst ps) \<Longrightarrow> count_at k (sortValue (JObj ps)) = count_at k (JObj ps)"
  unfolding count_at_def own_sortValue by (auto split: option.splits json.splits elim!: sortValue.elims)

text \<open>A property that is a constant string, a number or a list of mounts, in any of the three documents.\<close>

lemma own_simps [simp]:
  "own k (JObj []) = None"
  "own k (JObj ((k', v) # ps)) = (if k = k' then (if v = JUndefined then None else Some v) else own k (JObj ps))"
  by (auto simp: own_def split: json.splits)

lemma count_json_simps [simp]: "count_json n \<noteq> JUndefined" "sortValue (count_json n) = count_json n" "document (count_json n)"
  by (simp_all add: count_json_def)

lemma mounts_json_simps [simp]: "mounts_json ms \<noteq> JUndefined"
  by (simp add: mounts_json_def)

lemma all_some_map: "(\<And>x. x \<in> set xs \<Longrightarrow> f x = Some (g x)) \<Longrightarrow> all_some (map f xs) = Some (map g xs)"
  by (induction xs) simp_all

lemma mount_codec: "document (mount_json m)" "mount_of_json (sortValue (mount_json m)) = Some m"
proof -
  show "document (mount_json m)" by (simp add: mount_json_def)
  show "mount_of_json (sortValue (mount_json m)) = Some m"
    unfolding mount_of_json_def mount_json_def
    by (simp del: sortValue.simps add: text_sortValue count_sortValue strict_sortValue)
      (simp add: strict_def text_at_def count_at_def count_json_def)
qed

lemma mounts_document: "document (mounts_json ms)"
  using mount_codec(1) by (simp add: mounts_json_def list_all_iff)

lemma mounts_sortValue:
  assumes "distinct (map fst ps)" and "own k (JObj ps) = Some (mounts_json ms)"
  shows "mounts_at k (sortValue (JObj ps)) = Some ms"
proof -
  have "own k (sortValue (JObj ps)) = Some (JArr (map (\<lambda>m. sortValue (mount_json m)) ms))"
    unfolding own_sortValue [OF assms(1)] assms(2) by (simp add: mounts_json_def)
  then show ?thesis
    using all_some_map [of ms "\<lambda>m. mount_of_json (sortValue (mount_json m))" id] mount_codec(2)
    by (simp add: mounts_at_def o_def)
qed

interpretation header_doc: document_codec header_json header_of_json
proof unfold_locales
  show "document (header_json h)" for h by (simp add: header_json_def mounts_document)
  show "header_of_json (sortValue (header_json h)) = Some h" for h
    unfolding header_of_json_def header_json_def
    by (simp del: sortValue.simps add: text_sortValue strict_sortValue mounts_sortValue)
      (simp add: strict_def text_at_def)
qed

interpretation summary_doc: document_codec summary_json summary_of_json
proof unfold_locales
  show "document (summary_json s)" for s by (simp add: summary_json_def mounts_document)
  show "summary_of_json (sortValue (summary_json s)) = Some s" for s
    unfolding summary_of_json_def summary_json_def
    by (simp del: sortValue.simps add: text_sortValue strict_sortValue mounts_sortValue)
      (simp add: strict_def text_at_def)
qed

lemma entry_keys: "distinct (map fst (kind_json k))" "\<forall>p \<in> set (kind_json k). snd p \<noteq> JUndefined"
  by (cases k; simp)+

interpretation entry_doc: document_codec entry_json entry_of_json
proof unfold_locales
  show "document (entry_json e)" for e by (cases "ce_kind e") (simp_all add: entry_json_def)
  show "entry_of_json (sortValue (entry_json e)) = Some e" for e
  proof (cases "ce_kind e")
    case Directory
    then show ?thesis unfolding entry_of_json_def kind_of_json_def entry_json_def Let_def
      by (simp del: sortValue.simps add: text_sortValue count_sortValue strict_sortValue)
        (simp add: strict_def text_at_def count_at_def count_json_def)
  next
    case (File n g)
    then show ?thesis unfolding entry_of_json_def kind_of_json_def entry_json_def Let_def
      by (simp del: sortValue.simps add: text_sortValue count_sortValue strict_sortValue)
        (simp add: strict_def text_at_def count_at_def count_json_def)
  next
    case (Symlink n g t)
    then show ?thesis unfolding entry_of_json_def kind_of_json_def entry_json_def Let_def
      by (simp del: sortValue.simps add: text_sortValue count_sortValue strict_sortValue)
        (simp add: strict_def text_at_def count_at_def count_json_def)
  qed
qed

end
