(* ===== verification/Checkpoint_Archive.thy ===== *)
theory Checkpoint_Archive
  imports Checkpoint_Format
begin

text \<open>
  Writing, measuring and reading a checkpoint archive
  (\<^verbatim>\<open>packages/contracts/src/checkpoints/archive-input.ts\<close>, \<^verbatim>\<open>archive-state.ts\<close>, \<^verbatim>\<open>archive-writer.ts\<close>,
  \<^verbatim>\<open>archive-reader.ts\<close>, \<^verbatim>\<open>archive-size.ts\<close>). A stream of bytes is the list of the chunks it delivers. The writer
  yields chunks into a bounded output, the reader pulls bytes from the chunks of its input, and both feed the same
  state: two running hashes, the totals of the mounts, the last path and the number of entries. A hash is the
  bytes it was fed. Abort signals and the callbacks of the reader are not modelled: the reader returns the bytes
  it would hand to the callbacks.
\<close>

section \<open>Pulling bytes from chunks\<close>

fun pull :: "nat \<Rightarrow> string list \<Rightarrow> (string \<times> string list) option" where
  "pull n [] = (if n = 0 then Some ([], []) else None)"
| "pull n (c # cs) =
     (if n \<le> length c then Some (take n c, drop n c # cs)
      else map_option (\<lambda>(s, r). (c @ s, r)) (pull (n - length c) cs))"

lemma pull_Some: "pull n cs = Some (s, r) \<Longrightarrow> concat cs = s @ concat r \<and> length s = n"
  by (induction cs arbitrary: n s r) (auto split: if_splits)

lemma pull_enough: "n \<le> length (concat cs) \<Longrightarrow> \<exists>s r. pull n cs = Some (s, r)"
proof (induction cs arbitrary: n)
  case (Cons c cs)
  show ?case
  proof (cases "n \<le> length c")
    case False
    then have "n - length c \<le> length (concat cs)" using Cons.prems by simp
    then obtain s r where "pull (n - length c) cs = Some (s, r)" using Cons.IH by blast
    then show ?thesis using False by simp
  qed simp
qed simp

record archive_input =
  ai_chunks :: "string list"
  ai_max :: nat
  ai_bytes :: nat
  ai_hash :: string

definition checkpointInput :: "string list \<Rightarrow> nat \<Rightarrow> js_error + archive_input" where
  "checkpointInput chunks maxBytes =
     (if SAFE_INTEGER < maxBytes then Inl (PlainError ''Invalid checkpoint archive reservation.'')
      else Inr \<lparr> ai_chunks = chunks, ai_max = maxBytes, ai_bytes = 0, ai_hash = [] \<rparr>)"

definition input_read :: "nat \<Rightarrow> archive_input \<Rightarrow> js_error + (string \<times> archive_input)" where
  "input_read n i =
     (if CHECKPOINT_IO_BYTES < n then Inl (PlainError ''Invalid checkpoint read size.'')
      else if ai_max i < ai_bytes i + n then Inl (PlainError ''Checkpoint archive exceeds its physical reservation.'')
      else case pull n (ai_chunks i) of
             None \<Rightarrow> Inl (PlainError ''Truncated checkpoint archive.'')
           | Some (s, r) \<Rightarrow> Inr (s, i\<lparr>ai_chunks := r, ai_bytes := ai_bytes i + n, ai_hash := ai_hash i @ s\<rparr>))"

definition input_end :: "archive_input \<Rightarrow> js_error + unit" where
  "input_end i = guardE (concat (ai_chunks i) \<noteq> []) (PlainError ''Checkpoint archive has trailing data.'')"

section \<open>The state of an archive\<close>

definition u64be :: "nat \<Rightarrow> string" where
  "u64be n = map (\<lambda>k. char_of (n div 256 ^ k mod 256)) [7, 6, 5, 4, 3, 2, 1, 0]"

definition hash_frame :: "string \<Rightarrow> string" where
  "hash_frame bytes = u64be (length bytes) @ bytes"

record archive_state =
  as_header :: checkpoint_header
  as_manifest :: string
  as_content :: string
  as_totals :: "checkpoint_mount list"
  as_previous :: "(nat \<times> string) option"
  as_entries :: nat

definition checkpointArchiveState :: "checkpoint_header \<Rightarrow> string \<Rightarrow> archive_state" where
  "checkpointArchiveState h doc =
     \<lparr> as_header = h, as_manifest = hash_frame doc, as_content = hash_frame doc,
       as_totals = map (\<lambda>m. \<lparr> cm_name = cm_name m, cm_logical_bytes = 0, cm_file_count = 0 \<rparr>) (ch_mounts h),
       as_previous = None, as_entries = 0 \<rparr>"

definition state_record :: "archive_state \<Rightarrow> checkpoint_entry \<Rightarrow> string \<Rightarrow> js_error + archive_state" where
  "state_record st e bytes =
     (if (case as_previous st of None \<Rightarrow> False
          | Some (m, p) \<Rightarrow> ce_mount e < m \<or> (ce_mount e = m \<and> ce_path e \<le> p))
      then Inl (PlainError ''Checkpoint entries are duplicate or out of order.'')
      else if length (as_totals st) \<le> ce_mount e \<or> length (ch_mounts (as_header st)) \<le> ce_mount e
      then Inl (PlainError ''Invalid checkpoint entry mount.'')
      else
        let total = as_totals st ! ce_mount e; reserved = ch_mounts (as_header st) ! ce_mount e;
            logicalBytes = cm_logical_bytes total + kind_size (ce_kind e); fileCount = cm_file_count total + 1
        in if SAFE_INTEGER < logicalBytes \<or> cm_logical_bytes reserved < logicalBytes \<or> cm_file_count reserved < fileCount
           then Inl (PlainError ''Checkpoint entry exceeds its declared totals.'')
           else Inr (st\<lparr>as_totals := (as_totals st)[ce_mount e := total\<lparr>cm_logical_bytes := logicalBytes, cm_file_count := fileCount\<rparr>],
                  as_previous := Some (ce_mount e, ce_path e), as_entries := as_entries st + 1,
                  as_manifest := as_manifest st @ hash_frame bytes, as_content := as_content st @ hash_frame bytes\<rparr>))"

definition state_payload :: "string \<Rightarrow> archive_state \<Rightarrow> archive_state" where
  "state_payload bytes st = st\<lparr>as_content := as_content st @ bytes\<rparr>"

definition beginPayload :: "nat \<Rightarrow> archive_state \<Rightarrow> archive_state" where
  "beginPayload n = state_payload (u64be n)"

definition state_summary :: "checkpoint_env \<Rightarrow> archive_state \<Rightarrow> js_error + checkpoint_summary" where
  "state_summary env st =
     (if canonicalJson (mounts_json (as_totals st)) \<noteq> canonicalJson (mounts_json (ch_mounts (as_header st)))
      then Inl (PlainError ''Checkpoint declared totals do not match content.'')
      else Inr \<lparr> cs_mounts = as_totals st, cs_manifest_digest = ''sha256:'' @ env_sha env (as_manifest st),
                 cs_content_digest = ''sha256:'' @ env_sha env (as_content st) \<rparr>)"

section \<open>The writer\<close>

definition limited_document :: "json \<Rightarrow> nat \<Rightarrow> js_error + string" where
  "limited_document v limit =
     (let bytes = canonicalJson v
      in if limit < length bytes then Inl (PlainError ''Checkpoint metadata document exceeds its size limit.'') else Inr bytes)"

definition padding_bytes :: "nat \<Rightarrow> string" where
  "padding_bytes n = replicate ((512 - n mod 512) mod 512) (CHR 0x00)"

definition tar_end :: string where
  "tar_end = replicate 1024 (CHR 0x00)"

text \<open>The output: the bytes that were enqueued, never more than the reservation.\<close>

definition enqueue :: "nat \<Rightarrow> string \<Rightarrow> string \<Rightarrow> js_error + string" where
  "enqueue maxBytes chunk out =
     (if maxBytes < length out + length chunk then Inl (PlainError ''Checkpoint archive exceeds its physical reservation.'')
      else Inr (out @ chunk))"

definition write_member :: "nat \<Rightarrow> string \<Rightarrow> string \<Rightarrow> string \<Rightarrow> js_error + string" where
  "write_member maxBytes name bytes out =
     bindE (checkpointTarHeader name (length bytes)) (\<lambda>h.
     bindE (enqueue maxBytes h out) (\<lambda>o1.
     bindE (enqueue maxBytes bytes o1) (\<lambda>o2.
       enqueue maxBytes (padding_bytes (length bytes)) o2)))"

definition payload_name :: "nat \<Rightarrow> nat \<Rightarrow> js_error + string" where
  "payload_name i k = bindE (checkpointIndex i) (\<lambda>a. bindE (checkpointIndex k) (\<lambda>b. Inr (''payload/'' @ a @ ''/'' @ b)))"

function write_body :: "nat \<Rightarrow> nat \<Rightarrow> archive_input \<times> string \<times> string \<Rightarrow> js_error + (archive_input \<times> string \<times> string)" where
  "write_body maxBytes body (i, data, out) =
     (if body = 0 then Inr (i, data, out)
      else bindE (input_read (min body CHECKPOINT_IO_BYTES) i) (\<lambda>(bytes, i').
           bindE (enqueue maxBytes bytes out) (\<lambda>out'.
             write_body maxBytes (body - min body CHECKPOINT_IO_BYTES) (i', data @ bytes, out'))))"
  by pat_completeness auto
termination by (relation "measure (\<lambda>(m, body, x). body)") (auto simp: CHECKPOINT_IO_BYTES_def)

function write_chunks ::
  "nat \<Rightarrow> nat \<Rightarrow> nat \<Rightarrow> nat \<Rightarrow> archive_input \<times> string \<times> string \<Rightarrow> js_error + (archive_input \<times> string \<times> string)" where
  "write_chunks maxBytes idx chunk remaining (i, data, out) =
     (if remaining = 0 then Inr (i, data, out)
      else let n = min remaining CHECKPOINT_PAYLOAD_BYTES in
           bindE (payload_name idx chunk) (\<lambda>name.
           bindE (checkpointTarHeader name n) (\<lambda>h.
           bindE (enqueue maxBytes h out) (\<lambda>o1.
           bindE (write_body maxBytes n (i, data, o1)) (\<lambda>(i', data', o2).
           bindE (enqueue maxBytes (padding_bytes n) o2) (\<lambda>o3.
             write_chunks maxBytes idx (chunk + 1) (remaining - n) (i', data', o3)))))))"
  by pat_completeness auto
termination by (relation "measure (\<lambda>(m, idx, chunk, remaining, x). remaining)") (auto simp: CHECKPOINT_PAYLOAD_BYTES_def)

declare write_body.simps [simp del] write_chunks.simps [simp del]

text \<open>The data that went through the hash of a file also went into the content hash of the archive.\<close>

definition write_payload ::
  "checkpoint_env \<Rightarrow> nat \<Rightarrow> checkpoint_entry \<Rightarrow> string list option \<Rightarrow> archive_state \<times> string \<Rightarrow> js_error + (archive_state \<times> string)" where
  "write_payload env maxBytes e payload = (\<lambda>(st, out).
     case ce_kind e of
       File n g \<Rightarrow>
         (case payload of
            None \<Rightarrow> Inl (PlainError ''Missing checkpoint file payload.'')
          | Some chunks \<Rightarrow>
              bindE (checkpointInput chunks n) (\<lambda>i.
              bindE (write_chunks maxBytes (as_entries st - 1) 0 n (i, [], out)) (\<lambda>(i', data, out').
              bindE (input_end i') (\<lambda>_.
                if ''sha256:'' @ env_sha env data \<noteq> g then Inl (PlainError ''Checkpoint file content digest does not match.'')
                else Inr (state_payload data (beginPayload n st), out')))))
     | _ \<Rightarrow> if payload \<noteq> None then Inl (PlainError ''Only checkpoint files may have a payload.'') else Inr (st, out))"

definition entry_name :: "nat \<Rightarrow> js_error + string" where
  "entry_name i = bindE (checkpointIndex i) (\<lambda>a. Inr (''entries/'' @ a @ ''.json''))"

definition write_record ::
  "checkpoint_env \<Rightarrow> nat \<Rightarrow> checkpoint_entry \<times> string list option \<Rightarrow> archive_state \<times> string \<Rightarrow> js_error + (archive_state \<times> string)" where
  "write_record env maxBytes r = (\<lambda>(st, out).
     let e = fst r in
     bindE (guardE (\<not> valid_entry env e) (PlainError ''ZodError'')) (\<lambda>_.
     bindE (limited_document (entry_json e) CHECKPOINT_ENTRY_BYTES) (\<lambda>bytes.
     bindE (state_record st e bytes) (\<lambda>st1.
     bindE (entry_name (as_entries st1 - 1)) (\<lambda>name.
     bindE (write_member maxBytes name bytes out) (\<lambda>out1.
       write_payload env maxBytes e (snd r) (st1, out1)))))))"

fun write_records ::
  "checkpoint_env \<Rightarrow> nat \<Rightarrow> (checkpoint_entry \<times> string list option) list \<Rightarrow> archive_state \<times> string \<Rightarrow>
   js_error + (archive_state \<times> string)" where
  "write_records env maxBytes [] s = Inr s"
| "write_records env maxBytes (r # rs) s = bindE (write_record env maxBytes r s) (write_records env maxBytes rs)"

definition writeCheckpointArchive ::
  "checkpoint_env \<Rightarrow> checkpoint_header \<Rightarrow> (checkpoint_entry \<times> string list option) list \<Rightarrow> nat \<Rightarrow> js_error + string" where
  "writeCheckpointArchive env h records maxBytes =
     bindE (guardE (SAFE_INTEGER < maxBytes) (PlainError ''Invalid checkpoint archive reservation.'')) (\<lambda>_.
     bindE (guardE (\<not> valid_header env h) (PlainError ''ZodError'')) (\<lambda>_.
     bindE (limited_document (header_json h) CHECKPOINT_DOCUMENT_BYTES) (\<lambda>bytes.
     bindE (write_member maxBytes ''checkpoint.json'' bytes []) (\<lambda>out.
     bindE (write_records env maxBytes records (checkpointArchiveState h bytes, out)) (\<lambda>(st, out1).
     bindE (state_summary env st) (\<lambda>s.
     bindE (limited_document (summary_json s) CHECKPOINT_DOCUMENT_BYTES) (\<lambda>summary.
     bindE (write_member maxBytes ''summary.json'' summary out1) (\<lambda>out2.
       enqueue maxBytes tar_end out2))))))))"

section \<open>The reader\<close>

definition read_padding :: "nat \<Rightarrow> archive_input \<Rightarrow> js_error + archive_input" where
  "read_padding n i =
     bindE (input_read ((512 - n mod 512) mod 512) i) (\<lambda>(bytes, i').
       if list_ex (\<lambda>b. b \<noteq> CHR 0x00) bytes then Inl (PlainError ''Invalid checkpoint tar padding.'') else Inr i')"

definition read_document :: "nat \<Rightarrow> nat \<Rightarrow> archive_input \<Rightarrow> js_error + (string \<times> archive_input)" where
  "read_document n limit i =
     (if limit < n then Inl (PlainError ''Checkpoint metadata document exceeds its size limit.'')
      else bindE (input_read n i) (\<lambda>(bytes, i'). bindE (read_padding n i') (\<lambda>i''. Inr (bytes, i''))))"

definition read_tar :: "archive_input \<Rightarrow> js_error + ((string \<times> nat) \<times> archive_input)" where
  "read_tar i = bindE (input_read 512 i) (\<lambda>(bytes, i'). bindE (parseCheckpointTarHeader bytes) (\<lambda>h. Inr (h, i')))"

definition read_member :: "string \<Rightarrow> nat option \<Rightarrow> archive_input \<Rightarrow> js_error + (nat \<times> archive_input)" where
  "read_member name sz i =
     bindE (read_tar i) (\<lambda>((parsed, n), i').
       if parsed \<noteq> name \<or> (sz \<noteq> None \<and> sz \<noteq> Some n)
       then Inl (PlainError ''Unexpected checkpoint tar member or size.'') else Inr (n, i'))"

function read_body :: "nat \<Rightarrow> archive_input \<times> string \<Rightarrow> js_error + (archive_input \<times> string)" where
  "read_body body (i, data) =
     (if body = 0 then Inr (i, data)
      else bindE (input_read (min body CHECKPOINT_IO_BYTES) i) (\<lambda>(bytes, i').
             read_body (body - min body CHECKPOINT_IO_BYTES) (i', data @ bytes)))"
  by pat_completeness auto
termination by (relation "measure fst") (auto simp: CHECKPOINT_IO_BYTES_def)

function read_chunks :: "nat \<Rightarrow> nat \<Rightarrow> nat \<Rightarrow> archive_input \<times> string \<Rightarrow> js_error + (archive_input \<times> string)" where
  "read_chunks idx chunk remaining (i, data) =
     (if remaining = 0 then Inr (i, data)
      else let n = min remaining CHECKPOINT_PAYLOAD_BYTES in
           bindE (payload_name idx chunk) (\<lambda>name.
           bindE (read_member name (Some n) i) (\<lambda>(_, i1).
           bindE (read_body n (i1, data)) (\<lambda>(i2, data').
           bindE (read_padding n i2) (\<lambda>i3.
             read_chunks idx (chunk + 1) (remaining - n) (i3, data'))))))"
  by pat_completeness auto
termination by (relation "measure (\<lambda>(idx, chunk, remaining, x). remaining)") (auto simp: CHECKPOINT_PAYLOAD_BYTES_def)

declare read_body.simps [simp del] read_chunks.simps [simp del]

definition read_payload ::
  "checkpoint_env \<Rightarrow> checkpoint_entry \<Rightarrow> archive_input \<times> archive_state \<Rightarrow> js_error + (archive_input \<times> archive_state \<times> string)" where
  "read_payload env e = (\<lambda>(i, st).
     case ce_kind e of
       File n g \<Rightarrow>
         bindE (read_chunks (as_entries st - 1) 0 n (i, [])) (\<lambda>(i', data).
           if ''sha256:'' @ env_sha env data \<noteq> g then Inl (PlainError ''Checkpoint file content digest does not match.'')
           else Inr (i', state_payload data (beginPayload n st), data))
     | _ \<Rightarrow> Inr (i, st, []))"

text \<open>One turn of the loop of \<open>parseArchive\<close> after the tar header of an entry was read.\<close>

definition read_entry ::
  "checkpoint_env \<Rightarrow> string \<times> nat \<Rightarrow> archive_input \<times> archive_state \<Rightarrow>
   js_error + (archive_input \<times> archive_state \<times> (checkpoint_entry \<times> string))" where
  "read_entry env nxt = (\<lambda>(i, st).
     bindE (entry_name (as_entries st)) (\<lambda>name.
       if fst nxt \<noteq> name then Inl (PlainError ''Unexpected checkpoint entry order.'')
       else
         bindE (read_document (snd nxt) CHECKPOINT_ENTRY_BYTES i) (\<lambda>(bytes, i1).
         bindE (checkpointDocument entry_of_json (valid_entry env) entry_json ''entry'' bytes) (\<lambda>e.
         bindE (state_record st e bytes) (\<lambda>st1.
         bindE (read_payload env e (i1, st1)) (\<lambda>(i2, st2, data). Inr (i2, st2, (e, data))))))))"

definition read_summary ::
  "checkpoint_env \<Rightarrow> nat \<Rightarrow> archive_input \<times> archive_state \<Rightarrow> js_error + (archive_input \<times> checkpoint_summary)" where
  "read_summary env n = (\<lambda>(i, st).
     bindE (read_document n CHECKPOINT_DOCUMENT_BYTES i) (\<lambda>(bytes, i1).
     bindE (checkpointDocument summary_of_json valid_summary summary_json ''summary'' bytes) (\<lambda>summary.
     bindE (state_summary env st) (\<lambda>observed.
       if canonicalJson (summary_json summary) \<noteq> canonicalJson (summary_json observed)
       then Inl (PlainError ''Checkpoint summary does not match observed content.'')
       else
         bindE (input_read 1024 i1) (\<lambda>(zeros, i2).
           if list_ex (\<lambda>b. b \<noteq> CHR 0x00) zeros then Inl (PlainError ''Invalid checkpoint tar end.'')
           else bindE (input_end i2) (\<lambda>_. Inr (i2, summary)))))))"

definition unread :: "archive_input \<Rightarrow> nat" where
  "unread i = length (concat (ai_chunks i))"

lemma bindE_cong [fundef_cong]: "r = r' \<Longrightarrow> (\<And>a. r' = Inr a \<Longrightarrow> k a = k' a) \<Longrightarrow> bindE r k = bindE r' k'"
  by (cases r') auto

lemma input_read_unread: "input_read n i = Inr (s, i') \<Longrightarrow> unread i = n + unread i'"
  using pull_Some [of n "ai_chunks i"] by (auto simp: input_read_def unread_def split: if_splits option.splits)

lemma read_padding_unread: "read_padding n i = Inr i' \<Longrightarrow> unread i' \<le> unread i"
  by (auto simp: read_padding_def dest!: input_read_unread split: if_splits)

lemma read_document_unread: "read_document n limit i = Inr (s, i') \<Longrightarrow> unread i' \<le> unread i"
  by (force simp: read_document_def dest!: input_read_unread read_padding_unread split: if_splits)

lemma read_tar_unread: "read_tar i = Inr (h, i') \<Longrightarrow> unread i' < unread i"
  by (auto simp: read_tar_def dest!: input_read_unread)

lemma read_member_unread: "read_member name sz i = Inr (n, i') \<Longrightarrow> unread i' < unread i"
  by (auto simp: read_member_def dest!: read_tar_unread split: if_splits)

lemma read_body_unread: "read_body n (i, d) = Inr (i', d') \<Longrightarrow> unread i' \<le> unread i"
proof (induction n "(i, d)" arbitrary: i d rule: read_body.induct)
  case (1 body i d)
  show ?case
  proof (cases "body = 0")
    case True
    then show ?thesis using "1.prems" by (simp add: read_body.simps)
  next
    case False
    then obtain s i1 where r: "input_read (min body CHECKPOINT_IO_BYTES) i = Inr (s, i1)"
      and b: "read_body (body - min body CHECKPOINT_IO_BYTES) (i1, d @ s) = Inr (i', d')"
      using "1.prems" by (subst (asm) read_body.simps) auto
    show ?thesis using "1.hyps" [OF False b] input_read_unread [OF r] by simp
  qed
qed

lemma read_chunks_unread: "read_chunks idx k n (i, d) = Inr (i', d') \<Longrightarrow> unread i' \<le> unread i"
proof (induction n arbitrary: k i d rule: less_induct)
  case (less n)
  show ?case
  proof (cases "n = 0")
    case True
    then show ?thesis using less.prems by (simp add: read_chunks.simps)
  next
    case False
    let ?m = "min n CHECKPOINT_PAYLOAD_BYTES"
    obtain name m i1 i2 d2 i3 where r: "read_member name (Some ?m) i = Inr (m, i1)" "read_body ?m (i1, d) = Inr (i2, d2)"
      "read_padding ?m i2 = Inr i3" and rest: "read_chunks idx (k + 1) (n - ?m) (i3, d2) = Inr (i', d')"
      using less.prems False by (subst (asm) read_chunks.simps) (auto simp: Let_def)
    have "unread i' \<le> unread i3" using less.IH [OF _ rest] False by (simp add: CHECKPOINT_PAYLOAD_BYTES_def)
    then show ?thesis
      using read_member_unread [OF r(1)] read_body_unread [OF r(2)] read_padding_unread [OF r(3)] by linarith
  qed
qed

lemma read_payload_unread: "read_payload env e (i, st) = Inr (i', r) \<Longrightarrow> unread i' \<le> unread i"
  by (cases "ce_kind e") (auto simp: read_payload_def dest!: read_chunks_unread split: if_splits)

lemma read_entry_unread: "read_entry env nxt (i, st) = Inr (i', r) \<Longrightarrow> unread i' \<le> unread i"
  by (force simp: read_entry_def dest!: read_document_unread read_payload_unread split: if_splits)

function read_entries ::
  "checkpoint_env \<Rightarrow> archive_input \<times> archive_state \<Rightarrow> js_error + (archive_input \<times> (checkpoint_entry \<times> string) list \<times> checkpoint_summary)" where
  "read_entries env (i, st) =
     bindE (read_tar i) (\<lambda>(nxt, i1).
       if fst nxt = ''summary.json''
       then bindE (read_summary env (snd nxt) (i1, st)) (\<lambda>(i2, summary). Inr (i2, [], summary))
       else
         bindE (read_entry env nxt (i1, st)) (\<lambda>(i2, st2, r).
         bindE (read_entries env (i2, st2)) (\<lambda>(i3, rs, summary). Inr (i3, r # rs, summary))))"
  by pat_completeness auto
termination
  by (relation "measure (\<lambda>(env, i, st). unread i)") (auto dest!: read_tar_unread read_entry_unread)

declare read_entries.simps [simp del]

record archive_reading =
  ar_header :: checkpoint_header
  ar_entries :: "(checkpoint_entry \<times> string) list"
  ar_summary :: checkpoint_summary
  ar_bytes :: nat
  ar_digest :: string

definition parseArchive :: "checkpoint_env \<Rightarrow> archive_input \<Rightarrow> js_error + archive_reading" where
  "parseArchive env i =
     bindE (read_member ''checkpoint.json'' None i) (\<lambda>(n, i1).
     bindE (read_document n CHECKPOINT_DOCUMENT_BYTES i1) (\<lambda>(bytes, i2).
     bindE (checkpointDocument header_of_json (valid_header env) header_json ''header'' bytes) (\<lambda>h.
     bindE (read_entries env (i2, checkpointArchiveState h bytes)) (\<lambda>(i3, rs, summary).
       Inr \<lparr> ar_header = h, ar_entries = rs, ar_summary = summary, ar_bytes = ai_bytes i3,
             ar_digest = ''sha256:'' @ env_sha env (ai_hash i3) \<rparr>))))"

definition readCheckpointArchive :: "checkpoint_env \<Rightarrow> string list \<Rightarrow> nat \<Rightarrow> js_error + archive_reading" where
  "readCheckpointArchive env chunks maxBytes = bindE (checkpointInput chunks maxBytes) (parseArchive env)"

section \<open>Measuring\<close>

definition checkpointMemberBytes :: "nat \<Rightarrow> js_error + nat" where
  "checkpointMemberBytes n =
     (if SAFE_INTEGER < n then Inl (PlainError ''Invalid checkpoint member size.'')
      else let bytes = 512 + (n + 511) div 512 * 512
           in if SAFE_INTEGER < bytes then Inl (PlainError ''Checkpoint member size exceeds safe integers.'') else Inr bytes)"

definition measure_add :: "nat \<Rightarrow> nat \<Rightarrow> js_error + nat" where
  "measure_add bytes tot =
     (if SAFE_INTEGER < tot + bytes then Inl (PlainError ''Checkpoint archive size exceeds safe integers.'') else Inr (tot + bytes))"

definition measure_member :: "nat \<Rightarrow> nat \<Rightarrow> js_error + nat" where
  "measure_member n tot = bindE (checkpointMemberBytes n) (\<lambda>b. measure_add b tot)"

definition measure_payload :: "entry_kind \<Rightarrow> nat \<Rightarrow> js_error + nat" where
  "measure_payload k tot =
     (case k of
        File n g \<Rightarrow>
          if n = 0 then Inr tot
          else
            bindE (checkpointMemberBytes CHECKPOINT_PAYLOAD_BYTES) (\<lambda>whole.
            bindE (measure_add (n div CHECKPOINT_PAYLOAD_BYTES * whole) tot) (\<lambda>t1.
              let remainder = n mod CHECKPOINT_PAYLOAD_BYTES
              in if remainder \<noteq> 0 then measure_member remainder t1 else Inr t1))
      | _ \<Rightarrow> Inr tot)"

fun measure_entries ::
  "checkpoint_env \<Rightarrow> checkpoint_entry list \<Rightarrow> archive_state \<times> nat \<Rightarrow> js_error + (archive_state \<times> nat)" where
  "measure_entries env [] s = Inr s"
| "measure_entries env (e # es) (st, tot) =
     bindE (guardE (\<not> valid_entry env e) (PlainError ''ZodError'')) (\<lambda>_.
     bindE (limited_document (entry_json e) CHECKPOINT_ENTRY_BYTES) (\<lambda>bytes.
     bindE (state_record st e bytes) (\<lambda>st1.
     bindE (measure_member (length bytes) tot) (\<lambda>t1.
     bindE (measure_payload (ce_kind e) t1) (\<lambda>t2.
       measure_entries env es (st1, t2))))))"

definition measureCheckpointArchive :: "checkpoint_env \<Rightarrow> checkpoint_header \<Rightarrow> checkpoint_entry list \<Rightarrow> js_error + nat" where
  "measureCheckpointArchive env h entries =
     bindE (guardE (\<not> valid_header env h) (PlainError ''ZodError'')) (\<lambda>_.
     bindE (limited_document (header_json h) CHECKPOINT_DOCUMENT_BYTES) (\<lambda>bytes.
     bindE (checkpointMemberBytes (length bytes)) (\<lambda>first.
     bindE (measure_entries env entries (checkpointArchiveState h bytes, first + 1024)) (\<lambda>(st, tot).
     bindE (state_summary env st) (\<lambda>s.
     bindE (limited_document (summary_json s) CHECKPOINT_DOCUMENT_BYTES) (\<lambda>summary.
       measure_member (length summary) tot))))))"

end
