(* ===== verification/Checkpoint_Wire.thy ===== *)
theory Checkpoint_Wire
  imports Checkpoint_Archive "HOL-Library.Sublist"
begin

text \<open>
  The wire format of a checkpoint archive as a grammar, and the lemmas that the writer produces exactly the texts of
  the grammar that fit the reservation, and the reader accepts exactly those, however the input is cut into chunks.
\<close>

section \<open>The grammar\<close>

definition tar_member :: "string \<Rightarrow> string \<Rightarrow> string \<Rightarrow> bool" where
  "tar_member name bytes t \<longleftrightarrow>
     (\<exists>h. checkpointTarHeader name (length bytes) = Inr h \<and> t = h @ bytes @ padding_bytes (length bytes))"

inductive payload_text :: "nat \<Rightarrow> nat \<Rightarrow> string \<Rightarrow> string \<Rightarrow> bool" for idx :: nat where
  payload_end: "payload_text idx k [] []"
| payload_chunk: "data \<noteq> [] \<Longrightarrow> payload_name idx k = Inr name \<Longrightarrow>
    tar_member name (take CHECKPOINT_PAYLOAD_BYTES data) m \<Longrightarrow>
    payload_text idx (k + 1) (drop CHECKPOINT_PAYLOAD_BYTES data) t \<Longrightarrow> payload_text idx k data (m @ t)"

inductive_cases payload_textE: "payload_text idx k data t"

text \<open>The data of an entry: the content of a file, with the state the content hash is fed.\<close>

definition body_text :: "checkpoint_env \<Rightarrow> checkpoint_entry \<Rightarrow> string \<Rightarrow> archive_state \<Rightarrow> archive_state \<Rightarrow> string \<Rightarrow> bool" where
  "body_text env e data st st' t =
     (case ce_kind e of
        File n g \<Rightarrow> length data = n \<and> ''sha256:'' @ env_sha env data = g \<and> payload_text (as_entries st - 1) 0 data t
          \<and> st' = state_payload data (beginPayload n st)
      | _ \<Rightarrow> data = [] \<and> t = [] \<and> st' = st)"

definition record_text :: "checkpoint_env \<Rightarrow> checkpoint_entry \<times> string \<Rightarrow> archive_state \<Rightarrow> archive_state \<Rightarrow> string \<Rightarrow> bool" where
  "record_text env r st st' t \<longleftrightarrow>
     (\<exists>st1 name m b. valid_entry env (fst r) \<and> length (canonicalJson (entry_json (fst r))) \<le> CHECKPOINT_ENTRY_BYTES
        \<and> state_record st (fst r) (canonicalJson (entry_json (fst r))) = Inr st1 \<and> entry_name (as_entries st) = Inr name
        \<and> tar_member name (canonicalJson (entry_json (fst r))) m \<and> body_text env (fst r) (snd r) st1 st' b \<and> t = m @ b)"

inductive records_text ::
  "checkpoint_env \<Rightarrow> archive_state \<Rightarrow> (checkpoint_entry \<times> string) list \<Rightarrow> archive_state \<Rightarrow> string \<Rightarrow> bool" for env :: checkpoint_env where
  records_end: "records_text env st [] st []"
| records_next: "record_text env r st st1 a \<Longrightarrow> records_text env st1 rs st' b \<Longrightarrow> records_text env st (r # rs) st' (a @ b)"

inductive_cases records_nilE: "records_text env st [] st' t"
inductive_cases records_consE: "records_text env st (r # rs) st' t"

definition archive_tail :: "checkpoint_env \<Rightarrow> archive_state \<Rightarrow> checkpoint_summary \<Rightarrow> string \<Rightarrow> bool" where
  "archive_tail env st s t \<longleftrightarrow>
     (\<exists>m. state_summary env st = Inr s \<and> length (canonicalJson (summary_json s)) \<le> CHECKPOINT_DOCUMENT_BYTES
        \<and> tar_member ''summary.json'' (canonicalJson (summary_json s)) m \<and> t = m @ tar_end)"

definition archive_text ::
  "checkpoint_env \<Rightarrow> checkpoint_header \<Rightarrow> (checkpoint_entry \<times> string) list \<Rightarrow> checkpoint_summary \<Rightarrow> string \<Rightarrow> bool" where
  "archive_text env h rs s t \<longleftrightarrow>
     (\<exists>m st b c. valid_header env h \<and> length (canonicalJson (header_json h)) \<le> CHECKPOINT_DOCUMENT_BYTES
        \<and> tar_member ''checkpoint.json'' (canonicalJson (header_json h)) m
        \<and> records_text env (checkpointArchiveState h (canonicalJson (header_json h))) rs st b
        \<and> archive_tail env st s c \<and> t = m @ b @ c)"

section \<open>Consuming and producing text\<close>

lemma length_tar_end [simp]: "length tar_end = 1024"
  by (simp only: tar_end_def length_replicate)

definition advance :: "string \<Rightarrow> archive_input \<Rightarrow> archive_input \<Rightarrow> bool" where
  "advance t i i' \<longleftrightarrow> concat (ai_chunks i) = t @ concat (ai_chunks i') \<and> ai_bytes i' = ai_bytes i + length t
     \<and> ai_hash i' = ai_hash i @ t \<and> ai_max i' = ai_max i \<and> (t \<noteq> [] \<longrightarrow> ai_bytes i' \<le> ai_max i)"

definition ready :: "string \<Rightarrow> archive_input \<Rightarrow> bool" where
  "ready t i \<longleftrightarrow> prefix t (concat (ai_chunks i)) \<and> ai_bytes i + length t \<le> ai_max i"

lemma advance_refl [simp]: "advance [] i i"
  by (simp add: advance_def)

lemma advance_trans: "advance t i i1 \<Longrightarrow> advance u i1 i2 \<Longrightarrow> advance (t @ u) i i2"
  by (auto simp: advance_def)

lemma ready_prefix: "ready (t @ u) i \<Longrightarrow> ready t i"
  by (auto simp: ready_def prefix_def)

lemma ready_advance: "ready (t @ u) i \<Longrightarrow> advance t i i' \<Longrightarrow> ready u i'"
  by (auto simp: ready_def advance_def prefix_def)

lemma input_read_sound:
  assumes "input_read n i = Inr (s, i')"
  shows "advance s i i' \<and> length s = n \<and> n \<le> CHECKPOINT_IO_BYTES"
  using assms pull_Some [of n "ai_chunks i"]
  by (auto simp: input_read_def advance_def split: if_splits option.splits)

lemma input_read_complete:
  assumes "ready s i" and "length s \<le> CHECKPOINT_IO_BYTES"
  shows "\<exists>i'. input_read (length s) i = Inr (s, i') \<and> advance s i i'"
proof -
  obtain r where r: "concat (ai_chunks i) = s @ r" and le: "ai_bytes i + length s \<le> ai_max i"
    using assms(1) by (auto simp: ready_def prefix_def)
  obtain u v where p: "pull (length s) (ai_chunks i) = Some (u, v)"
    using pull_enough [of "length s" "ai_chunks i"] r by auto
  then have "u = s" using pull_Some [OF p] r by (metis append_eq_append_conv)
  then have "\<exists>i'. input_read (length s) i = Inr (s, i')" using assms(2) le p by (simp add: input_read_def)
  then show ?thesis using input_read_sound by blast
qed

lemma enqueue_Inr_iff [simp]: "enqueue n t out = Inr out' \<longleftrightarrow> out' = out @ t \<and> length out + length t \<le> n"
  by (auto simp: enqueue_def)

lemma limited_Inr_iff [simp]: "limited_document v n = Inr t \<longleftrightarrow> t = canonicalJson v \<and> length t \<le> n"
  by (auto simp: limited_document_def Let_def)

lemma padding_length: "length (padding_bytes n) = (512 - n mod 512) mod 512"
  by (simp add: padding_bytes_def)

lemma tar_member_iff: "tar_member name bytes t \<longleftrightarrow>
   (\<exists>h. checkpointTarHeader name (length bytes) = Inr h \<and> length h = 512 \<and> t = h @ bytes @ padding_bytes (length bytes))"
  unfolding tar_member_def using tar_header_Inr(4) by blast

section \<open>The writer writes the grammar\<close>

lemma write_member_iff:
  "write_member n name bytes out = Inr out' \<longleftrightarrow>
     (\<exists>t. tar_member name bytes t \<and> out' = out @ t \<and> length out + length t \<le> n)"
  by (auto simp: write_member_def tar_member_def)

lemma write_body_sound:
  "write_body mx n (i, d, out) = Inr (i', d', out') \<Longrightarrow>
   \<exists>t. advance t i i' \<and> length t = n \<and> d' = d @ t \<and> out' = out @ t \<and> (out' = out \<or> length out' \<le> mx)"
proof (induction n arbitrary: i d out rule: less_induct)
  case (less n)
  show ?case
  proof (cases "n = 0")
    case True
    then show ?thesis using less.prems by (simp add: write_body.simps)
  next
    case False
    let ?m = "min n CHECKPOINT_IO_BYTES"
    obtain s i1 where r: "input_read ?m i = Inr (s, i1)" and le: "length out + length s \<le> mx"
      and rest: "write_body mx (n - ?m) (i1, d @ s, out @ s) = Inr (i', d', out')"
      using less.prems False by (subst (asm) write_body.simps) auto
    have "n - ?m < n" using False by (simp add: CHECKPOINT_IO_BYTES_def)
    then obtain t where t: "advance t i1 i'" "length t = n - ?m" "d' = (d @ s) @ t" "out' = (out @ s) @ t"
      "out' = out @ s \<or> length out' \<le> mx"
      using less.IH [OF _ rest] by blast
    have "advance (s @ t) i i'" "length (s @ t) = n"
      using advance_trans [OF _ t(1)] input_read_sound [OF r] t(2) by auto
    then show ?thesis using t le by (intro exI [of _ "s @ t"]) auto
  qed
qed

lemma write_body_complete:
  "ready t i \<Longrightarrow> length t = n \<Longrightarrow> length out + n \<le> mx \<Longrightarrow>
   \<exists>i'. write_body mx n (i, d, out) = Inr (i', d @ t, out @ t) \<and> advance t i i'"
proof (induction n arbitrary: i d out t rule: less_induct)
  case (less n)
  show ?case
  proof (cases "n = 0")
    case True
    then show ?thesis using less.prems by (simp add: write_body.simps)
  next
    case False
    let ?m = "min n CHECKPOINT_IO_BYTES"
    let ?s = "take ?m t" and ?u = "drop ?m t"
    have len: "length ?s = ?m" "length ?u = n - ?m" using less.prems(2) by simp_all
    have rd: "ready (?s @ ?u) i" using less.prems(1) by simp
    obtain i1 where r: "input_read ?m i = Inr (?s, i1)" and a: "advance ?s i i1"
      using input_read_complete [OF ready_prefix [OF rd]] len(1) by auto
    have "n - ?m < n" using False by (simp add: CHECKPOINT_IO_BYTES_def)
    moreover have "length (out @ ?s) + (n - ?m) \<le> mx" using less.prems(3) len(1) by simp
    ultimately obtain i' where w: "write_body mx (n - ?m) (i1, d @ ?s, out @ ?s) = Inr (i', (d @ ?s) @ ?u, (out @ ?s) @ ?u)"
      and b: "advance ?u i1 i'"
      using less.IH [OF _ ready_advance [OF rd a] len(2)] by blast
    have "write_body mx n (i, d, out) = Inr (i', d @ t, out @ t)"
      using False r w less.prems(2,3) len(1) by (subst write_body.simps) (simp add: enqueue_def)
    then show ?thesis using advance_trans [OF a b] by auto
  qed
qed

lemma write_chunks_sound:
  "write_chunks mx idx k n (i, d, out) = Inr (i', d', out') \<Longrightarrow>
   \<exists>u t. advance u i i' \<and> length u = n \<and> payload_text idx k u t \<and> d' = d @ u \<and> out' = out @ t \<and> (out' = out \<or> length out' \<le> mx)"
proof (induction n arbitrary: k i d out rule: less_induct)
  case (less n)
  show ?case
  proof (cases "n = 0")
    case True
    then show ?thesis using less.prems by (auto simp: write_chunks.simps intro: payload_text.intros)
  next
    case False
    let ?m = "min n CHECKPOINT_PAYLOAD_BYTES"
    obtain name h i1 d1 o1 where nm: "payload_name idx k = Inr name" and h: "checkpointTarHeader name ?m = Inr h"
      and b: "write_body mx ?m (i, d, out @ h) = Inr (i1, d1, o1)" and le: "length o1 + length (padding_bytes ?m) \<le> mx"
      and rest: "write_chunks mx idx (k + 1) (n - ?m) (i1, d1, o1 @ padding_bytes ?m) = Inr (i', d', out')"
      using less.prems False by (subst (asm) write_chunks.simps) (auto simp: Let_def)
    obtain s where s: "advance s i i1" "length s = ?m" "d1 = d @ s" "o1 = (out @ h) @ s" using write_body_sound [OF b] by blast
    have "n - ?m < n" using False by (simp add: CHECKPOINT_PAYLOAD_BYTES_def)
    then obtain u t where t: "advance u i1 i'" "length u = n - ?m" "payload_text idx (k + 1) u t" "d' = d1 @ u"
      "out' = (o1 @ padding_bytes ?m) @ t" "out' = o1 @ padding_bytes ?m \<or> length out' \<le> mx"
      using less.IH [OF _ rest] by blast
    have cut: "take CHECKPOINT_PAYLOAD_BYTES (s @ u) = s" "drop CHECKPOINT_PAYLOAD_BYTES (s @ u) = u"
      using s(2) t(2) by (auto simp: min_def split: if_splits)
    have "tar_member name s (h @ s @ padding_bytes ?m)" using h s(2) by (simp add: tar_member_def)
    then have m: "tar_member name (take CHECKPOINT_PAYLOAD_BYTES (s @ u)) (h @ s @ padding_bytes ?m)" unfolding cut .
    have ne: "s @ u \<noteq> []" using s(2) False by (auto simp: CHECKPOINT_PAYLOAD_BYTES_def)
    have "payload_text idx k (s @ u) ((h @ s @ padding_bytes ?m) @ t)"
      by (rule payload_chunk [OF ne nm m]) (simp only: cut t(3))
    moreover have "advance (s @ u) i i'" using advance_trans [OF s(1) t(1)] .
    moreover have "length (s @ u) = n" using s(2) t(2) by simp
    moreover have "length out' \<le> mx" using t(5,6) le by auto
    ultimately show ?thesis using s t by (intro exI [of _ "s @ u"] exI [of _ "(h @ s @ padding_bytes ?m) @ t"]) simp
  qed
qed

lemma write_chunks_complete:
  "payload_text idx k u t \<Longrightarrow> ready u i \<Longrightarrow> length out + length t \<le> mx \<Longrightarrow>
   \<exists>i'. write_chunks mx idx k (length u) (i, d, out) = Inr (i', d @ u, out @ t) \<and> advance u i i'"
proof (induction k u t arbitrary: i d out rule: payload_text.induct)
  case (payload_end k)
  then show ?case by (simp add: write_chunks.simps)
next
  case (payload_chunk u k name m t)
  let ?s = "take CHECKPOINT_PAYLOAD_BYTES u" and ?v = "drop CHECKPOINT_PAYLOAD_BYTES u"
  let ?m = "min (length u) CHECKPOINT_PAYLOAD_BYTES"
  have len: "length ?s = ?m" by simp
  obtain h where h: "checkpointTarHeader name ?m = Inr h" and m: "m = h @ ?s @ padding_bytes ?m"
    using payload_chunk.hyps(3) unfolding tar_member_def len by blast
  have rd: "ready (?s @ ?v) i" using payload_chunk.prems(1) by simp
  have fit: "length (out @ h) + ?m \<le> mx" "length out + length m + length t \<le> mx"
    using payload_chunk.prems(2) unfolding m by (simp_all del: length_take add: len)
  obtain i1 where w: "write_body mx ?m (i, d, out @ h) = Inr (i1, d @ ?s, (out @ h) @ ?s)" and a: "advance ?s i i1"
    using write_body_complete [OF ready_prefix [OF rd] len fit(1)] by blast
  have "length (out @ m) + length t \<le> mx" using fit(2) by simp
  then obtain i' where c: "write_chunks mx idx (k + 1) (length ?v) (i1, d @ ?s, out @ m) = Inr (i', (d @ ?s) @ ?v, (out @ m) @ t)"
    and b: "advance ?v i1 i'"
    using payload_chunk.IH [OF ready_advance [OF rd a]] by blast
  have e: "length u - ?m = length ?v" by simp
  have "length out + length h \<le> mx" "length out + length h + ?m + length (padding_bytes ?m) \<le> mx"
    using fit unfolding m by (simp_all del: length_take add: len)
  then have "write_chunks mx idx k (length u) (i, d, out) = Inr (i', d @ u, out @ m @ t)"
    using payload_chunk.hyps(1,2) h w c unfolding write_chunks.simps [of mx idx k "length u"] Let_def e m
    by (simp add: enqueue_def)
  then show ?case using advance_trans [OF a b] by auto
qed

text \<open>The records that a writer is given for entries with their data, cut into chunks in any way.\<close>

definition payload_of :: "checkpoint_entry \<times> string \<Rightarrow> string list option \<Rightarrow> bool" where
  "payload_of r p = (case ce_kind (fst r) of File n g \<Rightarrow> (\<exists>cs. p = Some cs \<and> concat cs = snd r) | _ \<Rightarrow> p = None \<and> snd r = [])"

definition sources :: "(checkpoint_entry \<times> string) list \<Rightarrow> (checkpoint_entry \<times> string list option) list \<Rightarrow> bool" where
  "sources rs ps = list_all2 (\<lambda>r p. fst p = fst r \<and> payload_of r (snd p)) rs ps"

lemma write_payload_sound:
  assumes "write_payload env mx e p (st, out) = Inr (st', out')"
  shows "\<exists>data t. body_text env e data st st' t \<and> payload_of (e, data) p \<and> out' = out @ t \<and> (out' = out \<or> length out' \<le> mx)"
proof (cases "ce_kind e")
  case (File n g)
  then obtain cs where p: "p = Some cs" using assms by (cases p) (auto simp: write_payload_def)
  obtain i i' data where i: "checkpointInput cs n = Inr i" and w: "write_chunks mx (as_entries st - 1) 0 n (i, [], out) = Inr (i', data, out')"
    and fin: "concat (ai_chunks i') = []" and dg: "''sha256:'' @ env_sha env data = g"
    and st: "st' = state_payload data (beginPayload n st)"
    using assms File p by (auto simp: write_payload_def input_end_def split: if_splits)
  obtain t where t: "advance data i i'" "length data = n" "payload_text (as_entries st - 1) 0 data t" "out' = out @ t"
    "out' = out \<or> length out' \<le> mx"
    using write_chunks_sound [OF w] by auto
  have "concat cs = data" using t(1) fin i by (auto simp: advance_def checkpointInput_def split: if_splits)
  then show ?thesis using t dg st File p by (auto simp: body_text_def payload_of_def)
next
  case Directory
  then show ?thesis using assms by (auto simp: write_payload_def body_text_def payload_of_def split: if_splits)
next
  case Symlink
  then show ?thesis using assms by (auto simp: write_payload_def body_text_def payload_of_def split: if_splits)
qed

lemma write_payload_complete:
  assumes "body_text env e data st st' t" and "payload_of (e, data) p" and "length out + length t \<le> mx" and "valid_entry env e"
  shows "write_payload env mx e p (st, out) = Inr (st', out @ t)"
proof (cases "ce_kind e")
  case (File n g)
  then obtain cs where p: "p = Some cs" "concat cs = data" using assms(2) by (auto simp: payload_of_def)
  have b: "length data = n" "''sha256:'' @ env_sha env data = g" "payload_text (as_entries st - 1) 0 data t"
    "st' = state_payload data (beginPayload n st)"
    using assms(1) File by (simp_all add: body_text_def)
  have "n \<le> SAFE_INTEGER" using assms(4) File by (simp add: valid_entry_def)
  then obtain i where i: "checkpointInput cs n = Inr i" "ai_chunks i = cs" "ai_bytes i = 0" "ai_max i = n"
    by (simp add: checkpointInput_def)
  have "ready data i" using i b(1) p(2) by (simp add: ready_def)
  then obtain i' where w: "write_chunks mx (as_entries st - 1) 0 n (i, [], out) = Inr (i', data, out @ t)" and a: "advance data i i'"
    using write_chunks_complete [OF b(3) _ assms(3), of i "[]"] b(1) by auto
  have "concat (ai_chunks i') = []" using a i p(2) by (simp add: advance_def)
  then show ?thesis using File p i w b by (simp add: write_payload_def input_end_def guardE_def)
next
  case Directory
  then show ?thesis using assms by (simp add: write_payload_def body_text_def payload_of_def)
next
  case Symlink
  then show ?thesis using assms by (simp add: write_payload_def body_text_def payload_of_def)
qed

lemma state_record_entries: "state_record st e b = Inr st1 \<Longrightarrow> as_entries st1 = as_entries st + 1"
  by (auto simp: state_record_def Let_def split: if_splits)

lemma write_record_sound:
  assumes "write_record env mx p (st, out) = Inr (st', out')"
  shows "\<exists>data t. record_text env (fst p, data) st st' t \<and> payload_of (fst p, data) (snd p) \<and> out' = out @ t \<and> length out' \<le> mx"
proof -
  let ?e = "fst p" and ?b = "canonicalJson (entry_json (fst p))"
  obtain st1 name o1 where v: "valid_entry env ?e" "length ?b \<le> CHECKPOINT_ENTRY_BYTES" and st1: "state_record st ?e ?b = Inr st1"
    and nm: "entry_name (as_entries st1 - 1) = Inr name" and m: "write_member mx name ?b out = Inr o1"
    and w: "write_payload env mx ?e (snd p) (st1, o1) = Inr (st', out')"
    using assms by (auto simp: write_record_def Let_def)
  obtain t1 where t1: "tar_member name ?b t1" "o1 = out @ t1" "length out + length t1 \<le> mx"
    using m unfolding write_member_iff by blast
  obtain data t where t: "body_text env ?e data st1 st' t" "payload_of (?e, data) (snd p)" "out' = o1 @ t" "out' = o1 \<or> length out' \<le> mx"
    using write_payload_sound [OF w] by blast
  have "record_text env (?e, data) st st' (t1 @ t)"
    using v st1 nm t1(1) t(1) unfolding record_text_def state_record_entries [OF st1] by auto
  then show ?thesis using t(2-4) t1(2,3) by (intro exI [of _ data] exI [of _ "t1 @ t"]) auto
qed

lemma write_record_complete:
  assumes "record_text env r st st' t" and "payload_of r p" and "length out + length t \<le> mx"
  shows "write_record env mx (fst r, p) (st, out) = Inr (st', out @ t)"
proof -
  let ?e = "fst r" and ?b = "canonicalJson (entry_json (fst r))"
  obtain st1 name m b where v: "valid_entry env ?e" "length ?b \<le> CHECKPOINT_ENTRY_BYTES" and st1: "state_record st ?e ?b = Inr st1"
    and nm: "entry_name (as_entries st) = Inr name" and m: "tar_member name ?b m" and b: "body_text env ?e (snd r) st1 st' b"
    and t: "t = m @ b"
    using assms(1) unfolding record_text_def by blast
  have "write_member mx name ?b out = Inr (out @ m)" using m assms(3) t by (auto simp: write_member_iff)
  moreover have "write_payload env mx ?e p (st1, out @ m) = Inr (st', (out @ m) @ b)"
    using write_payload_complete [OF b _ _ v(1), of p "out @ m" mx] assms(2,3) t by simp
  ultimately show ?thesis using v st1 nm t state_record_entries [OF st1] by (simp add: write_record_def Let_def)
qed

lemma write_records_sound:
  "write_records env mx ps (st, out) = Inr (st', out') \<Longrightarrow>
   \<exists>rs t. records_text env st rs st' t \<and> sources rs ps \<and> out' = out @ t \<and> (out' = out \<or> length out' \<le> mx)"
proof (induction ps arbitrary: st out)
  case Nil
  then show ?case by (auto simp: sources_def intro: records_text.intros exI [of _ "[]"])
next
  case (Cons p ps)
  then obtain st1 o1 where w: "write_record env mx p (st, out) = Inr (st1, o1)" and rest: "write_records env mx ps (st1, o1) = Inr (st', out')"
    by auto
  obtain data t1 where t1: "record_text env (fst p, data) st st1 t1" "payload_of (fst p, data) (snd p)" "o1 = out @ t1" "length o1 \<le> mx"
    using write_record_sound [OF w] by blast
  obtain rs t where t: "records_text env st1 rs st' t" "sources rs ps" "out' = o1 @ t" "out' = o1 \<or> length out' \<le> mx"
    using Cons.IH [OF rest] by blast
  have "records_text env st ((fst p, data) # rs) st' (t1 @ t)" by (rule records_next [OF t1(1) t(1)])
  moreover have "sources ((fst p, data) # rs) (p # ps)" using t1(2) t(2) by (simp add: sources_def)
  ultimately show ?case using t t1 by (intro exI [of _ "(fst p, data) # rs"] exI [of _ "t1 @ t"]) auto
qed

lemma write_records_complete:
  "records_text env st rs st' t \<Longrightarrow> sources rs ps \<Longrightarrow> length out + length t \<le> mx \<Longrightarrow>
   write_records env mx ps (st, out) = Inr (st', out @ t)"
proof (induction arbitrary: ps out rule: records_text.induct)
  case (records_end st)
  then show ?case by (simp add: sources_def)
next
  case (records_next r st st1 a rs st' b)
  obtain p qs where ps: "ps = (fst r, p) # qs" "payload_of r p" "sources rs qs"
    using records_next.prems(1) by (cases ps) (auto simp: sources_def)
  have "write_record env mx (fst r, p) (st, out) = Inr (st1, out @ a)"
    by (rule write_record_complete [OF records_next.hyps(1) ps(2)]) (use records_next.prems(2) in simp)
  moreover have "write_records env mx qs (st1, out @ a) = Inr (st', (out @ a) @ b)"
    by (rule records_next.IH [OF ps(3)]) (use records_next.prems(2) in simp)
  ultimately show ?case by (simp add: ps(1))
qed

text \<open>The writer succeeds with a text if and only if the grammar gives that text to the header and the entries, with
  the data that the sources deliver, and it fits the reservation.\<close>

lemma write_archive_iff:
  "writeCheckpointArchive env h ps mx = Inr t \<longleftrightarrow>
     mx \<le> SAFE_INTEGER \<and> length t \<le> mx \<and> (\<exists>rs s. sources rs ps \<and> archive_text env h rs s t)"
proof
  let ?b = "canonicalJson (header_json h)"
  assume "writeCheckpointArchive env h ps mx = Inr t"
  then obtain out st o1 s o2 where v: "mx \<le> SAFE_INTEGER" "valid_header env h" "length ?b \<le> CHECKPOINT_DOCUMENT_BYTES"
    and m: "write_member mx ''checkpoint.json'' ?b [] = Inr out"
    and r: "write_records env mx ps (checkpointArchiveState h ?b, out) = Inr (st, o1)"
    and s: "state_summary env st = Inr s" "length (canonicalJson (summary_json s)) \<le> CHECKPOINT_DOCUMENT_BYTES"
    and e: "write_member mx ''summary.json'' (canonicalJson (summary_json s)) o1 = Inr o2"
    and t: "t = o2 @ tar_end" "length o2 + 1024 \<le> mx"
    by (auto simp: writeCheckpointArchive_def)
  obtain rs b where b: "records_text env (checkpointArchiveState h ?b) rs st b" "sources rs ps" "o1 = out @ b"
    using write_records_sound [OF r] by blast
  obtain x where x: "tar_member ''summary.json'' (canonicalJson (summary_json s)) x" "o2 = o1 @ x"
    using e unfolding write_member_iff by blast
  have "tar_member ''checkpoint.json'' ?b out" using m unfolding write_member_iff by simp
  moreover have "archive_tail env st s (x @ tar_end)" using s x(1) unfolding archive_tail_def by blast
  ultimately have "archive_text env h rs s t" using v b t(1) x(2) unfolding archive_text_def by auto
  then show "mx \<le> SAFE_INTEGER \<and> length t \<le> mx \<and> (\<exists>rs s. sources rs ps \<and> archive_text env h rs s t)"
    using v(1) t b(2) by auto
next
  let ?b = "canonicalJson (header_json h)"
  assume "mx \<le> SAFE_INTEGER \<and> length t \<le> mx \<and> (\<exists>rs s. sources rs ps \<and> archive_text env h rs s t)"
  then obtain rs s where mx: "mx \<le> SAFE_INTEGER" "length t \<le> mx" and src: "sources rs ps" and g: "archive_text env h rs s t" by blast
  obtain m st b c where v: "valid_header env h" "length ?b \<le> CHECKPOINT_DOCUMENT_BYTES" and m: "tar_member ''checkpoint.json'' ?b m"
    and b: "records_text env (checkpointArchiveState h ?b) rs st b" and c: "archive_tail env st s c" and t: "t = m @ b @ c"
    using g unfolding archive_text_def by blast
  obtain x where s: "state_summary env st = Inr s" "length (canonicalJson (summary_json s)) \<le> CHECKPOINT_DOCUMENT_BYTES"
    and x: "tar_member ''summary.json'' (canonicalJson (summary_json s)) x" "c = x @ tar_end"
    using c unfolding archive_tail_def by blast
  have "write_member mx ''checkpoint.json'' ?b [] = Inr m" using m mx(2) t by (auto simp: write_member_iff)
  moreover have "write_records env mx ps (checkpointArchiveState h ?b, m) = Inr (st, m @ b)"
    by (rule write_records_complete [OF b src]) (use mx(2) t in simp)
  moreover have "write_member mx ''summary.json'' (canonicalJson (summary_json s)) (m @ b) = Inr ((m @ b) @ x)"
    using x mx(2) t by (auto simp: write_member_iff)
  ultimately show "writeCheckpointArchive env h ps mx = Inr t"
    using v s x(2) mx t by (simp add: writeCheckpointArchive_def)
qed

section \<open>The reader reads the grammar\<close>

lemma zeros_iff: "\<not> list_ex (\<lambda>b. b \<noteq> z) s \<longleftrightarrow> s = replicate (length s) z"
  by (induction s) auto

lemma pad_le: "(512 - n mod 512) mod 512 \<le> (511 :: nat)"
  by (simp add: Suc_leI less_Suc_eq_le flip: less_Suc_eq_le)

lemma read_padding_sound: "read_padding n i = Inr i' \<Longrightarrow> advance (padding_bytes n) i i'"
proof -
  assume "read_padding n i = Inr i'"
  then obtain s where s: "input_read ((512 - n mod 512) mod 512) i = Inr (s, i')" "\<not> list_ex (\<lambda>b. b \<noteq> CHR 0x00) s"
    by (auto simp: read_padding_def split: if_splits)
  then have "s = padding_bytes n" using input_read_sound [OF s(1)] s(2) unfolding zeros_iff padding_bytes_def by simp
  then show ?thesis using input_read_sound [OF s(1)] by simp
qed

lemma read_padding_complete:
  assumes "ready (padding_bytes n) i"
  shows "\<exists>i'. read_padding n i = Inr i' \<and> advance (padding_bytes n) i i'"
proof -
  have "length (padding_bytes n) \<le> CHECKPOINT_IO_BYTES" using pad_le [of n] by (simp add: padding_length CHECKPOINT_IO_BYTES_def)
  then obtain i' where "input_read (length (padding_bytes n)) i = Inr (padding_bytes n, i')" "advance (padding_bytes n) i i'"
    using input_read_complete [OF assms] by blast
  moreover have "\<not> list_ex (\<lambda>b. b \<noteq> CHR 0x00) (padding_bytes n)" by (simp add: padding_bytes_def list_ex_iff)
  ultimately show ?thesis by (auto simp: read_padding_def padding_length)
qed

lemma read_tar_sound:
  "read_tar i = Inr ((name, n), i') \<Longrightarrow> \<exists>h. checkpointTarHeader name n = Inr h \<and> advance h i i'"
  using input_read_sound [of 512 i] by (auto simp: read_tar_def parse_tar_header_iff)

lemma read_tar_complete:
  assumes "checkpointTarHeader name n = Inr h" and "ready h i"
  shows "\<exists>i'. read_tar i = Inr ((name, n), i') \<and> advance h i i'"
proof -
  have "length h = 512" by (rule tar_header_Inr(4) [OF assms(1)])
  then show ?thesis
    using input_read_complete [OF assms(2)] parse_tar_header [OF assms(1)] by (auto simp: read_tar_def CHECKPOINT_IO_BYTES_def)
qed

lemma read_document_sound:
  assumes "read_document n limit i = Inr (b, i')"
  shows "n = length b \<and> n \<le> limit \<and> advance (b @ padding_bytes n) i i'"
proof -
  obtain i1 where "input_read n i = Inr (b, i1)" "read_padding n i1 = Inr i'" "n \<le> limit"
    using assms by (auto simp: read_document_def split: if_splits)
  then show ?thesis using input_read_sound [of n i b i1] read_padding_sound [of n i1 i'] advance_trans by blast
qed

lemma read_document_complete:
  assumes "ready (b @ padding_bytes (length b)) i" and "length b \<le> limit" and "limit \<le> CHECKPOINT_IO_BYTES"
  shows "\<exists>i'. read_document (length b) limit i = Inr (b, i') \<and> advance (b @ padding_bytes (length b)) i i'"
proof -
  have "length b \<le> CHECKPOINT_IO_BYTES" using assms(2,3) by linarith
  then obtain i1 where r: "input_read (length b) i = Inr (b, i1)" and a: "advance b i i1"
    using input_read_complete [OF ready_prefix [OF assms(1)]] by blast
  obtain i2 where "read_padding (length b) i1 = Inr i2" "advance (padding_bytes (length b)) i1 i2"
    using read_padding_complete [OF ready_advance [OF assms(1) a]] by blast
  then show ?thesis using r assms(2) advance_trans [OF a] by (auto simp: read_document_def)
qed

lemma read_body_sound:
  "read_body n (i, d) = Inr (i', d') \<Longrightarrow> \<exists>t. advance t i i' \<and> length t = n \<and> d' = d @ t"
proof (induction n arbitrary: i d rule: less_induct)
  case (less n)
  show ?case
  proof (cases "n = 0")
    case True
    then show ?thesis using less.prems by (simp add: read_body.simps)
  next
    case False
    let ?m = "min n CHECKPOINT_IO_BYTES"
    obtain s i1 where r: "input_read ?m i = Inr (s, i1)" and rest: "read_body (n - ?m) (i1, d @ s) = Inr (i', d')"
      using less.prems False by (subst (asm) read_body.simps) auto
    have "n - ?m < n" using False by (simp add: CHECKPOINT_IO_BYTES_def)
    then obtain t where t: "advance t i1 i'" "length t = n - ?m" "d' = (d @ s) @ t" using less.IH [OF _ rest] by blast
    have "advance (s @ t) i i'" "length (s @ t) = n" using advance_trans [OF _ t(1)] input_read_sound [OF r] t(2) by auto
    then show ?thesis using t by (intro exI [of _ "s @ t"]) auto
  qed
qed

lemma read_body_complete:
  "ready t i \<Longrightarrow> length t = n \<Longrightarrow> \<exists>i'. read_body n (i, d) = Inr (i', d @ t) \<and> advance t i i'"
proof (induction n arbitrary: i d t rule: less_induct)
  case (less n)
  show ?case
  proof (cases "n = 0")
    case True
    then show ?thesis using less.prems by (simp add: read_body.simps)
  next
    case False
    let ?m = "min n CHECKPOINT_IO_BYTES"
    let ?s = "take ?m t" and ?u = "drop ?m t"
    have len: "length ?s = ?m" "length ?u = n - ?m" using less.prems(2) by simp_all
    have rd: "ready (?s @ ?u) i" using less.prems(1) by simp
    obtain i1 where r: "input_read ?m i = Inr (?s, i1)" and a: "advance ?s i i1"
      using input_read_complete [OF ready_prefix [OF rd]] len(1) by auto
    have "n - ?m < n" using False by (simp add: CHECKPOINT_IO_BYTES_def)
    then obtain i' where w: "read_body (n - ?m) (i1, d @ ?s) = Inr (i', (d @ ?s) @ ?u)" and b: "advance ?u i1 i'"
      using less.IH [OF _ ready_advance [OF rd a] len(2)] by blast
    have "read_body n (i, d) = Inr (i', d @ t)" using False r w by (subst read_body.simps) simp
    then show ?thesis using advance_trans [OF a b] by auto
  qed
qed

lemma read_chunks_sound:
  "read_chunks idx k n (i, d) = Inr (i', d') \<Longrightarrow>
   \<exists>u t. advance t i i' \<and> length u = n \<and> payload_text idx k u t \<and> d' = d @ u"
proof (induction n arbitrary: k i d rule: less_induct)
  case (less n)
  show ?case
  proof (cases "n = 0")
    case True
    then show ?thesis using less.prems payload_end [of idx k] by (auto simp: read_chunks.simps intro!: exI [of _ "[]"])
  next
    case False
    let ?m = "min n CHECKPOINT_PAYLOAD_BYTES"
    obtain name i1 i2 d2 i3 where nm: "payload_name idx k = Inr name" and h: "read_tar i = Inr ((name, ?m), i1)"
      and b: "read_body ?m (i1, d) = Inr (i2, d2)" and pd: "read_padding ?m i2 = Inr i3"
      and rest: "read_chunks idx (k + 1) (n - ?m) (i3, d2) = Inr (i', d')"
      using less.prems False by (subst (asm) read_chunks.simps) (auto simp: Let_def read_member_def split: if_splits)
    obtain hd where hd: "checkpointTarHeader name ?m = Inr hd" "advance hd i i1" using read_tar_sound [OF h] by blast
    obtain s where s: "advance s i1 i2" "length s = ?m" "d2 = d @ s" using read_body_sound [OF b] by blast
    have "n - ?m < n" using False by (simp add: CHECKPOINT_PAYLOAD_BYTES_def)
    then obtain u t where t: "advance t i3 i'" "length u = n - ?m" "payload_text idx (k + 1) u t" "d' = d2 @ u"
      using less.IH [OF _ rest] by blast
    have cut: "take CHECKPOINT_PAYLOAD_BYTES (s @ u) = s" "drop CHECKPOINT_PAYLOAD_BYTES (s @ u) = u"
      using s(2) t(2) by (auto simp: min_def split: if_splits)
    have "tar_member name s (hd @ s @ padding_bytes ?m)" using hd(1) s(2) by (simp add: tar_member_def)
    then have m: "tar_member name (take CHECKPOINT_PAYLOAD_BYTES (s @ u)) (hd @ s @ padding_bytes ?m)" unfolding cut .
    have ne: "s @ u \<noteq> []" using s(2) False by (auto simp: CHECKPOINT_PAYLOAD_BYTES_def)
    have "payload_text idx k (s @ u) ((hd @ s @ padding_bytes ?m) @ t)"
      by (rule payload_chunk [OF ne nm m]) (simp only: cut t(3))
    moreover have "advance ((hd @ s @ padding_bytes ?m) @ t) i i'"
      using advance_trans [OF advance_trans [OF hd(2) advance_trans [OF s(1) read_padding_sound [OF pd]]] t(1)] .
    moreover have "length (s @ u) = n" using s(2) t(2) by simp
    ultimately show ?thesis using s(3) t(4) by (intro exI [of _ "s @ u"] exI [of _ "(hd @ s @ padding_bytes ?m) @ t"]) simp
  qed
qed

lemma read_chunks_complete:
  "payload_text idx k u t \<Longrightarrow> ready t i \<Longrightarrow>
   \<exists>i'. read_chunks idx k (length u) (i, d) = Inr (i', d @ u) \<and> advance t i i'"
proof (induction k u t arbitrary: i d rule: payload_text.induct)
  case (payload_end k)
  then show ?case by (simp add: read_chunks.simps)
next
  case (payload_chunk u k name m t)
  let ?s = "take CHECKPOINT_PAYLOAD_BYTES u" and ?v = "drop CHECKPOINT_PAYLOAD_BYTES u"
  let ?m = "min (length u) CHECKPOINT_PAYLOAD_BYTES"
  have len: "length ?s = ?m" by simp
  obtain h where h: "checkpointTarHeader name ?m = Inr h" and m: "m = h @ ?s @ padding_bytes ?m"
    using payload_chunk.hyps(3) unfolding tar_member_def len by blast
  have r0: "ready (h @ ?s @ padding_bytes ?m @ t) i" using payload_chunk.prems unfolding m by simp
  obtain i1 where a1: "read_tar i = Inr ((name, ?m), i1)" "advance h i i1"
    using read_tar_complete [OF h ready_prefix [OF r0]] by blast
  note r1 = ready_advance [OF r0 a1(2)]
  obtain i2 where a2: "read_body ?m (i1, d) = Inr (i2, d @ ?s)" "advance ?s i1 i2"
    using read_body_complete [OF ready_prefix [OF r1] len] by blast
  note r2 = ready_advance [OF r1 a2(2)]
  obtain i3 where a3: "read_padding ?m i2 = Inr i3" "advance (padding_bytes ?m) i2 i3"
    using read_padding_complete [OF ready_prefix [OF r2]] by blast
  obtain i' where a4: "read_chunks idx (k + 1) (length ?v) (i3, d @ ?s) = Inr (i', (d @ ?s) @ ?v)" "advance t i3 i'"
    using payload_chunk.IH [OF ready_advance [OF r2 a3(2)]] by blast
  have e: "length u - ?m = length ?v" by simp
  have "read_chunks idx k (length u) (i, d) = Inr (i', d @ u)"
    using payload_chunk.hyps(1,2) a1(1) a2(1) a3(1) a4(1) unfolding read_chunks.simps [of idx k "length u"] Let_def e
    by (simp add: read_member_def)
  moreover have "advance (m @ t) i i'"
    using advance_trans [OF advance_trans [OF a1(2) advance_trans [OF a2(2) a3(2)]] a4(2)] unfolding m .
  ultimately show ?case by blast
qed

lemma read_payload_sound:
  "read_payload env e (i, st) = Inr (i', st', data) \<Longrightarrow> \<exists>t. body_text env e data st st' t \<and> advance t i i'"
  by (cases "ce_kind e") (auto simp: read_payload_def body_text_def dest!: read_chunks_sound split: if_splits intro: exI [of _ "[]"])

lemma read_payload_complete:
  assumes "body_text env e data st st' t" and "ready t i"
  shows "\<exists>i'. read_payload env e (i, st) = Inr (i', st', data) \<and> advance t i i'"
proof (cases "ce_kind e")
  case (File n g)
  then have "length data = n" "payload_text (as_entries st - 1) 0 data t" using assms(1) by (simp_all add: body_text_def)
  then obtain i' where "read_chunks (as_entries st - 1) 0 n (i, []) = Inr (i', data)" "advance t i i'"
    using read_chunks_complete [OF _ assms(2), of "as_entries st - 1" 0 data "[]"] by auto
  then show ?thesis using assms(1) File by (simp add: read_payload_def body_text_def)
qed (use assms(1) in \<open>simp_all add: read_payload_def body_text_def\<close>)

lemma read_entry_sound:
  assumes "read_tar i = Inr (nxt, i1)" and "read_entry env nxt (i1, st) = Inr (i2, st2, r)"
  shows "\<exists>t. record_text env r st st2 t \<and> advance t i i2"
proof -
  obtain e data where r: "r = (e, data)" by (cases r)
  let ?b = "canonicalJson (entry_json e)"
  obtain name bytes i3 st1 where nm: "entry_name (as_entries st) = Inr name" "fst nxt = name"
    and d: "read_document (snd nxt) CHECKPOINT_ENTRY_BYTES i1 = Inr (bytes, i3)"
    and e: "checkpointDocument entry_of_json (valid_entry env) entry_json ''entry'' bytes = Inr e"
    and st1: "state_record st e bytes = Inr st1" and p: "read_payload env e (i3, st1) = Inr (i2, st2, data)"
    using assms(2) r by (auto simp: read_entry_def split: if_splits)
  have v: "valid_entry env e" "?b = bytes" using e unfolding entry_doc.checkpointDocument_iff by simp_all
  note d' = read_document_sound [OF d]
  obtain h where h: "checkpointTarHeader name (length bytes) = Inr h" "advance h i i1"
    using read_tar_sound [of i "fst nxt" "snd nxt" i1] assms(1) nm(2) d' unfolding prod.collapse by metis
  have m: "tar_member name bytes (h @ bytes @ padding_bytes (length bytes))" using h(1) by (simp add: tar_member_def)
  obtain t where t: "body_text env e data st1 st2 t" "advance t i3 i2" using read_payload_sound [OF p] by blast
  have "record_text env r st st2 ((h @ bytes @ padding_bytes (length bytes)) @ t)"
    unfolding record_text_def r fst_conv snd_conv v(2)
    by (intro exI conjI) (rule v(1) st1 nm(1) m t(1) HOL.refl | use d' in linarith)+
  moreover have "advance ((h @ bytes @ padding_bytes (length bytes)) @ t) i i2"
    using advance_trans [OF advance_trans [OF h(2)] t(2)] d' by metis
  ultimately show ?thesis by blast
qed

lemma entry_name_ne: "entry_name n = Inr name \<Longrightarrow> name \<noteq> ''summary.json''"
  by (auto simp: entry_name_def)

lemma read_entry_complete:
  assumes "record_text env r st st2 t" and "ready t i"
  shows "\<exists>nxt i1 i2. read_tar i = Inr (nxt, i1) \<and> fst nxt \<noteq> ''summary.json'' \<and> read_entry env nxt (i1, st) = Inr (i2, st2, r) \<and> advance t i i2"
proof -
  obtain e data where r: "r = (e, data)" by (cases r)
  let ?b = "canonicalJson (entry_json e)"
  obtain st1 name m b where v: "valid_entry env e" "length ?b \<le> CHECKPOINT_ENTRY_BYTES" and st1: "state_record st e ?b = Inr st1"
    and nm: "entry_name (as_entries st) = Inr name" and m: "tar_member name ?b m" and b: "body_text env e data st1 st2 b"
    and t: "t = m @ b"
    using assms(1) unfolding record_text_def r by auto
  obtain h where h: "checkpointTarHeader name (length ?b) = Inr h" and m': "m = h @ ?b @ padding_bytes (length ?b)"
    using m unfolding tar_member_def by blast
  have r0: "ready (h @ (?b @ padding_bytes (length ?b)) @ b) i" using assms(2) unfolding t m' by simp
  obtain i1 where a1: "read_tar i = Inr ((name, length ?b), i1)" "advance h i i1"
    using read_tar_complete [OF h ready_prefix [OF r0]] by blast
  note r1 = ready_advance [OF r0 a1(2)]
  obtain i2 where a2: "read_document (length ?b) CHECKPOINT_ENTRY_BYTES i1 = Inr (?b, i2)" "advance (?b @ padding_bytes (length ?b)) i1 i2"
    using read_document_complete [OF ready_prefix [OF r1] v(2)] by (auto simp: CHECKPOINT_ENTRY_BYTES_def CHECKPOINT_IO_BYTES_def)
  obtain i3 where a3: "read_payload env e (i2, st1) = Inr (i3, st2, data)" "advance b i2 i3"
    using read_payload_complete [OF b ready_advance [OF r1 a2(2)]] by blast
  have "checkpointDocument entry_of_json (valid_entry env) entry_json ''entry'' ?b = Inr e"
    unfolding entry_doc.checkpointDocument_iff using v(1) by simp
  then have "read_entry env (name, length ?b) (i1, st) = Inr (i3, st2, r)"
    using nm a2(1) st1 a3(1) by (simp add: read_entry_def r)
  moreover have "advance t i i3" using advance_trans [OF a1(2) advance_trans [OF a2(2) a3(2)]] unfolding t m' by simp
  ultimately show ?thesis using a1(1) entry_name_ne [OF nm] by (intro exI [of _ "(name, length ?b)"] exI [of _ i1] exI [of _ i3]) simp
qed

lemma read_summary_Inr:
  assumes "read_summary env n (i, st) = Inr (i2, s)"
  obtains bytes i3 ob zeros where "read_document n CHECKPOINT_DOCUMENT_BYTES i = Inr (bytes, i3)"
    "checkpointDocument summary_of_json valid_summary summary_json ''summary'' bytes = Inr s" "state_summary env st = Inr ob"
    "canonicalJson (summary_json s) = canonicalJson (summary_json ob)" "input_read 1024 i3 = Inr (zeros, i2)"
    "\<not> list_ex (\<lambda>b. b \<noteq> CHR 0x00) zeros" "concat (ai_chunks i2) = []"
proof -
  obtain bytes i3 where d: "read_document n CHECKPOINT_DOCUMENT_BYTES i = Inr (bytes, i3)"
    and r1: "bindE (checkpointDocument summary_of_json valid_summary summary_json ''summary'' bytes) (\<lambda>summary.
     bindE (state_summary env st) (\<lambda>observed.
       if canonicalJson (summary_json summary) \<noteq> canonicalJson (summary_json observed)
       then Inl (PlainError ''Checkpoint summary does not match observed content.'')
       else
         bindE (input_read 1024 i3) (\<lambda>(zeros, i2).
           if list_ex (\<lambda>b. b \<noteq> CHR 0x00) zeros then Inl (PlainError ''Invalid checkpoint tar end.'')
           else bindE (input_end i2) (\<lambda>_. Inr (i2, summary))))) = Inr (i2, s)"
    using assms unfolding read_summary_def prod.case bindE_Inr_iff [of "read_document _ _ _"] by (elim exE conjE) (simp only: split: prod.splits)
  obtain s' ob where s': "checkpointDocument summary_of_json valid_summary summary_json ''summary'' bytes = Inr s'"
    "state_summary env st = Inr ob" "canonicalJson (summary_json s') = canonicalJson (summary_json ob)"
    and r2: "bindE (input_read 1024 i3) (\<lambda>(zeros, i2).
           if list_ex (\<lambda>b. b \<noteq> CHR 0x00) zeros then Inl (PlainError ''Invalid checkpoint tar end.'')
           else bindE (input_end i2) (\<lambda>_. Inr (i2, s'))) = Inr (i2, s)"
    using r1 unfolding bindE_Inr_iff [of "checkpointDocument _ _ _ _ _"] bindE_Inr_iff [of "state_summary _ _"]
    by (elim exE conjE) (simp only: split: if_splits, blast)
  obtain zeros i4 where "input_read 1024 i3 = Inr (zeros, i4)" "\<not> list_ex (\<lambda>b. b \<noteq> CHR 0x00) zeros"
    "bindE (input_end i4) (\<lambda>_. Inr (i4, s')) = Inr (i2, s)"
    using r2 unfolding bindE_Inr_iff [of "input_read _ _"] by (elim exE conjE) (simp split: prod.splits if_splits)
  then show ?thesis using that [OF d _ s'(2)] s' by (auto simp: input_end_def)
qed

lemma read_summary_sound:
  assumes "read_tar i = Inr (nxt, i1)" and "fst nxt = ''summary.json''" and "read_summary env (snd nxt) (i1, st) = Inr (i2, s)"
  shows "\<exists>t. archive_tail env st s t \<and> advance t i i2 \<and> concat (ai_chunks i2) = [] \<and> valid_summary s"
proof -
  obtain bytes i3 ob zeros where d: "read_document (snd nxt) CHECKPOINT_DOCUMENT_BYTES i1 = Inr (bytes, i3)"
    and s: "checkpointDocument summary_of_json valid_summary summary_json ''summary'' bytes = Inr s"
    and ob: "state_summary env st = Inr ob" "canonicalJson (summary_json s) = canonicalJson (summary_json ob)"
    and z: "input_read 1024 i3 = Inr (zeros, i2)" "\<not> list_ex (\<lambda>b. b \<noteq> CHR 0x00) zeros" and fin: "concat (ai_chunks i2) = []"
    by (rule read_summary_Inr [OF assms(3)]) (rule that)
  have v: "valid_summary s" "canonicalJson (summary_json s) = bytes" using s unfolding summary_doc.checkpointDocument_iff by simp_all
  have "checkpointDocument summary_of_json (\<lambda>_. True) summary_json [] bytes = Inr s'"
    if "canonicalJson (summary_json s') = bytes" for s'
    unfolding summary_doc.checkpointDocument_iff using that by simp
  from this [of s] this [of ob] have eq: "ob = s" unfolding v(2) ob(2) [symmetric] by simp
  note d' = read_document_sound [OF d]
  obtain h where h: "checkpointTarHeader ''summary.json'' (length bytes) = Inr h" "advance h i i1"
    using read_tar_sound [of i "fst nxt" "snd nxt" i1] assms(1,2) d' unfolding prod.collapse by metis
  have m: "tar_member ''summary.json'' bytes (h @ bytes @ padding_bytes (length bytes))" using h(1) by (simp add: tar_member_def)
  have z': "advance (tar_end) i3 i2" using input_read_sound [OF z(1)] z(2) unfolding zeros_iff tar_end_def by metis
  have "archive_tail env st s ((h @ bytes @ padding_bytes (length bytes)) @ tar_end)"
    unfolding archive_tail_def v(2)
    by (intro exI conjI) (rule ob(1) [unfolded eq] m HOL.refl | use d' in linarith)+
  moreover have "advance ((h @ bytes @ padding_bytes (length bytes)) @ tar_end) i i2"
    using advance_trans [OF advance_trans [OF h(2)] z'] d' by metis
  ultimately show ?thesis using fin v(1) by blast
qed

lemma read_summary_complete:
  assumes "archive_tail env st s t" and "ready t i" and "concat (ai_chunks i) = t" and "valid_summary s"
  shows "\<exists>n i1 i2. read_tar i = Inr ((''summary.json'', n), i1) \<and> read_summary env n (i1, st) = Inr (i2, s) \<and> advance t i i2"
proof -
  let ?b = "canonicalJson (summary_json s)" and ?z = "tar_end"
  obtain m where s: "state_summary env st = Inr s" "length ?b \<le> CHECKPOINT_DOCUMENT_BYTES" and m: "tar_member ''summary.json'' ?b m"
    and t: "t = m @ ?z"
    using assms(1) unfolding archive_tail_def by blast
  obtain h where h: "checkpointTarHeader ''summary.json'' (length ?b) = Inr h" and m': "m = h @ ?b @ padding_bytes (length ?b)"
    using m unfolding tar_member_def by blast
  have r0: "ready (h @ (?b @ padding_bytes (length ?b)) @ ?z) i" using assms(2) unfolding t m' by simp
  obtain i1 where a1: "read_tar i = Inr ((''summary.json'', length ?b), i1)" "advance h i i1"
    using read_tar_complete [OF h ready_prefix [OF r0]] by blast
  note r1 = ready_advance [OF r0 a1(2)]
  obtain i2 where a2: "read_document (length ?b) CHECKPOINT_DOCUMENT_BYTES i1 = Inr (?b, i2)" "advance (?b @ padding_bytes (length ?b)) i1 i2"
    using read_document_complete [OF ready_prefix [OF r1] s(2)] by (auto simp: CHECKPOINT_DOCUMENT_BYTES_def CHECKPOINT_IO_BYTES_def)
  have "length ?z \<le> CHECKPOINT_IO_BYTES" by (simp add: CHECKPOINT_IO_BYTES_def)
  then obtain i3 where a3: "input_read (length ?z) i2 = Inr (?z, i3)" "advance ?z i2 i3"
    using input_read_complete [OF ready_advance [OF r1 a2(2)]] by blast
  have a: "advance t i i3" using advance_trans [OF a1(2) advance_trans [OF a2(2) a3(2)]] unfolding t m' by simp
  then have "input_end i3 = Inr ()" using assms(3) by (simp add: input_end_def advance_def)
  moreover have "checkpointDocument summary_of_json valid_summary summary_json ''summary'' ?b = Inr s"
    unfolding summary_doc.checkpointDocument_iff using assms(4) by simp
  moreover have "\<not> list_ex (\<lambda>b. b \<noteq> CHR 0x00) ?z" unfolding zeros_iff length_tar_end by (rule tar_end_def)
  ultimately have "read_summary env (length ?b) (i1, st) = Inr (i3, s)"
    using a2(1) a3(1) s(1) by (simp add: read_summary_def)
  then show ?thesis using a a1(1) by blast
qed

lemma read_entries_sound:
  "read_entries env (i, st) = Inr (i', rs, s) \<Longrightarrow>
   \<exists>st' b c. records_text env st rs st' b \<and> archive_tail env st' s c \<and> advance (b @ c) i i' \<and> concat (ai_chunks i') = [] \<and> valid_summary s"
proof (induction "unread i" arbitrary: i st rs rule: less_induct)
  case less
  obtain nxt i1 where t: "read_tar i = Inr (nxt, i1)" using less.prems by (subst (asm) read_entries.simps) auto
  show ?case
  proof (cases "fst nxt = ''summary.json''")
    case True
    then have r: "read_summary env (snd nxt) (i1, st) = Inr (i', s)" "rs = []"
      using less.prems t by (subst (asm) read_entries.simps, auto)+
    then show ?thesis using read_summary_sound [OF t True r(1)] records_end by fastforce
  next
    case False
    then obtain i2 st2 r rs' where e: "read_entry env nxt (i1, st) = Inr (i2, st2, r)"
      and rest: "read_entries env (i2, st2) = Inr (i', rs', s)" and rs: "rs = r # rs'"
      using less.prems t by (subst (asm) read_entries.simps) auto
    have "unread i2 < unread i" using read_tar_unread [OF t] read_entry_unread [OF e] by linarith
    then obtain st' b c where g: "records_text env st2 rs' st' b" "archive_tail env st' s c" "advance (b @ c) i2 i'"
      "concat (ai_chunks i') = []" "valid_summary s"
      using less.hyps rest by blast
    obtain a where a: "record_text env r st st2 a" "advance a i i2" using read_entry_sound [OF t e] by blast
    have "advance ((a @ b) @ c) i i'" using advance_trans [OF a(2) g(3)] by simp
    then show ?thesis using records_next [OF a(1) g(1)] g rs by blast
  qed
qed

lemma read_entries_complete:
  "records_text env st rs st' b \<Longrightarrow> archive_tail env st' s c \<Longrightarrow> ready (b @ c) i \<Longrightarrow> concat (ai_chunks i) = b @ c \<Longrightarrow> valid_summary s \<Longrightarrow>
   \<exists>i'. read_entries env (i, st) = Inr (i', rs, s) \<and> advance (b @ c) i i'"
proof (induction arbitrary: i rule: records_text.induct)
  case (records_end st)
  then obtain n i1 i2 where "read_tar i = Inr ((''summary.json'', n), i1)" "read_summary env n (i1, st) = Inr (i2, s)" "advance c i i2"
    using read_summary_complete [of env st s c i] by auto
  then show ?case by (subst read_entries.simps) simp
next
  case (records_next r st st1 a rs st' b)
  have r0: "ready (a @ b @ c) i" using records_next.prems(2) by simp
  obtain nxt i1 i2 where e: "read_tar i = Inr (nxt, i1)" "fst nxt \<noteq> ''summary.json''" "read_entry env nxt (i1, st) = Inr (i2, st1, r)"
    "advance a i i2"
    using read_entry_complete [OF records_next.hyps(1) ready_prefix [OF r0]] by blast
  have "concat (ai_chunks i2) = b @ c" using e(4) records_next.prems(3) by (simp add: advance_def)
  then obtain i' where r: "read_entries env (i2, st1) = Inr (i', rs, s)" "advance (b @ c) i2 i'"
    using records_next.IH [OF records_next.prems(1) ready_advance [OF r0 e(4)] _ records_next.prems(4)] by blast
  have "read_entries env (i, st) = Inr (i', r # rs, s)" using e r(1) by (subst read_entries.simps) simp
  then show ?case using advance_trans [OF e(4) r(2)] by auto
qed

lemma parse_archive_sound:
  assumes "parseArchive env i = Inr r"
  shows "\<exists>t i'. archive_text env (ar_header r) (ar_entries r) (ar_summary r) t \<and> advance t i i' \<and> concat (ai_chunks i') = []
    \<and> valid_summary (ar_summary r) \<and> ar_bytes r = ai_bytes i' \<and> ar_digest r = ''sha256:'' @ env_sha env (ai_hash i')"
proof -
  obtain n i1 bytes i2 h i3 rs s where m: "read_member ''checkpoint.json'' None i = Inr (n, i1)"
    and d: "read_document n CHECKPOINT_DOCUMENT_BYTES i1 = Inr (bytes, i2)"
    and h: "checkpointDocument header_of_json (valid_header env) header_json ''header'' bytes = Inr h"
    and e: "read_entries env (i2, checkpointArchiveState h bytes) = Inr (i3, rs, s)"
    and r: "r = \<lparr> ar_header = h, ar_entries = rs, ar_summary = s, ar_bytes = ai_bytes i3,
             ar_digest = ''sha256:'' @ env_sha env (ai_hash i3) \<rparr>"
    using assms by (auto simp: parseArchive_def)
  have v: "valid_header env h" "canonicalJson (header_json h) = bytes" using h unfolding header_doc.checkpointDocument_iff by simp_all
  note d' = read_document_sound [OF d]
  have "read_tar i = Inr ((''checkpoint.json'', n), i1)" using m by (auto simp: read_member_def split: if_splits)
  then obtain hd where hd: "checkpointTarHeader ''checkpoint.json'' (length bytes) = Inr hd" "advance hd i i1"
    using read_tar_sound d' by metis
  obtain st b c where g: "records_text env (checkpointArchiveState h bytes) rs st b" "archive_tail env st s c"
    "advance (b @ c) i2 i3" "concat (ai_chunks i3) = []" "valid_summary s"
    using read_entries_sound [OF e] by blast
  let ?m = "hd @ bytes @ padding_bytes (length bytes)"
  have mm: "tar_member ''checkpoint.json'' bytes ?m" using hd(1) by (simp add: tar_member_def)
  have "archive_text env h rs s (?m @ b @ c)"
    unfolding archive_text_def v(2) by (intro exI conjI) (rule v(1) mm g(1,2) HOL.refl | use d' in linarith)+
  moreover have "advance (?m @ b @ c) i i3" using advance_trans [OF advance_trans [OF hd(2)] g(3)] d' by metis
  ultimately show ?thesis using g(4,5) r by auto
qed

lemma parse_archive_complete:
  assumes "archive_text env h rs s t" and "ready t i" and "concat (ai_chunks i) = t" and "valid_summary s"
  shows "\<exists>i'. parseArchive env i = Inr \<lparr> ar_header = h, ar_entries = rs, ar_summary = s, ar_bytes = ai_bytes i',
             ar_digest = ''sha256:'' @ env_sha env (ai_hash i') \<rparr> \<and> advance t i i'"
proof -
  let ?b = "canonicalJson (header_json h)"
  obtain m st b c where v: "valid_header env h" "length ?b \<le> CHECKPOINT_DOCUMENT_BYTES" and m: "tar_member ''checkpoint.json'' ?b m"
    and b: "records_text env (checkpointArchiveState h ?b) rs st b" and c: "archive_tail env st s c" and t: "t = m @ b @ c"
    using assms(1) unfolding archive_text_def by blast
  obtain hd where hd: "checkpointTarHeader ''checkpoint.json'' (length ?b) = Inr hd" and m': "m = hd @ ?b @ padding_bytes (length ?b)"
    using m unfolding tar_member_def by blast
  have r0: "ready (hd @ (?b @ padding_bytes (length ?b)) @ b @ c) i" using assms(2) unfolding t m' by simp
  obtain i1 where a1: "read_tar i = Inr ((''checkpoint.json'', length ?b), i1)" "advance hd i i1"
    using read_tar_complete [OF hd ready_prefix [OF r0]] by blast
  note r1 = ready_advance [OF r0 a1(2)]
  obtain i2 where a2: "read_document (length ?b) CHECKPOINT_DOCUMENT_BYTES i1 = Inr (?b, i2)" "advance (?b @ padding_bytes (length ?b)) i1 i2"
    using read_document_complete [OF ready_prefix [OF r1] v(2)] by (auto simp: CHECKPOINT_DOCUMENT_BYTES_def CHECKPOINT_IO_BYTES_def)
  have a: "advance m i i2" using advance_trans [OF a1(2) a2(2)] unfolding m' .
  then have "concat (ai_chunks i2) = b @ c" using assms(3) t by (simp add: advance_def)
  then obtain i3 where a3: "read_entries env (i2, checkpointArchiveState h ?b) = Inr (i3, rs, s)" "advance (b @ c) i2 i3"
    using read_entries_complete [OF b c ready_advance [OF r1 a2(2)] _ assms(4)] by blast
  have "checkpointDocument header_of_json (valid_header env) header_json ''header'' ?b = Inr h"
    unfolding header_doc.checkpointDocument_iff using v(1) by simp
  then have "parseArchive env i = Inr \<lparr> ar_header = h, ar_entries = rs, ar_summary = s, ar_bytes = ai_bytes i3,
             ar_digest = ''sha256:'' @ env_sha env (ai_hash i3) \<rparr>"
    using a1(1) a2(1) a3(1) by (simp add: parseArchive_def read_member_def)
  then show ?thesis using advance_trans [OF a a3(2)] unfolding t by blast
qed

text \<open>The reader accepts a stream if and only if its bytes are the text that the grammar gives to what it returns.\<close>

lemma archive_text_nonempty: "archive_text env h rs s t \<Longrightarrow> t \<noteq> []"
  by (auto simp: archive_text_def tar_member_iff)

lemma read_archive_iff:
  "readCheckpointArchive env chunks mx = Inr r \<longleftrightarrow>
     mx \<le> SAFE_INTEGER \<and> length (concat chunks) \<le> mx \<and> valid_summary (ar_summary r)
     \<and> archive_text env (ar_header r) (ar_entries r) (ar_summary r) (concat chunks)
     \<and> ar_bytes r = length (concat chunks) \<and> ar_digest r = ''sha256:'' @ env_sha env (concat chunks)"
proof
  assume "readCheckpointArchive env chunks mx = Inr r"
  then obtain i where i: "checkpointInput chunks mx = Inr i" and p: "parseArchive env i = Inr r" by (auto simp: readCheckpointArchive_def)
  have i': "mx \<le> SAFE_INTEGER" "ai_chunks i = chunks" "ai_max i = mx" "ai_bytes i = 0" "ai_hash i = []"
    using i by (auto simp: checkpointInput_def split: if_splits)
  obtain t i2 where t: "archive_text env (ar_header r) (ar_entries r) (ar_summary r) t" "advance t i i2" "concat (ai_chunks i2) = []"
    "valid_summary (ar_summary r)" "ar_bytes r = ai_bytes i2" "ar_digest r = ''sha256:'' @ env_sha env (ai_hash i2)"
    using parse_archive_sound [OF p] by blast
  have "concat chunks = t" "ai_bytes i2 = length t" "ai_hash i2 = t" "length t \<le> mx"
    using t(2,3) i' archive_text_nonempty [OF t(1)] by (auto simp: advance_def)
  then show "mx \<le> SAFE_INTEGER \<and> length (concat chunks) \<le> mx \<and> valid_summary (ar_summary r)
     \<and> archive_text env (ar_header r) (ar_entries r) (ar_summary r) (concat chunks)
     \<and> ar_bytes r = length (concat chunks) \<and> ar_digest r = ''sha256:'' @ env_sha env (concat chunks)"
    using t i'(1) by simp
next
  assume a: "mx \<le> SAFE_INTEGER \<and> length (concat chunks) \<le> mx \<and> valid_summary (ar_summary r)
     \<and> archive_text env (ar_header r) (ar_entries r) (ar_summary r) (concat chunks)
     \<and> ar_bytes r = length (concat chunks) \<and> ar_digest r = ''sha256:'' @ env_sha env (concat chunks)"
  define i :: archive_input where "i = \<lparr> ai_chunks = chunks, ai_max = mx, ai_bytes = 0, ai_hash = [] \<rparr>"
  have i: "checkpointInput chunks mx = Inr i" "ai_chunks i = chunks" "ai_max i = mx" "ai_bytes i = 0" "ai_hash i = []"
    using a by (simp_all add: checkpointInput_def i_def)
  have "ready (concat chunks) i" using a i by (simp add: ready_def)
  then obtain i' where p: "parseArchive env i = Inr \<lparr> ar_header = ar_header r, ar_entries = ar_entries r, ar_summary = ar_summary r,
      ar_bytes = ai_bytes i', ar_digest = ''sha256:'' @ env_sha env (ai_hash i') \<rparr>" and ad: "advance (concat chunks) i i'"
    using parse_archive_complete [of env "ar_header r" "ar_entries r" "ar_summary r" "concat chunks" i] a i(2) by blast
  have "ai_bytes i' = ar_bytes r" "''sha256:'' @ env_sha env (ai_hash i') = ar_digest r" using ad a i by (simp_all add: advance_def)
  then show "readCheckpointArchive env chunks mx = Inr r" using i(1) p by (simp add: readCheckpointArchive_def)
qed

end
