(* ===== verification/Checkpoint_Size.thy ===== *)
theory Checkpoint_Size
  imports Checkpoint_Wire
begin

text \<open>
  The size of an archive. Every text of the grammar has the size that \<open>measureCheckpointArchive\<close> computes from the
  header and the entries alone, and when the measurement succeeds and the sources deliver the contents that the
  entries declare, the grammar has a text.
\<close>

section \<open>Names and members\<close>

definition member_size :: "nat \<Rightarrow> nat" where
  "member_size n = 512 + (n + 511) div 512 * 512"

lemma padded_size: "n + (512 - n mod 512) mod 512 = (n + 511) div 512 * (512 :: nat)"
proof -
  have "n = 512 * (n div 512) + n mod 512" "n mod 512 < 512" by simp_all
  then obtain q r where n: "n = 512 * q + r" "r < 512" by blast
  show ?thesis
  proof (cases "r = 0")
    case True
    then show ?thesis using n by simp
  next
    case False
    have m: "n mod 512 = r" using n by simp
    have "(n + 511) div 512 = q + 1" using n False by (simp add: div_nat_eqI)
    then show ?thesis unfolding m using n False by simp
  qed
qed

lemma tar_member_length: "tar_member name b t \<Longrightarrow> length t = member_size (length b)"
  using padded_size [of "length b"] by (auto simp: tar_member_iff member_size_def padding_length)

lemma tar_member_exists:
  assumes "tar_name name" and "length name \<le> 100" and "length b \<le> MAX_TAR_SIZE"
  shows "\<exists>t. tar_member name b t"
  using assms by (auto simp: tar_member_def checkpointTarHeader_def Let_def)

definition tar_char :: "char \<Rightarrow> bool" where
  "tar_char c \<longleftrightarrow> (let n = (of_char c :: nat) in (97 \<le> n \<and> n \<le> 122) \<or> (46 \<le> n \<and> n \<le> 57))"

lemma tar_name_iff: "tar_name s \<longleftrightarrow> s \<noteq> [] \<and> list_all tar_char s"
  by (simp add: tar_name_def list_all_iff tar_char_def)

lemma radix_tar_char: "radix_digit 16 c \<Longrightarrow> tar_char c"
  by (auto simp: radix_digit_def hex_char_def tar_char_def Let_def split: if_splits option.splits)

lemma checkpointIndex_Inr:
  assumes "n \<le> SAFE_INTEGER"
  obtains a where "checkpointIndex n = Inr a" and "length a = 16" and "list_all tar_char a"
proof
  have n: "n < 16 ^ 16" using assms by (simp add: SAFE_INTEGER_def)
  have p: "length (pad_start 16 (to_radix 16 n)) = 16" "list_all (radix_digit 16) (pad_start 16 (to_radix 16 n))"
    using pad_props [of 16 n 16] n by simp_all
  show "checkpointIndex n = Inr (pad_start 16 (to_radix 16 n))" using assms by (simp add: checkpointIndex_def)
  show "length (pad_start 16 (to_radix 16 n)) = 16" by (rule p(1))
  show "list_all tar_char (pad_start 16 (to_radix 16 n))" using p(2) radix_tar_char by (auto simp: list_all_iff)
qed

lemma entry_name_exists:
  assumes "n \<le> SAFE_INTEGER"
  obtains name where "entry_name n = Inr name" and "tar_name name" and "length name \<le> 100"
proof -
  obtain a where a: "checkpointIndex n = Inr a" "length a = 16" "list_all tar_char a" using checkpointIndex_Inr [OF assms] .
  show ?thesis
    by (rule that [of "''entries/'' @ a @ ''.json''"]) (use a in \<open>simp_all add: entry_name_def tar_name_iff tar_char_def\<close>)
qed

lemma payload_name_exists:
  assumes "n \<le> SAFE_INTEGER" and "k \<le> SAFE_INTEGER"
  obtains name where "payload_name n k = Inr name" and "tar_name name" and "length name \<le> 100"
proof -
  obtain a where a: "checkpointIndex n = Inr a" "length a = 16" "list_all tar_char a" using checkpointIndex_Inr [OF assms(1)] .
  obtain b where b: "checkpointIndex k = Inr b" "length b = 16" "list_all tar_char b" using checkpointIndex_Inr [OF assms(2)] .
  show ?thesis
    by (rule that [of "''payload/'' @ a @ ''/'' @ b"]) (use a b in \<open>simp_all add: payload_name_def tar_name_iff tar_char_def\<close>)
qed

section \<open>Payloads\<close>

definition payload_size :: "nat \<Rightarrow> nat" where
  "payload_size n = n div CHECKPOINT_PAYLOAD_BYTES * member_size CHECKPOINT_PAYLOAD_BYTES
     + (if n mod CHECKPOINT_PAYLOAD_BYTES \<noteq> 0 then member_size (n mod CHECKPOINT_PAYLOAD_BYTES) else 0)"

lemma payload_bytes_pos: "0 < CHECKPOINT_PAYLOAD_BYTES"
  by (simp add: CHECKPOINT_PAYLOAD_BYTES_def)

lemma payload_size_step:
  assumes "0 < n"
  shows "payload_size n = member_size (min n CHECKPOINT_PAYLOAD_BYTES) + payload_size (n - CHECKPOINT_PAYLOAD_BYTES)"
proof (cases "n < CHECKPOINT_PAYLOAD_BYTES")
  case True
  then show ?thesis using assms by (simp add: payload_size_def)
next
  case False
  let ?p = CHECKPOINT_PAYLOAD_BYTES
  have "n div ?p = Suc ((n - ?p) div ?p)" "n mod ?p = (n - ?p) mod ?p"
    using False payload_bytes_pos by (simp_all add: le_div_geq le_mod_geq not_less)
  then show ?thesis using False by (simp add: payload_size_def min_def)
qed

lemma payload_text_length: "payload_text idx k u t \<Longrightarrow> length t = payload_size (length u)"
proof (induction rule: payload_text.induct)
  case (payload_end k)
  then show ?case by (simp add: payload_size_def)
next
  case (payload_chunk u k name m t)
  then show ?case using payload_size_step [of "length u"] tar_member_length [OF payload_chunk.hyps(3)] by (simp add: min.commute)
qed

lemma payload_text_exists:
  assumes "idx \<le> SAFE_INTEGER"
  shows "k + length u \<le> SAFE_INTEGER \<Longrightarrow> \<exists>t. payload_text idx k u t"
proof (induction "length u" arbitrary: k u rule: less_induct)
  case less
  show ?case
  proof (cases "u = []")
    case True
    then show ?thesis using payload_end by blast
  next
    case False
    let ?s = "take CHECKPOINT_PAYLOAD_BYTES u" and ?v = "drop CHECKPOINT_PAYLOAD_BYTES u"
    have v: "length ?v < length u" "k + 1 + length ?v \<le> SAFE_INTEGER"
      using False less.prems payload_bytes_pos by (cases u; auto)+
    obtain t where t: "payload_text idx (k + 1) ?v t" using less.hyps [OF v] by blast
    have "k \<le> SAFE_INTEGER" using less.prems by simp
    then obtain name where nm: "payload_name idx k = Inr name" "tar_name name" "length name \<le> 100"
      using payload_name_exists [OF assms] by blast
    have "length ?s \<le> MAX_TAR_SIZE" by (simp add: CHECKPOINT_PAYLOAD_BYTES_def MAX_TAR_SIZE_def)
    then obtain m where "tar_member name ?s m" using tar_member_exists [OF nm(2,3)] by blast
    then show ?thesis using payload_chunk [OF False nm(1) _ t] by blast
  qed
qed

section \<open>Measuring the members\<close>

lemma member_size_ge: "n \<le> member_size n" "512 \<le> member_size n"
proof -
  have "n + (512 - n mod 512) mod 512 \<le> member_size n" unfolding padded_size member_size_def by simp
  then show "n \<le> member_size n" by simp
qed (simp add: member_size_def)

lemma checkpointMemberBytes_iff: "checkpointMemberBytes n = Inr m \<longleftrightarrow> m = member_size n \<and> m \<le> SAFE_INTEGER"
  using member_size_ge(1) [of n] by (auto simp: checkpointMemberBytes_def member_size_def Let_def)

lemma measure_member_iff: "measure_member n tot = Inr m \<longleftrightarrow> m = tot + member_size n \<and> m \<le> SAFE_INTEGER"
  by (auto simp: measure_member_def checkpointMemberBytes_iff measure_add_def)

fun kind_payload :: "entry_kind \<Rightarrow> nat" where
  "kind_payload (File n g) = payload_size n"
| "kind_payload Directory = 0"
| "kind_payload (Symlink n g t) = 0"

lemma whole_chunk: "checkpointMemberBytes CHECKPOINT_PAYLOAD_BYTES = Inr (member_size CHECKPOINT_PAYLOAD_BYTES)"
  unfolding checkpointMemberBytes_iff by (simp add: member_size_def CHECKPOINT_PAYLOAD_BYTES_def SAFE_INTEGER_def)

lemma measure_payload_iff:
  assumes "tot \<le> SAFE_INTEGER"
  shows "measure_payload k tot = Inr m \<longleftrightarrow> m = tot + kind_payload k \<and> m \<le> SAFE_INTEGER"
proof (cases k)
  case (File n g)
  let ?w = "n div CHECKPOINT_PAYLOAD_BYTES * member_size CHECKPOINT_PAYLOAD_BYTES" and ?r = "n mod CHECKPOINT_PAYLOAD_BYTES"
  have "payload_size n = ?w + (if ?r \<noteq> 0 then member_size ?r else 0)" by (simp add: payload_size_def)
  then show ?thesis using assms File
    by (cases "?r = 0") (auto simp: measure_payload_def whole_chunk measure_add_def measure_member_iff)
qed (use assms in \<open>auto simp: measure_payload_def\<close>)

section \<open>Measuring the entries\<close>

text \<open>The measurement runs the state of the archive without the contents: only the content hash differs.\<close>

lemma state_record_content:
  "state_record (st\<lparr>as_content := c\<rparr>) e b = map_sum id (\<lambda>s. s\<lparr>as_content := c @ hash_frame b\<rparr>) (state_record st e b)"
  by (simp add: state_record_def Let_def split: option.splits)

definition carries :: "checkpoint_env \<Rightarrow> checkpoint_entry \<times> string \<Rightarrow> bool" where
  "carries env r = (case ce_kind (fst r) of
     File n g \<Rightarrow> length (snd r) = n \<and> ''sha256:'' @ env_sha env (snd r) = g
   | _ \<Rightarrow> snd r = [])"

lemma body_text_props:
  assumes "body_text env e data st st' b"
  shows "length b = kind_payload (ce_kind e)" "\<exists>c. st' = st\<lparr>as_content := c\<rparr>" "carries env (e, data)"
proof -
  show "length b = kind_payload (ce_kind e)"
    using assms payload_text_length by (cases "ce_kind e") (auto simp: body_text_def)
  have same: "\<exists>c. st = st\<lparr>as_content := c\<rparr>" by (rule exI [of _ "as_content st"]) simp
  show "\<exists>c. st' = st\<lparr>as_content := c\<rparr>" "carries env (e, data)"
    using assms same by (cases "ce_kind e"; auto simp: body_text_def carries_def state_payload_def beginPayload_def)+
qed

lemma body_text_exists:
  assumes "carries env (e, data)" and "valid_entry env e" and "as_entries st \<le> SAFE_INTEGER"
  shows "\<exists>st' b. body_text env e data st st' b"
proof (cases "ce_kind e")
  case (File n g)
  have "0 + length data \<le> SAFE_INTEGER" using assms(1,2) File by (simp add: carries_def valid_entry_def)
  moreover have "as_entries st - 1 \<le> SAFE_INTEGER" using assms(3) by simp
  ultimately obtain t where "payload_text (as_entries st - 1) 0 data t" using payload_text_exists by blast
  then show ?thesis using assms(1) File by (auto simp: body_text_def carries_def)
qed (use assms(1) in \<open>simp_all add: body_text_def carries_def\<close>)

lemma measure_records_complete:
  "records_text env st rs st' t \<Longrightarrow> tot + length t \<le> SAFE_INTEGER \<Longrightarrow>
   \<exists>c'. measure_entries env (map fst rs) (st\<lparr>as_content := c\<rparr>, tot) = Inr (st'\<lparr>as_content := c'\<rparr>, tot + length t)"
proof (induction arbitrary: tot c rule: records_text.induct)
  case (records_end st)
  then show ?case by auto
next
  case (records_next r st st2 a rs st' b)
  let ?d = "canonicalJson (entry_json (fst r))"
  obtain st1 name m x where v: "valid_entry env (fst r)" "length ?d \<le> CHECKPOINT_ENTRY_BYTES" "state_record st (fst r) ?d = Inr st1"
    and m: "tar_member name ?d m" and x: "body_text env (fst r) (snd r) st1 st2 x" and a: "a = m @ x"
    using records_next.hyps(1) unfolding record_text_def by blast
  obtain c2 where c2: "st2 = st1\<lparr>as_content := c2\<rparr>" using body_text_props(2) [OF x] by blast
  have len: "length a = member_size (length ?d) + kind_payload (ce_kind (fst r))"
    using a tar_member_length [OF m] body_text_props(1) [OF x] by simp
  have fit: "tot + member_size (length ?d) \<le> SAFE_INTEGER" "tot + length a \<le> SAFE_INTEGER"
    "tot + length a + length b \<le> SAFE_INTEGER"
    using records_next.prems len by simp_all
  obtain c' where c': "measure_entries env (map fst rs) (st2\<lparr>as_content := c @ hash_frame ?d\<rparr>, tot + length a)
      = Inr (st'\<lparr>as_content := c'\<rparr>, tot + length a + length b)"
    using records_next.IH [OF fit(3)] by blast
  have "st1\<lparr>as_content := c @ hash_frame ?d\<rparr> = st2\<lparr>as_content := c @ hash_frame ?d\<rparr>" by (simp add: c2)
  moreover have "state_record (st\<lparr>as_content := c\<rparr>) (fst r) ?d = Inr (st1\<lparr>as_content := c @ hash_frame ?d\<rparr>)"
    by (simp add: state_record_content v(3))
  moreover have "measure_member (length ?d) tot = Inr (tot + member_size (length ?d))" using fit(1) by (simp add: measure_member_iff)
  moreover have "measure_payload (ce_kind (fst r)) (tot + member_size (length ?d)) = Inr (tot + length a)"
    using fit(2) len by (simp add: measure_payload_iff [OF fit(1)])
  ultimately have "measure_entries env (map fst (r # rs)) (st\<lparr>as_content := c\<rparr>, tot)
      = Inr (st'\<lparr>as_content := c'\<rparr>, tot + length a + length b)"
    using v(1,2) c' by simp
  then show ?case by (auto simp: add.assoc)
qed

lemma measure_records_sound:
  "measure_entries env (map fst rs) (st\<lparr>as_content := c\<rparr>, tot) = Inr (mst', n) \<Longrightarrow> list_all (carries env) rs \<Longrightarrow>
   tot \<le> SAFE_INTEGER \<Longrightarrow> as_entries st \<le> tot \<Longrightarrow>
   \<exists>st' t. records_text env st rs st' t \<and> n = tot + length t \<and> (\<exists>c'. mst' = st'\<lparr>as_content := c'\<rparr>)"
proof (induction rs arbitrary: st c tot)
  case Nil
  then show ?case using records_end [of env st] by fastforce
next
  case (Cons r rs)
  let ?d = "canonicalJson (entry_json (fst r))"
  obtain mst1 t1 t2 where v: "valid_entry env (fst r)" "length ?d \<le> CHECKPOINT_ENTRY_BYTES"
    and s1: "state_record (st\<lparr>as_content := c\<rparr>) (fst r) ?d = Inr mst1" and m1: "measure_member (length ?d) tot = Inr t1"
    and m2: "measure_payload (ce_kind (fst r)) t1 = Inr t2" and rest: "measure_entries env (map fst rs) (mst1, t2) = Inr (mst', n)"
    using Cons.prems(1) by auto
  obtain st1 where st1: "state_record st (fst r) ?d = Inr st1" "mst1 = st1\<lparr>as_content := c @ hash_frame ?d\<rparr>"
    using s1 unfolding state_record_content by (cases "state_record st (fst r) ?d") auto
  have t1: "t1 = tot + member_size (length ?d)" "t1 \<le> SAFE_INTEGER" using m1 unfolding measure_member_iff by auto
  have t2: "t2 = t1 + kind_payload (ce_kind (fst r))" "t2 \<le> SAFE_INTEGER" using m2 unfolding measure_payload_iff [OF t1(2)] by auto
  have ents: "as_entries st1 = as_entries st + 1" by (rule state_record_entries [OF st1(1)])
  have le: "as_entries st1 \<le> t2" "as_entries st1 \<le> SAFE_INTEGER" "as_entries st \<le> SAFE_INTEGER"
    using Cons.prems(3,4) t1 t2 ents member_size_ge(2) [of "length ?d"] by linarith+
  obtain name where nm: "entry_name (as_entries st) = Inr name" "tar_name name" "length name \<le> 100" using entry_name_exists [OF le(3)] .
  have "length ?d \<le> MAX_TAR_SIZE" using v(2) by (simp add: CHECKPOINT_ENTRY_BYTES_def MAX_TAR_SIZE_def)
  then obtain m where m: "tar_member name ?d m" using tar_member_exists [OF nm(2,3)] by blast
  have "carries env (fst r, snd r)" using Cons.prems(2) by simp
  then obtain st2 b where b: "body_text env (fst r) (snd r) st1 st2 b" using body_text_exists [OF _ v(1) le(2)] by blast
  obtain c2 where c2: "st2 = st1\<lparr>as_content := c2\<rparr>" using body_text_props(2) [OF b] by blast
  have mst1: "mst1 = st2\<lparr>as_content := c @ hash_frame ?d\<rparr>" using st1(2) c2 by simp
  have "list_all (carries env) rs" "as_entries st2 \<le> t2" using Cons.prems(2) le(1) c2 by simp_all
  then obtain st' t where g: "records_text env st2 rs st' t" "n = t2 + length t" "\<exists>c'. mst' = st'\<lparr>as_content := c'\<rparr>"
    using Cons.IH [OF rest [unfolded mst1] _ t2(2)] by blast
  have rt: "record_text env r st st2 (m @ b)" unfolding record_text_def using v st1(1) nm(1) m b by blast
  have "n = tot + length ((m @ b) @ t)"
    using g(2) t1(1) t2(1) tar_member_length [OF m] body_text_props(1) [OF b] by simp
  then show ?case using records_next [OF rt g(1)] g(3) by blast
qed

section \<open>The summary\<close>

lemma state_summary_content:
  "state_summary env (st\<lparr>as_content := c\<rparr>) =
     map_sum id (\<lambda>s. s\<lparr>cs_content_digest := ''sha256:'' @ env_sha env c\<rparr>) (state_summary env st)"
  by (simp add: state_summary_def)

lemma summary_canonical:
  "canonicalJson (summary_json s) =
     ''{'' @ quote ''content_digest'' @ '':'' @ quote (cs_content_digest s) @ '','' @ quote ''manifest_digest'' @ '':'' @
     quote (cs_manifest_digest s) @ '','' @ quote ''mounts'' @ '':'' @ canonicalJson (mounts_json (cs_mounts s)) @ ''}''"
  by (simp add: canonicalJson_def summary_json_def mounts_json_def)

lemma radix_not_escaped: "radix_digit 16 c \<Longrightarrow> escape_char c = [c]"
  by (auto simp: radix_digit_def hex_char_def escape_char_def Let_def split: if_splits option.splits)

lemma digest_quote_length:
  assumes "digest_text g"
  shows "length (quote g) = 73"
proof -
  have "g = ''sha256:'' @ drop 7 g" using assms by (metis append_take_drop_id digest_text_def)
  then obtain d where g: "g = ''sha256:'' @ d" "length d = 64" "list_all (radix_digit 16) d"
    using assms unfolding digest_text_def by fastforce
  have "concat (map escape_char d) = d" using g(3) by (induction d) (simp_all add: radix_not_escaped)
  then show ?thesis using g(1,2) by (simp add: quote_def escape_char_def)
qed

lemma summary_length:
  assumes "digest_text (cs_content_digest s)" and "digest_text g"
  shows "length (canonicalJson (summary_json (s\<lparr>cs_content_digest := g\<rparr>))) = length (canonicalJson (summary_json s))"
  unfolding summary_canonical using digest_quote_length assms by simp

lemma mounts_json_inj:
  assumes "canonicalJson (mounts_json a) = canonicalJson (mounts_json b)"
  shows "a = b"
proof -
  have "sortValue (mounts_json a) = sortValue (mounts_json b)"
    using assms parse_printed_canonical [OF document_defined [OF mounts_document]] by (metis option.inject)
  then have eq: "map (\<lambda>m. sortValue (mount_json m)) a = map (\<lambda>m. sortValue (mount_json m)) b"
    by (simp add: mounts_json_def o_def)
  show ?thesis
  proof (rule map_injective [OF eq])
    show "inj (\<lambda>m. sortValue (mount_json m))" by (rule injI) (metis mount_codec(2) option.inject)
  qed
qed

lemma summary_mounts: "state_summary env st = Inr s \<Longrightarrow> cs_mounts s = ch_mounts (as_header st)"
  using mounts_json_inj by (auto simp: state_summary_def split: if_splits)

lemma state_record_header: "state_record st e b = Inr st1 \<Longrightarrow> as_header st1 = as_header st"
  by (auto simp: state_record_def Let_def split: if_splits)

lemma record_text_header: "record_text env r st st' t \<Longrightarrow> as_header st' = as_header st"
  using state_record_header body_text_props(2) unfolding record_text_def by fastforce

lemma records_text_header: "records_text env st rs st' t \<Longrightarrow> as_header st' = as_header st"
  by (induction rule: records_text.induct) (simp_all add: record_text_header)

lemma summary_valid:
  assumes "\<And>x. digest_text (''sha256:'' @ env_sha env x)" and "archive_text env h rs s t"
  shows "valid_summary s"
proof -
  obtain st b c where h: "valid_header env h" and b: "records_text env (checkpointArchiveState h (canonicalJson (header_json h))) rs st b"
    and c: "archive_tail env st s c"
    using assms(2) unfolding archive_text_def by blast
  have s: "state_summary env st = Inr s" using c unfolding archive_tail_def by blast
  have "as_header st = h" using records_text_header [OF b] by (simp add: checkpointArchiveState_def)
  then have "valid_mounts (cs_mounts s)" using summary_mounts [OF s] h by (simp add: valid_header_def)
  moreover have "digest_text (cs_manifest_digest s)" "digest_text (cs_content_digest s)"
    using s assms(1) by (auto simp: state_summary_def split: if_splits)
  ultimately show ?thesis by (simp add: valid_summary_def)
qed

section \<open>Measuring an archive\<close>

lemma measure_archive_sound:
  assumes hex: "\<And>x. digest_text (''sha256:'' @ env_sha env x)" and m: "measureCheckpointArchive env h (map fst rs) = Inr n"
    and d: "list_all (carries env) rs"
  shows "\<exists>s t. archive_text env h rs s t \<and> length t = n \<and> n \<le> SAFE_INTEGER"
proof -
  let ?b = "canonicalJson (header_json h)" and ?st = "checkpointArchiveState h (canonicalJson (header_json h))"
  obtain first mst tot ms where v: "valid_header env h" "length ?b \<le> CHECKPOINT_DOCUMENT_BYTES"
    and f: "checkpointMemberBytes (length ?b) = Inr first" and e: "measure_entries env (map fst rs) (?st, first + 1024) = Inr (mst, tot)"
    and ms: "state_summary env mst = Inr ms" "length (canonicalJson (summary_json ms)) \<le> CHECKPOINT_DOCUMENT_BYTES"
    and n: "measure_member (length (canonicalJson (summary_json ms))) tot = Inr n"
    using m by (auto simp: measureCheckpointArchive_def)
  have first: "first = member_size (length ?b)" using f unfolding checkpointMemberBytes_iff by simp
  have "length ?b + 512 \<le> 33280" using v(2) by (simp add: CHECKPOINT_DOCUMENT_BYTES_def)
  then have "first \<le> 34000" unfolding first member_size_def by linarith
  then have "first + 1024 \<le> SAFE_INTEGER" by (simp add: SAFE_INTEGER_def)
  moreover have "?st\<lparr>as_content := as_content ?st\<rparr> = ?st" "as_entries ?st \<le> first + 1024" by (simp_all add: checkpointArchiveState_def)
  ultimately obtain st t c where r: "records_text env ?st rs st t" "tot = first + 1024 + length t" "mst = st\<lparr>as_content := c\<rparr>"
    using measure_records_sound [of env rs "as_content ?st" ?st "first + 1024" mst tot] e d by auto
  obtain s where s: "state_summary env st = Inr s" "ms = s\<lparr>cs_content_digest := ''sha256:'' @ env_sha env c\<rparr>"
    using ms(1) unfolding r(3) state_summary_content by (cases "state_summary env st") auto
  have "digest_text (cs_content_digest s)" using s(1) hex by (auto simp: state_summary_def split: if_splits)
  then have len: "length (canonicalJson (summary_json ms)) = length (canonicalJson (summary_json s))"
    unfolding s(2) by (rule summary_length [OF _ hex])
  have bound: "length ?b \<le> MAX_TAR_SIZE" "length (canonicalJson (summary_json s)) \<le> MAX_TAR_SIZE"
    using v(2) ms(2) len by (simp_all add: CHECKPOINT_DOCUMENT_BYTES_def MAX_TAR_SIZE_def)
  have names: "tar_name ''checkpoint.json''" "tar_name ''summary.json''" by (simp_all add: tar_name_iff tar_char_def)
  obtain a where a: "tar_member ''checkpoint.json'' ?b a" using tar_member_exists [OF names(1) _ bound(1)] by auto
  obtain z where z: "tar_member ''summary.json'' (canonicalJson (summary_json s)) z" using tar_member_exists [OF names(2) _ bound(2)] by auto
  have tail: "archive_tail env st s (z @ tar_end)" using s(1) ms(2) z unfolding archive_tail_def len by blast
  have "archive_text env h rs s (a @ t @ z @ tar_end)" using v a r(1) tail unfolding archive_text_def by blast
  moreover have "length (a @ t @ z @ tar_end) = n" "n \<le> SAFE_INTEGER"
    using n r(2) first tar_member_length [OF a] tar_member_length [OF z] len unfolding measure_member_iff by auto
  ultimately show ?thesis by blast
qed

lemma measure_archive_complete:
  assumes hex: "\<And>x. digest_text (''sha256:'' @ env_sha env x)" and t: "archive_text env h rs s t" and le: "length t \<le> SAFE_INTEGER"
  shows "measureCheckpointArchive env h (map fst rs) = Inr (length t)"
proof -
  let ?b = "canonicalJson (header_json h)" and ?st = "checkpointArchiveState h (canonicalJson (header_json h))"
  obtain m st b c where v: "valid_header env h" "length ?b \<le> CHECKPOINT_DOCUMENT_BYTES" and m: "tar_member ''checkpoint.json'' ?b m"
    and b: "records_text env ?st rs st b" and c: "archive_tail env st s c" and tt: "t = m @ b @ c"
    using t unfolding archive_text_def by blast
  obtain z where s: "state_summary env st = Inr s" "length (canonicalJson (summary_json s)) \<le> CHECKPOINT_DOCUMENT_BYTES"
    and z: "tar_member ''summary.json'' (canonicalJson (summary_json s)) z" "c = z @ tar_end"
    using c unfolding archive_tail_def by blast
  let ?f = "member_size (length ?b)"
  have len: "length t = ?f + length b + member_size (length (canonicalJson (summary_json s))) + 1024"
    using tt z(2) tar_member_length [OF m] tar_member_length [OF z(1)] by simp
  have "?st\<lparr>as_content := as_content ?st\<rparr> = ?st" by (simp add: checkpointArchiveState_def)
  moreover have "?f + 1024 + length b \<le> SAFE_INTEGER" using len le by simp
  ultimately obtain c' where e: "measure_entries env (map fst rs) (?st, ?f + 1024) = Inr (st\<lparr>as_content := c'\<rparr>, ?f + 1024 + length b)"
    using measure_records_complete [OF b, of "?f + 1024" "as_content ?st"] by auto
  let ?s = "s\<lparr>cs_content_digest := ''sha256:'' @ env_sha env c'\<rparr>"
  have ms: "state_summary env (st\<lparr>as_content := c'\<rparr>) = Inr ?s" by (simp add: state_summary_content s(1))
  have "digest_text (cs_content_digest s)" using s(1) hex by (auto simp: state_summary_def split: if_splits)
  then have sl: "length (canonicalJson (summary_json ?s)) = length (canonicalJson (summary_json s))" by (rule summary_length [OF _ hex])
  have "checkpointMemberBytes (length ?b) = Inr ?f" unfolding checkpointMemberBytes_iff using len le by simp
  moreover have "measure_member (length (canonicalJson (summary_json ?s))) (?f + 1024 + length b) = Inr (length t)"
    unfolding measure_member_iff sl using len le by simp
  ultimately show ?thesis using v e ms s(2) sl by (simp add: measureCheckpointArchive_def)
qed

end
