(* ===== verification/Checkpoint_Digest.thy ===== *)
theory Checkpoint_Digest
  imports Checkpoint_Size
begin

text \<open>
  What the content digest of an archive covers. The bytes that the content hash is fed are the frames of the header
  and of the entries, and the framed contents of the files; the frames make them an injective encoding of the
  header, the entries and the contents, whatever the sizes of tar members and of input chunks.
\<close>

section \<open>Frames\<close>

fun be_value :: "string \<Rightarrow> nat" where
  "be_value [] = 0"
| "be_value (c # s) = of_char c * 256 ^ length s + be_value s"

definition be_bytes :: "nat \<Rightarrow> nat \<Rightarrow> string" where
  "be_bytes k n = map (\<lambda>j. char_of (n div 256 ^ j mod 256)) (rev [0..<k])"

lemma be_value_bytes: "be_value (be_bytes k n) = n mod 256 ^ k"
proof (induction k)
  case (Suc k)
  have "be_bytes (Suc k) n = char_of (n div 256 ^ k mod 256) # be_bytes k n" by (simp add: be_bytes_def)
  moreover have "n mod 256 ^ Suc k = n div 256 ^ k mod 256 * 256 ^ k + n mod 256 ^ k"
    using mod_mult2_eq [of n "256 ^ k" 256] by (simp add: mult.commute)
  moreover have "length (be_bytes k n) = k" by (simp add: be_bytes_def)
  ultimately show ?case using Suc by simp
qed (simp add: be_bytes_def)

lemma u64be_bytes: "u64be n = be_bytes 8 n"
proof -
  have "rev [0..<8] = [7, 6, 5, 4, 3, 2, 1, 0 :: nat]" by code_simp
  then show ?thesis unfolding be_bytes_def u64be_def by (simp only:)
qed

lemma u64be_length [simp]: "length (u64be n) = 8"
  unfolding u64be_def length_map by simp

lemma be_value_u64be:
  assumes "n \<le> SAFE_INTEGER"
  shows "be_value (u64be n) = n"
proof -
  have "n < 256 ^ 8" using assms by (simp add: SAFE_INTEGER_def)
  then show ?thesis unfolding u64be_bytes be_value_bytes by (rule mod_less)
qed

lemma u64be_inject: "u64be n = u64be m \<Longrightarrow> n \<le> SAFE_INTEGER \<Longrightarrow> m \<le> SAFE_INTEGER \<Longrightarrow> n = m"
  by (metis be_value_u64be)

lemma hash_frame_prefix:
  assumes "hash_frame a @ r = hash_frame b @ r'" and "length a \<le> SAFE_INTEGER" and "length b \<le> SAFE_INTEGER"
  shows "a = b \<and> r = r'"
proof -
  have "u64be (length a) @ a @ r = u64be (length b) @ b @ r'" using assms(1) by (simp add: hash_frame_def)
  then have "u64be (length a) = u64be (length b)" "a @ r = b @ r'" by (simp_all add: append_eq_append_conv)
  moreover from this have "length a = length b" using u64be_inject assms(2,3) by blast
  ultimately show ?thesis by simp
qed

section \<open>The stream of the content hash\<close>

definition content_record :: "checkpoint_entry \<times> string \<Rightarrow> string" where
  "content_record r = hash_frame (canonicalJson (entry_json (fst r))) @
     (case ce_kind (fst r) of File n g \<Rightarrow> u64be n @ snd r | _ \<Rightarrow> [])"

definition content_stream :: "(checkpoint_entry \<times> string) list \<Rightarrow> string" where
  "content_stream rs = concat (map content_record rs)"

lemma state_record_as_content: "state_record st e b = Inr st1 \<Longrightarrow> as_content st1 = as_content st @ hash_frame b"
  by (auto simp: state_record_def Let_def split: if_splits)

lemma record_content:
  assumes "record_text env r st st' t"
  shows "as_content st' = as_content st @ content_record r" "carries env r"
    "length (canonicalJson (entry_json (fst r))) \<le> CHECKPOINT_ENTRY_BYTES" "valid_entry env (fst r)"
proof -
  let ?d = "canonicalJson (entry_json (fst r))"
  obtain st1 b where st1: "state_record st (fst r) ?d = Inr st1" and b: "body_text env (fst r) (snd r) st1 st' b"
    and v: "length ?d \<le> CHECKPOINT_ENTRY_BYTES" "valid_entry env (fst r)"
    using assms unfolding record_text_def by blast
  show "length ?d \<le> CHECKPOINT_ENTRY_BYTES" "valid_entry env (fst r)" by (rule v)+
  show "carries env r" using body_text_props(3) [OF b] by simp
  show "as_content st' = as_content st @ content_record r"
    using state_record_as_content [OF st1] b
    by (cases "ce_kind (fst r)") (auto simp: body_text_def content_record_def state_payload_def beginPayload_def)
qed

definition streamable :: "checkpoint_env \<Rightarrow> checkpoint_entry \<times> string \<Rightarrow> bool" where
  "streamable env r \<longleftrightarrow> carries env r \<and> length (canonicalJson (entry_json (fst r))) \<le> SAFE_INTEGER"

lemma records_content: "records_text env st rs st' t \<Longrightarrow> as_content st' = as_content st @ content_stream rs \<and> list_all (streamable env) rs"
proof (induction rule: records_text.induct)
  case (records_next r st st1 a rs st' b)
  note p = record_content [OF records_next.hyps(1)]
  have "length (canonicalJson (entry_json (fst r))) \<le> SAFE_INTEGER" using p(3) by (simp add: CHECKPOINT_ENTRY_BYTES_def SAFE_INTEGER_def)
  then show ?case using p records_next.IH by (simp add: content_stream_def streamable_def)
qed (simp add: content_stream_def)

lemma entry_json_inj: "canonicalJson (entry_json a) = canonicalJson (entry_json b) \<Longrightarrow> a = b"
  using entry_doc.checkpointDocument_iff [of "\<lambda>_. True" "[]" "canonicalJson (entry_json a)"] by (metis Inr_inject)

lemma header_json_inj: "canonicalJson (header_json a) = canonicalJson (header_json b) \<Longrightarrow> a = b"
  using header_doc.checkpointDocument_iff [of "\<lambda>_. True" "[]" "canonicalJson (header_json a)"] by (metis Inr_inject)

lemma content_record_prefix:
  assumes "content_record a @ r = content_record b @ r'" and "streamable env a" and "streamable env b"
  shows "a = b \<and> r = r'"
proof -
  let ?k = "\<lambda>x. case ce_kind (fst x) of File n g \<Rightarrow> u64be n @ snd x | _ \<Rightarrow> []"
  have "canonicalJson (entry_json (fst a)) = canonicalJson (entry_json (fst b)) \<and> ?k a @ r = ?k b @ r'"
    using hash_frame_prefix [of _ "?k a @ r" _ "?k b @ r'"] assms unfolding content_record_def streamable_def append_assoc by blast
  then have e: "fst a = fst b" and k: "?k a @ r = ?k b @ r'" using entry_json_inj by blast+
  have "snd a = snd b \<and> r = r'"
  proof (cases "ce_kind (fst b)")
    case (File n g)
    then have "length (snd a) = length (snd b)" using assms(2,3) e by (simp add: streamable_def carries_def)
    then show ?thesis using k File e by simp
  qed (use k e assms(2,3) in \<open>simp_all add: streamable_def carries_def\<close>)
  then show ?thesis using e by (auto intro: prod_eqI)
qed

lemma content_record_nonempty: "content_record r \<noteq> []"
proof
  assume "content_record r = []"
  then have "u64be (length (canonicalJson (entry_json (fst r)))) = []" unfolding content_record_def hash_frame_def append_is_Nil_conv by blast
  then show False by (metis u64be_length list.size(3) zero_neq_numeral)
qed

lemma content_stream_inject:
  "content_stream rs = content_stream ss \<Longrightarrow> list_all (streamable env) rs \<Longrightarrow> list_all (streamable env) ss \<Longrightarrow> rs = ss"
proof (induction rs arbitrary: ss)
  case Nil
  then show ?case using content_record_nonempty by (cases ss) (auto simp: content_stream_def)
next
  case (Cons r rs)
  then obtain s ss' where ss: "ss = s # ss'" using content_record_nonempty [of r] by (cases ss) (auto simp: content_stream_def)
  have "content_record r @ content_stream rs = content_record s @ content_stream ss'"
    using Cons.prems(1) ss by (simp add: content_stream_def)
  then have "r = s \<and> content_stream rs = content_stream ss'"
    using content_record_prefix [of r _ s _ env] Cons.prems(2,3) ss by simp
  then show ?case using Cons.IH Cons.prems(2,3) ss by simp
qed

text \<open>The content digest of a text of the grammar is the hash of the framed header followed by the stream.\<close>

lemma archive_content:
  assumes "archive_text env h rs s t"
  shows "cs_content_digest s = ''sha256:'' @ env_sha env (hash_frame (canonicalJson (header_json h)) @ content_stream rs)"
    "list_all (streamable env) rs" "length (canonicalJson (header_json h)) \<le> SAFE_INTEGER"
proof -
  let ?b = "canonicalJson (header_json h)"
  obtain st b c where l: "length ?b \<le> CHECKPOINT_DOCUMENT_BYTES" and b: "records_text env (checkpointArchiveState h ?b) rs st b"
    and c: "archive_tail env st s c"
    using assms unfolding archive_text_def by blast
  show "list_all (streamable env) rs" using records_content [OF b] by blast
  show "length ?b \<le> SAFE_INTEGER" using l by (simp add: CHECKPOINT_DOCUMENT_BYTES_def SAFE_INTEGER_def)
  have "state_summary env st = Inr s" using c unfolding archive_tail_def by blast
  then have "cs_content_digest s = ''sha256:'' @ env_sha env (as_content st)" by (auto simp: state_summary_def split: if_splits)
  then show "cs_content_digest s = ''sha256:'' @ env_sha env (hash_frame ?b @ content_stream rs)"
    using records_content [OF b] by (simp add: checkpointArchiveState_def)
qed

end
