(* ===== verification/Entry_Graph.thy ===== *)
theory Entry_Graph
  imports Checkpoint_Format
begin

text \<open>
  The graph of the entries of a checkpoint (\<^verbatim>\<open>packages/contracts/src/checkpoints/entry-graph.ts\<close>): the parents of an
  entry are directories, and a link resolves inside its mount. The lookup of an entry by mount and path is an
  argument.
\<close>

type_synonym entry_lookup = "nat \<Rightarrow> string \<Rightarrow> checkpoint_entry option"

fun parent_walk :: "entry_lookup \<Rightarrow> nat \<Rightarrow> string \<Rightarrow> string list \<Rightarrow> js_error + unit" where
  "parent_walk lookup m parent [] = Inr ()"
| "parent_walk lookup m parent (part # parts) =
     (let p = (if parent \<noteq> [] then parent @ ''/'' @ part else part)
      in if map_option ce_kind (lookup m p) \<noteq> Some Directory
         then Inl (PlainError ''Checkpoint entry parent is missing or is not a directory.'')
         else parent_walk lookup m p parts)"

definition validateParents :: "entry_lookup \<Rightarrow> checkpoint_entry \<Rightarrow> js_error + unit" where
  "validateParents lookup e = parent_walk lookup (ce_mount e) [] (butlast (split_slash (ce_path e)))"

definition checkLink :: "string \<Rightarrow> string \<Rightarrow> js_error + unit" where
  "checkLink path target = guardE (\<not> safeCheckpointLink path target) (PlainError ''Checkpoint link escapes its mount.'')"

definition link_at :: "entry_lookup \<Rightarrow> nat \<Rightarrow> string \<Rightarrow> (string \<times> string) option" where
  "link_at lookup m path =
     (case lookup m path of
        Some e \<Rightarrow> (case ce_kind e of Symlink n g t \<Rightarrow> Some (ce_path e, t) | _ \<Rightarrow> None)
      | None \<Rightarrow> None)"

text \<open>The loop of \<open>validateLinkChain\<close>: it ends because every link it follows counts towards 64, and between two
  links the pending parts get fewer.\<close>

function link_walk :: "entry_lookup \<Rightarrow> nat \<Rightarrow> string list \<Rightarrow> string list \<Rightarrow> nat \<Rightarrow> js_error + unit" where
  "link_walk lookup m resolved [] links = Inr ()"
| "link_walk lookup m resolved (part # pending) links =
     (if part = [] \<or> part = ''.'' then link_walk lookup m resolved pending links
      else if part = ''..'' then
        (if resolved = [] then Inl (PlainError ''Checkpoint link chain escapes its mount.'')
         else link_walk lookup m (butlast resolved) pending links)
      else
        (case link_at lookup m (join_with ''/'' (resolved @ [part])) of
           Some (p, t) \<Rightarrow>
             if 64 < links + 1 then Inl (PlainError ''Checkpoint link cycle or chain exceeds 64 hops.'')
             else bindE (checkLink p t) (\<lambda>_. link_walk lookup m resolved (split_slash t @ pending) (links + 1))
         | None \<Rightarrow> link_walk lookup m (resolved @ [part]) pending links))"
  by pat_completeness auto
termination
  by (relation "measures [\<lambda>(lookup, m, r, p, links). 64 - links, \<lambda>(lookup, m, r, p, links). length p]") auto

definition validateLinkChain :: "entry_lookup \<Rightarrow> checkpoint_entry \<Rightarrow> string \<Rightarrow> js_error + unit" where
  "validateLinkChain lookup e target =
     bindE (checkLink (ce_path e) target) (\<lambda>_.
       let parent = posix_dirname (ce_path e); resolved = (if parent = ''.'' then [] else split_slash parent)
       in link_walk lookup (ce_mount e) resolved (split_slash target) 0)"

definition validateCheckpointEntryGraph :: "entry_lookup \<Rightarrow> checkpoint_entry \<Rightarrow> js_error + unit" where
  "validateCheckpointEntryGraph lookup e =
     bindE (validateParents lookup e) (\<lambda>_.
       case ce_kind e of Symlink n g t \<Rightarrow> validateLinkChain lookup e t | _ \<Rightarrow> Inr ())"

section \<open>Resolution of a path by the filesystem\<close>

text \<open>\<open>resolves lookup m n at pending at'\<close>: from the directory \<open>at\<close>, the parts \<open>pending\<close> lead to \<open>at'\<close> after following
  \<open>n\<close> links, each of which passes the check of a link, and never above the root of the mount.\<close>

inductive resolves :: "entry_lookup \<Rightarrow> nat \<Rightarrow> nat \<Rightarrow> string list \<Rightarrow> string list \<Rightarrow> string list \<Rightarrow> bool" for lookup m where
  resolved_end: "resolves lookup m 0 at [] at"
| resolved_skip: "part = [] \<or> part = ''.'' \<Longrightarrow> resolves lookup m n at ps to \<Longrightarrow> resolves lookup m n at (part # ps) to"
| resolved_up: "resolves lookup m n at ps to \<Longrightarrow> resolves lookup m n (at @ [d]) (''..'' # ps) to"
| resolved_link: "safe_part part \<Longrightarrow> link_at lookup m (join_with ''/'' (at @ [part])) = Some (p, t) \<Longrightarrow>
    safeCheckpointLink p t \<Longrightarrow> resolves lookup m n at (split_slash t @ ps) to \<Longrightarrow> resolves lookup m (Suc n) at (part # ps) to"
| resolved_name: "safe_part part \<Longrightarrow> link_at lookup m (join_with ''/'' (at @ [part])) = None \<Longrightarrow>
    resolves lookup m n (at @ [part]) ps to \<Longrightarrow> resolves lookup m n at (part # ps) to"

inductive_cases resolves_nilE: "resolves lookup m n at [] to"
inductive_cases resolves_consE: "resolves lookup m n at (part # ps) to"

lemma link_walk_sound:
  "link_walk lookup m at ps links = Inr u \<Longrightarrow> links \<le> 64 \<Longrightarrow> \<exists>n to. resolves lookup m n at ps to \<and> links + n \<le> 64"
proof (induction lookup m at ps links rule: link_walk.induct)
  case (1 lookup m at links)
  then show ?case using resolved_end [of lookup m at] by (intro exI [of _ 0] exI [of _ at]) simp
next
  case (2 lookup m at part ps links)
  consider (skip) "part = [] \<or> part = ''.''" | (up) "part = ''..''"
    | (link) p t where "safe_part part" "link_at lookup m (join_with ''/'' (at @ [part])) = Some (p, t)"
    | (name) "safe_part part" "link_at lookup m (join_with ''/'' (at @ [part])) = None"
    unfolding safe_part_def by (cases "link_at lookup m (join_with ''/'' (at @ [part]))") auto
  then show ?case
  proof cases
    case skip
    then show ?thesis using 2 resolved_skip [OF skip] by (metis link_walk.simps(2))
  next
    case up
    then have "at \<noteq> []" "link_walk lookup m (butlast at) ps links = Inr u" using "2.prems"(1) by (auto split: if_splits)
    then obtain n to where r: "resolves lookup m n (butlast at) ps to" "links + n \<le> 64" using "2.IH"(2) "2.prems"(2) up by auto
    have "resolves lookup m n (butlast at @ [last at]) (''..'' # ps) to" by (rule resolved_up [OF r(1)])
    then show ?thesis using \<open>at \<noteq> []\<close> r(2) up by auto
  next
    case link
    then have ok: "links < 64" "safeCheckpointLink p t" "link_walk lookup m at (split_slash t @ ps) (links + 1) = Inr u"
      using "2.prems"(1) by (auto simp: safe_part_def checkLink_def split: if_splits)
    then obtain n to where r: "resolves lookup m n at (split_slash t @ ps) to" "links + 1 + n \<le> 64"
      using "2.IH"(4) [OF _ _ link(2)] link(1) by (auto simp: safe_part_def checkLink_def guardE_def)
    then show ?thesis using resolved_link [OF link ok(2) r(1)] by (intro exI [of _ "Suc n"] exI [of _ to]) simp
  next
    case name
    then have "link_walk lookup m (at @ [part]) ps links = Inr u" using "2.prems"(1) by (simp add: safe_part_def)
    then obtain n to where r: "resolves lookup m n (at @ [part]) ps to" "links + n \<le> 64"
      using "2.IH"(3) name "2.prems"(2) by (auto simp: safe_part_def)
    then show ?thesis using resolved_name [OF name r(1)] by blast
  qed
qed

lemma link_walk_complete:
  "resolves lookup m n at ps to \<Longrightarrow> links + n \<le> 64 \<Longrightarrow> link_walk lookup m at ps links = Inr ()"
  by (induction arbitrary: links rule: resolves.induct) (auto simp: safe_part_def checkLink_def guardE_def)

lemma link_walk_iff: "link_walk lookup m at ps 0 = Inr () \<longleftrightarrow> (\<exists>n to. resolves lookup m n at ps to \<and> n \<le> 64)"
  using link_walk_sound [of lookup m at ps 0 "()"] link_walk_complete [of lookup m _ at ps _ 0] by auto

lemma resolves_safe: "resolves lookup m n at ps to \<Longrightarrow> list_all safe_part at \<Longrightarrow> list_all safe_part to"
  by (induction rule: resolves.induct) auto

lemma resolves_unique: "resolves lookup m n at ps to \<Longrightarrow> resolves lookup m n' at ps to' \<Longrightarrow> n = n' \<and> to = to'"
proof (induction arbitrary: n' rule: resolves.induct)
  case (resolved_end at)
  then show ?case by (auto elim: resolves_nilE)
next
  case (resolved_skip part n at ps to)
  then show ?case by (auto simp: safe_part_def elim: resolves_consE)
next
  case (resolved_up n at ps to d)
  from resolved_up.prems show ?case by (rule resolves_consE) (use resolved_up.IH in \<open>auto simp: safe_part_def\<close>)
next
  case (resolved_link part at p t n ps to)
  from resolved_link.prems show ?case by (rule resolves_consE) (use resolved_link in \<open>auto simp: safe_part_def\<close>)
next
  case (resolved_name part at n ps to)
  from resolved_name.prems show ?case by (rule resolves_consE) (use resolved_name in \<open>auto simp: safe_part_def\<close>)
qed

lemma join_snoc: "join_with sep (xs @ [x]) = (if xs = [] then x else join_with sep xs @ sep @ x)"
  by (induction sep xs rule: join_with.induct) simp_all

lemma join_safe_nonempty: "list_all safe_part xs \<Longrightarrow> join_with sep xs = [] \<longleftrightarrow> xs = []"
  by (induction sep xs rule: join_with.induct) (auto simp: safe_part_def)

lemma parent_walk_iff:
  "list_all safe_part (pre @ parts) \<Longrightarrow>
   parent_walk lookup m (join_with ''/'' pre) parts = Inr () \<longleftrightarrow>
     (\<forall>k < length parts. map_option ce_kind (lookup m (join_with ''/'' (pre @ take (Suc k) parts))) = Some Directory)"
proof (induction parts arbitrary: pre)
  case (Cons part parts)
  have p: "(if join_with ''/'' pre \<noteq> [] then join_with ''/'' pre @ ''/'' @ part else part) = join_with ''/'' (pre @ [part])"
    using Cons.prems join_safe_nonempty [of pre "''/''"] by (simp add: join_snoc)
  have "parent_walk lookup m (join_with ''/'' (pre @ [part])) parts = Inr () \<longleftrightarrow>
      (\<forall>k < length parts. map_option ce_kind (lookup m (join_with ''/'' ((pre @ [part]) @ take (Suc k) parts))) = Some Directory)"
    using Cons.IH [of "pre @ [part]"] Cons.prems by simp
  then show ?case unfolding parent_walk.simps p Let_def by (auto simp: less_Suc_eq_0_disj)
qed simp

section \<open>The directory of an entry\<close>

lemma split_slash_nonempty [simp]: "split_slash s \<noteq> []"
  by (cases s) (auto split: list.splits)

lemma split_slash_no_slash: "p \<in> set (split_slash s) \<Longrightarrow> CHR ''/'' \<notin> set p"
proof (induction s arbitrary: p)
  case (Cons c s)
  then show ?case by (cases "split_slash s") (auto split: if_splits)
qed simp

lemma split_slash_atom: "CHR ''/'' \<notin> set p \<Longrightarrow> split_slash p = [p]"
  by (induction p) auto

lemma split_slash_append: "CHR ''/'' \<notin> set p \<Longrightarrow> split_slash (p @ CHR ''/'' # s) = p # split_slash s"
  by (induction p) auto

lemma split_slash_join: "xs \<noteq> [] \<Longrightarrow> \<forall>p \<in> set xs. CHR ''/'' \<notin> set p \<Longrightarrow> split_slash (join_with ''/'' xs) = xs"
  by (induction "''/''" xs rule: join_with.induct) (simp_all add: split_slash_atom split_slash_append)

lemma dirname_parts:
  assumes "list_all safe_part (split_slash path)"
  shows "(if posix_dirname path = ''.'' then [] else split_slash (posix_dirname path)) = butlast (split_slash path)"
proof (cases "length (split_slash path) < 2")
  case True
  then have "butlast (split_slash path) = []" by (cases "split_slash path") (auto simp: less_Suc_eq)
  then show ?thesis using True by (simp add: posix_dirname_def)
next
  case False
  let ?d = "butlast (split_slash path)"
  have ne: "?d \<noteq> []" using False by (cases "split_slash path") auto
  have "\<forall>p \<in> set ?d. CHR ''/'' \<notin> set p" using split_slash_no_slash in_set_butlastD by metis
  then have sj: "split_slash (join_with ''/'' ?d) = ?d" by (rule split_slash_join [OF ne])
  have "join_with ''/'' ?d \<noteq> ''.''"
  proof
    assume "join_with ''/'' ?d = ''.''"
    then have "?d = [''.'']" using sj split_slash_atom [of "''.''"] by simp
    then have "''.'' \<in> set (split_slash path)" using in_set_butlastD [of "''.''" "split_slash path"] by simp
    then show False using assms by (auto simp: list_all_iff safe_part_def)
  qed
  then show ?thesis using False sj by (simp add: posix_dirname_def)
qed

end
