(* ===== verification/Checkpoint_Theorems.thy ===== *)
theory Checkpoint_Theorems
  imports Checkpoint_Digest Entry_Graph
begin

text \<open>
  The properties of checkpoint archives: what the writer writes is read back, what the reader accepts is what the
  writer writes, the measured size is the written size, the content digest binds the content, and a link that is
  accepted resolves inside its mount.
\<close>

section \<open>Properties\<close>

text \<open>
  C30. A tar header is read back as the name and size it was written for, and only the header that the writer produces
  for a name and a size is read as that name and size: every other block of bytes is refused.
\<close>
theorem tar_header_round_trip:
  "parseCheckpointTarHeader h = Inr (name, sz) \<longleftrightarrow> checkpointTarHeader name sz = Inr h"
  by (rule parse_tar_header_iff)

text \<open>
  C25. An archive that was written is read back: when the writer produced the bytes \<open>t\<close> within a reservation, the reader
  accepts them within the same reservation, however the transport cuts them into chunks, and returns the header, the
  entries with the contents that the sources delivered, and the size and digest of the bytes. The hypothesis on
  \<open>env_sha\<close> says that SHA-256 prints as 64 hexadecimal digits.
\<close>
theorem archive_round_trip:
  assumes hex: "\<And>x. digest_text (''sha256:'' @ env_sha env x)"
    and wr: "writeCheckpointArchive env h ps mx = Inr t"
    and cut: "concat chunks = t"
  shows "\<exists>rs s. sources rs ps \<and> readCheckpointArchive env chunks mx =
    Inr \<lparr> ar_header = h, ar_entries = rs, ar_summary = s, ar_bytes = length t, ar_digest = ''sha256:'' @ env_sha env t \<rparr>"
proof -
  obtain rs s where g: "mx \<le> SAFE_INTEGER" "length t \<le> mx" "sources rs ps" "archive_text env h rs s t"
    using wr unfolding write_archive_iff by blast
  have "valid_summary s" by (rule summary_valid [OF hex g(4)])
  then have "readCheckpointArchive env chunks mx =
      Inr \<lparr> ar_header = h, ar_entries = rs, ar_summary = s, ar_bytes = length t, ar_digest = ''sha256:'' @ env_sha env t \<rparr>"
    using g unfolding read_archive_iff cut by simp
  then show ?thesis using g(3) by blast
qed

text \<open>
  C26. The reader accepts only canonical archives: when it returns a header and entries with their contents, writing
  that header and those entries, with contents delivered in any chunks, produces exactly the bytes that were read. So
  no other bytes are accepted for the same checkpoint: reordered members, other padding, noncanonical documents,
  trailing data and wrong digests are all refused.
\<close>
theorem accepted_archive_is_canonical:
  assumes "readCheckpointArchive env chunks mx = Inr r" and "sources (ar_entries r) ps"
  shows "writeCheckpointArchive env (ar_header r) ps mx = Inr (concat chunks)"
proof -
  have "mx \<le> SAFE_INTEGER" "length (concat chunks) \<le> mx"
    "archive_text env (ar_header r) (ar_entries r) (ar_summary r) (concat chunks)"
    using assms(1) unfolding read_archive_iff by simp_all
  then show ?thesis using assms(2) unfolding write_archive_iff by blast
qed

lemma sources_fst: "sources rs ps \<Longrightarrow> map fst rs = map fst ps"
  unfolding sources_def by (induction rule: list_all2_induct) simp_all

text \<open>
  C27. The size measured from the header and the entries alone, without reading any content, is exactly the size that
  is written: with sources that deliver the declared contents, the writer produces an archive of \<open>n\<close> bytes within a
  reservation if and only if the measurement gives \<open>n\<close> and the reservation has room for \<open>n\<close> bytes.
\<close>
theorem measured_size_is_exact:
  assumes hex: "\<And>x. digest_text (''sha256:'' @ env_sha env x)" and "mx \<le> SAFE_INTEGER"
    and src: "sources rs ps" and data: "list_all (carries env) rs"
  shows "(\<exists>t. writeCheckpointArchive env h ps mx = Inr t \<and> length t = n) \<longleftrightarrow>
    measureCheckpointArchive env h (map fst ps) = Inr n \<and> n \<le> mx"
proof
  assume "\<exists>t. writeCheckpointArchive env h ps mx = Inr t \<and> length t = n"
  then obtain t rs' s where t: "length t = n" "length t \<le> mx" "sources rs' ps" "archive_text env h rs' s t"
    unfolding write_archive_iff by blast
  have "length t \<le> SAFE_INTEGER" using t(2) assms(2) by linarith
  then show "measureCheckpointArchive env h (map fst ps) = Inr n \<and> n \<le> mx"
    using measure_archive_complete [OF hex t(4)] sources_fst [OF t(3)] t(1,2) by simp
next
  assume m: "measureCheckpointArchive env h (map fst ps) = Inr n \<and> n \<le> mx"
  then have "measureCheckpointArchive env h (map fst rs) = Inr n" using sources_fst [OF src] by simp
  then obtain s t where "archive_text env h rs s t" "length t = n" using measure_archive_sound [OF hex _ data] by blast
  then show "\<exists>t. writeCheckpointArchive env h ps mx = Inr t \<and> length t = n"
    using m assms(2) src unfolding write_archive_iff by blast
qed


text \<open>
  C29. The check of the entry graph accepts an entry exactly when every proper parent path is recorded as a directory
  and, for a link, the check of the link passes and the filesystem resolves its target from the directory of the
  link, following at most 64 further links, each checked, without ever leaving the mount: the resolved path has no
  empty, \<open>.\<close> or \<open>..\<close> part. In particular the check ends on every graph, cyclic ones included.
\<close>
theorem entry_graph_is_resolution:
  assumes "safeCheckpointPath env (ce_path e)"
  shows "validateCheckpointEntryGraph lookup e = Inr () \<longleftrightarrow>
    (\<forall>k < length (split_slash (ce_path e)) - 1.
       map_option ce_kind (lookup (ce_mount e) (join_with ''/'' (take (Suc k) (split_slash (ce_path e))))) = Some Directory)
    \<and> (case ce_kind e of
         Symlink n g t \<Rightarrow> safeCheckpointLink (ce_path e) t \<and>
           (\<exists>k to. k \<le> 64 \<and> resolves lookup (ce_mount e) k (butlast (split_slash (ce_path e))) (split_slash t) to \<and> list_all safe_part to)
       | _ \<Rightarrow> True)"
proof -
  let ?ps = "split_slash (ce_path e)"
  have safe: "list_all safe_part ?ps" using assms by (simp add: safeCheckpointPath_def)
  then have but: "list_all safe_part (butlast ?ps)" by (auto simp: list_all_iff dest: in_set_butlastD)
  have "take (Suc k) (butlast ?ps) = take (Suc k) ?ps" if "k < length ?ps - 1" for k
    using that by (simp add: take_butlast)
  then have parents: "validateParents lookup e = Inr () \<longleftrightarrow> (\<forall>k < length ?ps - 1.
      map_option ce_kind (lookup (ce_mount e) (join_with ''/'' (take (Suc k) ?ps))) = Some Directory)"
    using parent_walk_iff [of "[]" "butlast ?ps" lookup "ce_mount e"] but by (simp add: validateParents_def)
  have chain: "validateLinkChain lookup e t = Inr () \<longleftrightarrow> safeCheckpointLink (ce_path e) t \<and>
      (\<exists>k to. k \<le> 64 \<and> resolves lookup (ce_mount e) k (butlast ?ps) (split_slash t) to \<and> list_all safe_part to)" for t
    unfolding validateLinkChain_def Let_def dirname_parts [OF safe]
    using resolves_safe [OF _ but] by (simp add: checkLink_def link_walk_iff) blast
  show ?thesis
    by (cases "ce_kind e") (auto simp: validateCheckpointEntryGraph_def parents chain)
qed

section \<open>A small checkpoint\<close>

definition ex_env :: checkpoint_env where
  "ex_env = \<lparr> env_sha = (\<lambda>_. replicate 64 (CHR ''a'')), env_uuid = (\<lambda>s. length s = 36), env_nfc = (\<lambda>_. True) \<rparr>"

definition ex_digest :: string where
  "ex_digest = ''sha256:'' @ replicate 64 (CHR ''a'')"

definition ex_header :: checkpoint_header where
  "ex_header = \<lparr> ch_checkpoint_id = replicate 36 (CHR ''1''), ch_workspace_id = replicate 36 (CHR ''2''),
     ch_template_digest = ex_digest, ch_mounts = [\<lparr> cm_name = ''data'', cm_logical_bytes = 3, cm_file_count = 2 \<rparr>] \<rparr>"

definition ex_directory :: checkpoint_entry where
  "ex_directory = \<lparr> ce_mount = 0, ce_path = ''d'', ce_mode = 493, ce_mtime_ns = ''0'', ce_kind = Directory \<rparr>"

definition ex_file :: checkpoint_entry where
  "ex_file = \<lparr> ce_mount = 0, ce_path = ''d/f'', ce_mode = 420, ce_mtime_ns = ''17'', ce_kind = File 3 ex_digest \<rparr>"

definition ex_link :: checkpoint_entry where
  "ex_link = \<lparr> ce_mount = 0, ce_path = ''d/l'', ce_mode = 511, ce_mtime_ns = ''17'', ce_kind = Symlink 6 ex_digest ''../d/f'' \<rparr>"

definition ex_entries :: "(checkpoint_entry \<times> string) list" where
  "ex_entries = [(ex_directory, []), (ex_file, ''abc'')]"

definition ex_sources :: "(checkpoint_entry \<times> string list option) list" where
  "ex_sources = [(ex_directory, None), (ex_file, Some [''a'', ''bc''])]"

lemma ex_hex: "digest_text (''sha256:'' @ env_sha ex_env x)"
proof -
  have "env_sha ex_env x = replicate 64 (CHR ''a'')" by (simp only: ex_env_def checkpoint_env.simps)
  moreover have "digest_text (''sha256:'' @ replicate 64 (CHR ''a''))" by code_simp
  ultimately show ?thesis by (simp only:)
qed

lemma ex_digest_text: "digest_text ex_digest"
  by code_simp

lemma ex_header_valid: "valid_header ex_env ex_header"
  by (simp add: valid_header_def ex_header_def ex_env_def ex_digest_text valid_mounts_def mount_name_def alphanumeric_def SAFE_INTEGER_def)

lemma ex_entries_valid: "valid_entry ex_env ex_directory" "valid_entry ex_env ex_file"
  by (simp_all add: valid_entry_def ex_directory_def ex_file_def ex_digest_text safeCheckpointPath_def validUnicode_def
      safe_part_def ns_text_def is_digit_def ex_env_def SAFE_INTEGER_def)

definition ex_summary :: checkpoint_summary where
  "ex_summary = \<lparr> cs_mounts = ch_mounts ex_header, cs_manifest_digest = ex_digest, cs_content_digest = ex_digest \<rparr>"

lemma ex_lengths:
  "length (canonicalJson (header_json ex_header)) = 303" "length (canonicalJson (entry_json ex_directory)) = 76"
  "length (canonicalJson (entry_json ex_file)) = 157" "length (canonicalJson (summary_json ex_summary)) = 244"
  by code_simp+

lemma ex_records:
  assumes "st = checkpointArchiveState ex_header b"
  shows "\<exists>s1. state_record st ex_directory x = Inr s1 \<and> (\<exists>s2. state_record s1 ex_file y = Inr s2 \<and> state_summary ex_env s2 = Inr ex_summary)"
  unfolding assms
  by (simp add: state_record_def checkpointArchiveState_def ex_header_def ex_directory_def ex_file_def SAFE_INTEGER_def
      state_summary_def ex_summary_def ex_env_def ex_digest_def Let_def numeral_2_eq_2)

lemma ex_measure: "measureCheckpointArchive ex_env ex_header [ex_directory, ex_file] = Inr 6144"
proof -
  let ?st = "checkpointArchiveState ex_header (canonicalJson (header_json ex_header))"
  obtain s1 s2 where r: "state_record ?st ex_directory (canonicalJson (entry_json ex_directory)) = Inr s1"
    "state_record s1 ex_file (canonicalJson (entry_json ex_file)) = Inr s2" "state_summary ex_env s2 = Inr ex_summary"
    using ex_records [OF HOL.refl] by blast
  have k: "ce_kind ex_directory = Directory" "ce_kind ex_file = File 3 ex_digest" by (simp_all add: ex_directory_def ex_file_def)
  have p: "payload_size 3 = 1024" by (simp add: payload_size_def CHECKPOINT_PAYLOAD_BYTES_def member_size_def)
  have m: "measure_payload Directory t = Inr t" for t by (simp add: measure_payload_def)
  have f: "measure_payload (File 3 ex_digest) 4096 = Inr 5120"
    using measure_payload_iff [of 4096 "File 3 ex_digest" 5120] p by (simp add: SAFE_INTEGER_def)
  have c: "checkpointMemberBytes 303 = Inr 1024" "measure_member 76 2048 = Inr 3072" "measure_member 157 3072 = Inr 4096"
    "measure_member 244 5120 = Inr 6144"
    by (simp_all add: checkpointMemberBytes_iff measure_member_iff member_size_def SAFE_INTEGER_def)
  show ?thesis
    by (simp add: measureCheckpointArchive_def limited_document_def ex_header_valid ex_entries_valid ex_lengths r k m f c
        CHECKPOINT_DOCUMENT_BYTES_def CHECKPOINT_ENTRY_BYTES_def guardE_simps)
qed

lemma ex_sourced: "sources ex_entries ex_sources" "list_all (carries ex_env) ex_entries"
  by (simp_all add: sources_def ex_entries_def ex_sources_def payload_of_def carries_def ex_directory_def ex_file_def ex_env_def ex_digest_def)

lemma ex_fst: "map fst ex_sources = [ex_directory, ex_file]"
  by (simp add: ex_sources_def)

lemma ex_written: "\<exists>t. writeCheckpointArchive ex_env ex_header ex_sources 6144 = Inr t \<and> length t = 6144"
proof -
  have "measureCheckpointArchive ex_env ex_header (map fst ex_entries) = Inr 6144" using ex_measure by (simp add: ex_entries_def)
  then obtain s t where "archive_text ex_env ex_header ex_entries s t" "length t = 6144"
    using measure_archive_sound [OF ex_hex _ ex_sourced(2)] by blast
  then show ?thesis using ex_sourced(1) unfolding write_archive_iff by (intro exI [of _ t]) (auto simp: SAFE_INTEGER_def)
qed

lemma ex_read: "\<exists>t r. writeCheckpointArchive ex_env ex_header ex_sources 6144 = Inr t \<and> readCheckpointArchive ex_env [t] 6144 = Inr r
  \<and> readCheckpointArchive ex_env [take 700 t, [], drop 700 t] 6144 = Inr r \<and> sources (ar_entries r) ex_sources"
proof -
  obtain t where w: "writeCheckpointArchive ex_env ex_header ex_sources 6144 = Inr t" using ex_written by blast
  then obtain rs s where g: "6144 \<le> SAFE_INTEGER" "length t \<le> 6144" "sources rs ex_sources" "archive_text ex_env ex_header rs s t"
    unfolding write_archive_iff by blast
  have v: "valid_summary s" by (rule summary_valid [OF ex_hex g(4)])
  let ?r = "\<lparr> ar_header = ex_header, ar_entries = rs, ar_summary = s, ar_bytes = length t, ar_digest = ''sha256:'' @ env_sha ex_env t \<rparr>"
  have "readCheckpointArchive ex_env cs 6144 = Inr ?r" if "concat cs = t" for cs
    unfolding read_archive_iff that using g v by simp
  then show ?thesis using w g(3) by (intro exI [of _ t] exI [of _ ?r]) simp
qed

theorem archive_round_trip_witness:
  "\<exists>t rs s. writeCheckpointArchive ex_env ex_header ex_sources 6144 = Inr t \<and> sources rs ex_sources
     \<and> readCheckpointArchive ex_env [take 700 t, drop 700 t] 6144 = Inr \<lparr> ar_header = ex_header, ar_entries = rs,
         ar_summary = s, ar_bytes = length t, ar_digest = ''sha256:'' @ env_sha ex_env t \<rparr>"
proof -
  obtain t where w: "writeCheckpointArchive ex_env ex_header ex_sources 6144 = Inr t" using ex_written by blast
  have "concat [take 700 t, drop 700 t] = t" by simp
  then show ?thesis using archive_round_trip [OF ex_hex w] w by blast
qed

theorem accepted_archive_is_canonical_witness:
  "\<exists>t r. readCheckpointArchive ex_env [t] 6144 = Inr r \<and> writeCheckpointArchive ex_env (ar_header r) ex_sources 6144 = Inr t"
proof -
  obtain t r where r: "readCheckpointArchive ex_env [t] 6144 = Inr r" "sources (ar_entries r) ex_sources" using ex_read by blast
  have "writeCheckpointArchive ex_env (ar_header r) ex_sources 6144 = Inr (concat [t])"
    by (rule accepted_archive_is_canonical [OF r])
  then show ?thesis using r(1) by auto
qed

theorem measured_size_is_exact_witness:
  "\<exists>t. writeCheckpointArchive ex_env ex_header ex_sources 6144 = Inr t \<and> length t = 6144"
proof -
  have "6144 \<le> SAFE_INTEGER" by (simp add: SAFE_INTEGER_def)
  then show ?thesis using measured_size_is_exact [OF ex_hex _ ex_sourced, of 6144 ex_header 6144] ex_measure ex_fst by simp
qed


definition ex_lookup :: entry_lookup where
  "ex_lookup m p = (if p = ''d'' then Some ex_directory else if p = ''d/f'' then Some ex_file else None)"

theorem entry_graph_is_resolution_witness:
  "validateCheckpointEntryGraph ex_lookup ex_link = Inr ()
   \<and> (\<exists>k to. k \<le> 64 \<and> resolves ex_lookup 0 k [''d''] [''..'', ''d'', ''f''] to \<and> list_all safe_part to)"
proof -
  have safe: "safeCheckpointPath ex_env (ce_path ex_link)"
    by (simp add: safeCheckpointPath_def ex_link_def validUnicode_def safe_part_def ex_env_def)
  have ok: "validateCheckpointEntryGraph ex_lookup ex_link = Inr ()" by code_simp
  have "ce_kind ex_link = Symlink 6 ex_digest ''../d/f''" "ce_mount ex_link = 0" "split_slash (ce_path ex_link) = [''d'', ''l'']"
    "split_slash ''../d/f'' = [''..'', ''d'', ''f'']"
    by (simp_all add: ex_link_def)
  then show ?thesis using ok entry_graph_is_resolution [OF safe, of ex_lookup] by simp
qed

end
