(* ===== verification/Journal_File.thy ===== *)
theory Journal_File
  imports Journal Checkpoint_Format "HOL-Library.Sublist"
begin

text \<open>
  The file of the deletion journal (\<^verbatim>\<open>packages/db/src/journal/journal.ts\<close>, \<^verbatim>\<open>events.ts\<close>): a header line and one line
  per record, each record chained to the one before it by a digest. The content of the file is its bytes. A write may
  stop after any number of bytes, the attempt to undo it may fail, and the process may die at any moment. Locking,
  permissions and the place of the file are not modelled. \<open>JSON.parse\<close>, SHA-256 and the formats of UUIDs and dates are the
  fields of \<open>journal_env\<close>.
\<close>

record journal_env =
  je_sha :: "string \<Rightarrow> string"
  je_parse :: "string \<Rightarrow> json option"
  je_uuid :: "string \<Rightarrow> bool"
  je_datetime :: "string \<Rightarrow> bool"

section \<open>Events\<close>

definition JOURNAL_FORMAT :: string where
  "JOURNAL_FORMAT = ''pocketcoder-journal/v1''"

definition text_where :: "(string \<Rightarrow> bool) \<Rightarrow> string \<Rightarrow> json \<Rightarrow> bool" where
  "text_where P k v = (case text_at k v of Some s \<Rightarrow> P s | None \<Rightarrow> False)"

definition texts_where :: "(string \<Rightarrow> bool) \<Rightarrow> string \<Rightarrow> json \<Rightarrow> bool" where
  "texts_where P k v =
     (case own k v of Some (JArr vs) \<Rightarrow> list_all (\<lambda>x. case x of JStr s \<Rightarrow> P s | _ \<Rightarrow> False) vs | _ \<Rightarrow> False)"

definition strict_optional :: "string list \<Rightarrow> string list \<Rightarrow> json \<Rightarrow> bool" where
  "strict_optional ks os v =
     (case v of JObj ps \<Rightarrow> set ks \<subseteq> set (map fst ps) \<and> set (map fst ps) \<subseteq> set (ks @ os) | _ \<Rightarrow> False)"

definition file_identity :: "json \<Rightarrow> bool" where
  "file_identity v \<longleftrightarrow> strict [''device'', ''inode''] v
     \<and> text_where (\<lambda>s. s \<noteq> [] \<and> list_all is_digit s \<and> length s \<le> 20) ''device'' v
     \<and> text_where (\<lambda>s. s \<noteq> [] \<and> list_all is_digit s \<and> hd s \<noteq> CHR ''0'' \<and> length s \<le> 20) ''inode'' v"

definition source_writer :: "json \<Rightarrow> bool" where
  "source_writer v \<longleftrightarrow> strict [''format'', ''directory'', ''root'', ''lock''] v
     \<and> text_at ''format'' v = Some ''pocketcoder-source-writer/v1''
     \<and> text_where (\<lambda>s. is_absolute s \<and> length s \<le> 4096) ''directory'' v
     \<and> (case own ''root'' v of Some x \<Rightarrow> file_identity x | None \<Rightarrow> False)
     \<and> (case own ''lock'' v of Some x \<Rightarrow> file_identity x | None \<Rightarrow> False)"

definition valid_event :: "journal_env \<Rightarrow> json \<Rightarrow> bool" where
  "valid_event env v \<longleftrightarrow>
     (let uuid = (\<lambda>k. text_where (je_uuid env) k v); uuids = (\<lambda>k. texts_where (je_uuid env) k v);
          named = (\<lambda>k. text_where (\<lambda>s. s \<noteq> []) k v); exactly = (\<lambda>ks. strict ([''kind'', ''at''] @ ks) v);
          kind = text_at ''kind'' v
      in text_where (je_datetime env) ''at'' v \<and>
         (kind = Some ''key_revoked'' \<and> exactly [''keyId''] \<and> uuid ''keyId''
          \<or> kind = Some ''keys_revoked'' \<and> exactly [''principalId'', ''keyIds''] \<and> uuid ''principalId'' \<and> uuids ''keyIds''
          \<or> kind = Some ''principal_disabled'' \<and> exactly [''principalId'', ''keyIds''] \<and> uuid ''principalId'' \<and> uuids ''keyIds''
          \<or> kind = Some ''principal_enabled'' \<and> exactly [''principalId''] \<and> uuid ''principalId''
          \<or> kind = Some ''principal_access'' \<and> exactly [''principalId'', ''scopes'', ''templateNames''] \<and> uuid ''principalId''
              \<and> texts_where (\<lambda>_. True) ''scopes'' v \<and> texts_where (\<lambda>_. True) ''templateNames'' v
          \<or> kind = Some ''secret_retired'' \<and> exactly [''name'', ''versionId''] \<and> named ''name'' \<and> uuid ''versionId''
          \<or> kind = Some ''template_retired'' \<and> exactly [''name'', ''version''] \<and> named ''name'' \<and> named ''version''
          \<or> kind = Some ''conversation_deleted'' \<and> strict_optional [''kind'', ''at'', ''workspaceId''] [''principalId'', ''conversationId''] v
              \<and> uuid ''workspaceId'' \<and> (own ''principalId'' v = None \<or> uuid ''principalId'')
              \<and> (own ''conversationId'' v = None \<or> uuid ''conversationId'')
          \<or> kind = Some ''workspace_purged'' \<and> exactly [''principalId'', ''workspaceId''] \<and> uuid ''principalId'' \<and> uuid ''workspaceId''
          \<or> kind = Some ''checkpoint_deleted'' \<and> exactly [''principalId'', ''checkpointId''] \<and> uuid ''principalId'' \<and> uuid ''checkpointId''
          \<or> kind = Some ''writer_claimed'' \<and> exactly [''writer'']
              \<and> (case own ''writer'' v of Some w \<Rightarrow> source_writer w | None \<Rightarrow> False)))"

definition hex64 :: "string \<Rightarrow> bool" where
  "hex64 s \<longleftrightarrow> length s = 64 \<and> list_all (radix_digit 16) s"

record journal_record =
  jr_sequence :: nat
  jr_previous :: string
  jr_digest :: string
  jr_event :: json

definition record_json :: "journal_record \<Rightarrow> json" where
  "record_json r = JObj [(''sequence'', count_json (jr_sequence r)), (''previous'', JStr (jr_previous r)),
     (''digest'', JStr (jr_digest r)), (''event'', jr_event r)]"

definition record_of_json :: "journal_env \<Rightarrow> json \<Rightarrow> journal_record option" where
  "record_of_json env v =
     (if \<not> strict [''sequence'', ''previous'', ''digest'', ''event''] v then None
      else case (count_at ''sequence'' v, text_at ''previous'' v, text_at ''digest'' v, own ''event'' v) of
        (Some n, Some p, Some d, Some e) \<Rightarrow>
          if 0 < n \<and> hex64 p \<and> hex64 d \<and> valid_event env e
          then Some \<lparr> jr_sequence = n, jr_previous = p, jr_digest = d, jr_event = e \<rparr> else None
      | _ \<Rightarrow> None)"

definition header_line :: "string \<Rightarrow> string" where
  "header_line i = stringify (JObj [(''format'', JStr JOURNAL_FORMAT), (''journalId'', JStr i)])"

definition journal_header_of_json :: "journal_env \<Rightarrow> json \<Rightarrow> string option" where
  "journal_header_of_json env v =
     (if \<not> strict [''format'', ''journalId''] v \<or> text_at ''format'' v \<noteq> Some JOURNAL_FORMAT then None
      else case text_at ''journalId'' v of Some i \<Rightarrow> if je_uuid env i then Some i else None | None \<Rightarrow> None)"

definition chain_digest :: "journal_env \<Rightarrow> nat \<Rightarrow> string \<Rightarrow> json \<Rightarrow> string" where
  "chain_digest env n previous event =
     je_sha env (stringify (JObj [(''sequence'', count_json n), (''previous'', JStr previous), (''event'', event)]))"

section \<open>Opening\<close>

abbreviation NL :: char where
  "NL \<equiv> CHR 0x0A"

fun split_lines :: "string \<Rightarrow> string list" where
  "split_lines [] = [[]]"
| "split_lines (c # s) =
     (if c = NL then [] # split_lines s
      else (case split_lines s of p # ps \<Rightarrow> (c # p) # ps | [] \<Rightarrow> [[c]]))"

text \<open>The complete lines, and the file cut after the last of them.\<close>

definition complete_part :: "string \<Rightarrow> string" where
  "complete_part s = rev (dropWhile (\<lambda>c. c \<noteq> NL) (rev s))"

definition readLines :: "string \<Rightarrow> string list \<times> string" where
  "readLines file = (filter (\<lambda>l. l \<noteq> []) (split_lines (complete_part file)), complete_part file)"

fun read_records :: "journal_env \<Rightarrow> nat \<Rightarrow> string \<Rightarrow> string list \<Rightarrow> js_error + (journal_record list \<times> string)" where
  "read_records env n digest [] = Inr ([], digest)"
| "read_records env n digest (line # rest) =
     (case je_parse env line of
        None \<Rightarrow> Inl (PlainError ''SyntaxError'')
      | Some raw \<Rightarrow>
          (case record_of_json env raw of
             None \<Rightarrow> Inl (PlainError ''ZodError'')
           | Some r \<Rightarrow>
               if jr_sequence r \<noteq> n + 1 \<or> jr_previous r \<noteq> digest \<or> jr_digest r \<noteq> chain_digest env (n + 1) digest (jr_event r)
               then Inl (PlainError ''Deletion journal chain is broken.'')
               else bindE (read_records env (n + 1) (jr_digest r) rest) (\<lambda>(rs, d). Inr (r # rs, d))))"

record journal =
  jn_id :: string
  jn_headerDigest :: string
  jn_records :: "journal_record list"
  jn_digest :: string
  jn_file :: string
  jn_length :: nat
  jn_broken :: bool
  jn_closed :: bool

definition openJournal :: "journal_env \<Rightarrow> string \<Rightarrow> bool \<Rightarrow> string \<Rightarrow> js_error + journal" where
  "openJournal env newId create file =
     (let (found, kept) = readLines file
      in if found = [] \<and> \<not> create then Inl (PlainError ''Deletion journal is missing.'')
         else
           let (lines, content) = (if found = [] then ([header_line newId], kept @ header_line newId @ [NL]) else (found, kept))
           in case Option.bind (je_parse env (hd lines)) (journal_header_of_json env) of
                None \<Rightarrow> Inl (PlainError ''ZodError'')
              | Some i \<Rightarrow>
                  let headerDigest = je_sha env (hd lines)
                  in bindE (read_records env 0 headerDigest (tl lines)) (\<lambda>(rs, digest).
                       Inr \<lparr> jn_id = i, jn_headerDigest = headerDigest, jn_records = rs, jn_digest = digest, jn_file = content,
                             jn_length = length content, jn_broken = False, jn_closed = False \<rparr>))"

section \<open>The open journal\<close>

record journal_cursor =
  jc_journalId :: string
  jc_sequence :: nat
  jc_digest :: string

definition head :: "journal \<Rightarrow> journal_cursor" where
  "head j = \<lparr> jc_journalId = jn_id j, jc_sequence = length (jn_records j), jc_digest = jn_digest j \<rparr>"

definition journal_at :: "journal \<Rightarrow> nat \<Rightarrow> journal_cursor option" where
  "journal_at j n =
     (if length (jn_records j) < n then None
      else Some \<lparr> jc_journalId = jn_id j, jc_sequence = n,
                  jc_digest = (if n = 0 then jn_headerDigest j else jr_digest (jn_records j ! (n - 1))) \<rparr>)"

definition lastWriter :: "journal \<Rightarrow> json option" where
  "lastWriter j =
     Option.bind (find (\<lambda>r. text_at ''kind'' (jr_event r) = Some ''writer_claimed'') (rev (jn_records j)))
       (\<lambda>r. own ''writer'' (jr_event r))"

definition next_record :: "journal_env \<Rightarrow> json \<Rightarrow> journal \<Rightarrow> journal_record" where
  "next_record env event j =
     (let n = length (jn_records j) + 1
      in \<lparr> jr_sequence = n, jr_previous = jn_digest j, jr_digest = chain_digest env n (jn_digest j) event, jr_event = event \<rparr>)"

definition record_line :: "journal_record \<Rightarrow> string" where
  "record_line r = stringify (record_json r) @ [NL]"

text \<open>The outcome of writing a line: all of it, or an error after \<open>k\<close> bytes with the undo working or not.\<close>

datatype write_outcome = Wrote | Stopped nat bool

definition append_record :: "journal_env \<Rightarrow> json \<Rightarrow> write_outcome \<Rightarrow> journal \<Rightarrow> (js_error + journal_cursor) \<times> journal" where
  "append_record env event outcome j =
     (if jn_closed j then (Inl (PlainError ''Deletion journal is closed.''), j)
      else if jn_broken j then (Inl (PlainError ''Deletion journal could not undo a failed write; restart the controller.''), j)
      else
        let r = next_record env event j; line = record_line r
        in case outcome of
             Wrote \<Rightarrow>
               let j' = j\<lparr>jn_file := jn_file j @ line, jn_length := jn_length j + length line,
                          jn_records := jn_records j @ [r], jn_digest := jr_digest r\<rparr>
               in (Inr (head j'), j')
           | Stopped k undone \<Rightarrow>
               let written = jn_file j @ take k line
               in if undone then (Inl (PlainError ''EIO''), j\<lparr>jn_file := take (jn_length j) written\<rparr>)
                  else (Inl (PlainError ''EIO''), j\<lparr>jn_file := written, jn_broken := True\<rparr>))"

definition close_journal :: "journal \<Rightarrow> journal" where
  "close_journal j = j\<lparr>jn_closed := True\<rparr>"

end
