(* ===== verification/Journal_Theorems.thy ===== *)
theory Journal_Theorems
  imports Journal_File
begin

text \<open>
  What the journal promises: no failed write and no crash loses or changes a record that was acknowledged, a restart
  always opens the file that a crash left, and the digest at the head binds the whole history.
\<close>

section \<open>Lines\<close>

lemma escape_no_newline: "NL \<notin> set (escape_char c)"
proof
  assume "NL \<in> set (escape_char c)"
  then have "(of_char NL :: nat) \<in> set (map of_char (escape_char c))" by (simp only: set_map image_eqI)
  then have "10 \<in> set (esc_code (of_char c))" unfolding escape_char_code by simp
  then show False by (auto simp: esc_code_def hex_code_def split: if_splits)
qed

lemma quote_no_newline: "NL \<notin> set (quote s)"
  using escape_no_newline by (auto simp: quote_def backslash)

lemma decimal_no_newline: "NL \<notin> set (decimal n)"
proof
  assume "NL \<in> set (decimal n)"
  then have "is_digit NL" using decimal_digits by (auto simp: list_all_iff)
  then show False by (simp add: is_digit_def)
qed

lemma join_no_newline: "NL \<notin> set sep \<Longrightarrow> \<forall>x \<in> set xs. NL \<notin> set x \<Longrightarrow> NL \<notin> set (join_with sep xs)"
  by (induction sep xs rule: join_with.induct) auto

lemma stringify_no_newline: "NL \<notin> set (stringify v)"
proof (induction v rule: stringify.induct)
  case (6 vs)
  then have "NL \<notin> set (join_with '','' (map stringify vs))" by (intro join_no_newline) auto
  then show ?case by simp
next
  case (7 ps)
  then have "NL \<notin> set (join_with '','' (map (\<lambda>(k, v). quote k @ '':'' @ stringify v) (filter (\<lambda>p. snd p \<noteq> JUndefined) ps)))"
    using quote_no_newline by (intro join_no_newline) auto
  then show ?case by simp
qed (use quote_no_newline decimal_no_newline in \<open>auto simp: show_int_def\<close>)

lemma stringify_nonempty: "stringify v \<noteq> []"
  using stringify_start [of v] by auto

lemma header_line_line: "NL \<notin> set (header_line i)" "header_line i \<noteq> []"
  unfolding header_line_def by (rule stringify_no_newline, rule stringify_nonempty)

definition lines_text :: "string list \<Rightarrow> string" where
  "lines_text ls = concat (map (\<lambda>l. l @ [NL]) ls)"

lemma split_lines_append: "NL \<notin> set l \<Longrightarrow> split_lines (l @ NL # s) = l # split_lines s"
  by (induction l) auto

lemma split_lines_text: "\<forall>l \<in> set ls. NL \<notin> set l \<Longrightarrow> split_lines (lines_text ls) = ls @ [[]]"
  by (induction ls) (simp_all add: lines_text_def split_lines_append)

lemma complete_part_tail: "NL \<notin> set tail \<Longrightarrow> complete_part (s @ tail) = complete_part s"
  unfolding complete_part_def rev_append by (subst dropWhile_append2) auto

lemma complete_part_lines: "complete_part (lines_text ls) = lines_text ls"
proof (cases ls rule: rev_cases)
  case (snoc xs x)
  then show ?thesis by (simp add: complete_part_def lines_text_def)
qed (simp add: complete_part_def lines_text_def)

lemma readLines_text:
  assumes "\<forall>l \<in> set ls. NL \<notin> set l \<and> l \<noteq> []" and "NL \<notin> set tail"
  shows "readLines (lines_text ls @ tail) = (ls, lines_text ls)"
proof -
  have "filter (\<lambda>l. l \<noteq> []) (ls @ [[]]) = ls" using assms(1) by (simp add: filter_id_conv)
  then show ?thesis using assms by (simp add: readLines_def complete_part_tail complete_part_lines split_lines_text)
qed

lemma readLines_fresh: "NL \<notin> set file \<Longrightarrow> readLines file = ([], [])"
  using readLines_text [where ls = "[]" and tail = "file"] by (simp add: lines_text_def)

text \<open>A prefix of a line with its newline is either torn or the whole line.\<close>

lemma take_line:
  assumes "NL \<notin> set l"
  obtains "take k (l @ [NL]) = l @ [NL]" | "NL \<notin> set (take k (l @ [NL]))"
proof (cases "k \<le> length l")
  case True
  then have "NL \<notin> set (take k (l @ [NL]))" using assms by (auto dest: in_set_takeD)
  then show ?thesis by (rule that(2))
qed (rule that(1), simp)

section \<open>The laws of the environment\<close>

text \<open>A value that \<open>JSON.stringify\<close> prints and \<open>JSON.parse\<close> returns unchanged: unique keys and nothing undefined.\<close>

definition wire :: "json \<Rightarrow> bool" where
  "wire v \<longleftrightarrow> printable v \<and> document v"

definition journal_laws :: "journal_env \<Rightarrow> bool" where
  "journal_laws env \<longleftrightarrow> (\<forall>v. wire v \<longrightarrow> je_parse env (stringify v) = Some v) \<and> (\<forall>s. hex64 (je_sha env s))"

lemma header_roundtrip:
  assumes "journal_laws env" and "je_uuid env i"
  shows "Option.bind (je_parse env (header_line i)) (journal_header_of_json env) = Some i"
proof -
  have "wire (JObj [(''format'', JStr JOURNAL_FORMAT), (''journalId'', JStr i)])" by (simp add: wire_def)
  then have "je_parse env (header_line i) = Some (JObj [(''format'', JStr JOURNAL_FORMAT), (''journalId'', JStr i)])"
    using assms(1) unfolding header_line_def journal_laws_def by blast
  then show ?thesis using assms(2) by (simp add: journal_header_of_json_def strict_def text_at_def)
qed

lemma record_roundtrip:
  assumes "journal_laws env" and "wire (jr_event r)" and "valid_event env (jr_event r)" and "0 < jr_sequence r"
    and "hex64 (jr_previous r)" and "hex64 (jr_digest r)"
  shows "Option.bind (je_parse env (stringify (record_json r))) (record_of_json env) = Some r"
proof -
  have "wire (record_json r)" using assms(2) by (simp add: wire_def record_json_def count_json_def)
  then have p: "je_parse env (stringify (record_json r)) = Some (record_json r)" using assms(1) by (simp add: journal_laws_def)
  have "jr_event r \<noteq> JUndefined" using assms(2) by (auto simp: wire_def)
  then show ?thesis using assms(3-6) unfolding p
    by (simp add: record_of_json_def record_json_def strict_def count_at_def text_at_def count_json_def)
qed

section \<open>What a file holds\<close>

fun chain :: "journal_env \<Rightarrow> nat \<Rightarrow> string \<Rightarrow> journal_record list \<Rightarrow> bool" where
  "chain env n d [] = True"
| "chain env n d (r # rs) \<longleftrightarrow> jr_sequence r = n + 1 \<and> jr_previous r = d \<and> jr_digest r = chain_digest env (n + 1) d (jr_event r)
     \<and> wire (jr_event r) \<and> valid_event env (jr_event r) \<and> chain env (n + 1) (jr_digest r) rs"

definition last_digest :: "string \<Rightarrow> journal_record list \<Rightarrow> string" where
  "last_digest d rs = (if rs = [] then d else jr_digest (last rs))"

lemma chain_append:
  "chain env n d (rs @ ss) \<longleftrightarrow> chain env n d rs \<and> chain env (n + length rs) (last_digest d rs) ss"
proof (induction rs arbitrary: n d)
  case (Cons r rs)
  have "last_digest d (r # rs) = last_digest (jr_digest r) rs" by (simp add: last_digest_def)
  then show ?case using Cons.IH [of "n + 1" "jr_digest r"] by simp
qed (simp add: last_digest_def)

definition journal_text :: "string \<Rightarrow> journal_record list \<Rightarrow> string" where
  "journal_text i rs = lines_text (header_line i # map (\<lambda>r. stringify (record_json r)) rs)"

definition genuine :: "journal_env \<Rightarrow> string \<Rightarrow> journal_record list \<Rightarrow> bool" where
  "genuine env i rs \<longleftrightarrow> je_uuid env i \<and> chain env 0 (je_sha env (header_line i)) rs"

lemma read_records_chain:
  assumes "journal_laws env"
  shows "hex64 d \<Longrightarrow> chain env n d rs \<Longrightarrow>
    read_records env n d (map (\<lambda>r. stringify (record_json r)) rs) = Inr (rs, last_digest d rs)"
proof (induction rs arbitrary: n d)
  case (Cons r rs)
  have h: "hex64 (chain_digest env (n + 1) d (jr_event r))" using assms unfolding journal_laws_def chain_digest_def by blast
  have dg: "jr_digest r = chain_digest env (n + 1) d (jr_event r)" using Cons.prems(2) by simp
  have "Option.bind (je_parse env (stringify (record_json r))) (record_of_json env) = Some r"
    using Cons.prems h by (intro record_roundtrip [OF assms]) (simp_all add: dg)
  then obtain raw where raw: "je_parse env (stringify (record_json r)) = Some raw" "record_of_json env raw = Some r"
    by (cases "je_parse env (stringify (record_json r))") auto
  have ih: "read_records env (n + 1) (jr_digest r) (map (\<lambda>r. stringify (record_json r)) rs) = Inr (rs, last_digest (jr_digest r) rs)"
    using Cons.prems h by (intro Cons.IH) (simp_all add: dg)
  have "last_digest d (r # rs) = last_digest (jr_digest r) rs" by (simp add: last_digest_def)
  then show ?case using Cons.prems(2) raw ih by simp
qed (simp add: last_digest_def)

definition opened :: "journal_env \<Rightarrow> string \<Rightarrow> journal_record list \<Rightarrow> journal" where
  "opened env i rs = \<lparr> jn_id = i, jn_headerDigest = je_sha env (header_line i), jn_records = rs,
     jn_digest = last_digest (je_sha env (header_line i)) rs, jn_file = journal_text i rs,
     jn_length = length (journal_text i rs), jn_broken = False, jn_closed = False \<rparr>"

lemma readLines_journal:
  assumes "NL \<notin> set tail"
  shows "readLines (journal_text i rs @ tail) = (header_line i # map (\<lambda>r. stringify (record_json r)) rs, journal_text i rs)"
  unfolding journal_text_def
  by (rule readLines_text) (use assms stringify_no_newline stringify_nonempty header_line_line in auto)

lemma open_genuine:
  assumes laws: "journal_laws env" and g: "genuine env i rs" and t: "NL \<notin> set tail"
  shows "openJournal env newId create (journal_text i rs @ tail) = Inr (opened env i rs)"
proof -
  note readLines_journal [OF t]
  moreover have "read_records env 0 (je_sha env (header_line i)) (map (\<lambda>r. stringify (record_json r)) rs)
      = Inr (rs, last_digest (je_sha env (header_line i)) rs)"
    using g laws by (intro read_records_chain [OF laws]) (simp_all add: genuine_def journal_laws_def)
  moreover have "Option.bind (je_parse env (header_line i)) (journal_header_of_json env) = Some i"
    using header_roundtrip [OF laws] g by (simp add: genuine_def)
  ultimately show ?thesis by (simp add: openJournal_def opened_def Let_def)
qed

lemma open_fresh:
  assumes laws: "journal_laws env" and t: "NL \<notin> set file" and "je_uuid env newId"
  shows "openJournal env newId True file = Inr (opened env newId [])"
  using header_roundtrip [OF laws assms(3)]
  by (simp add: openJournal_def readLines_fresh [OF t] opened_def journal_text_def lines_text_def last_digest_def Let_def)

section \<open>Runs with failures and crashes\<close>

text \<open>The state of the disk and of the process that holds the journal open, if one does. A process may open the
  journal, fail to, or die while it creates the header; it appends, with a write that succeeds, fails or is cut short by
  the death of the process; it closes the journal, and may die at any time.\<close>

inductive journal_step :: "journal_env \<Rightarrow> string \<times> journal option \<Rightarrow> string \<times> journal option \<Rightarrow> bool" for env where
  start: "openJournal env newId create disk = Inr j \<Longrightarrow> je_uuid env newId \<Longrightarrow> journal_step env (disk, None) (jn_file j, Some j)"
| refused: "openJournal env newId create disk = Inl e \<Longrightarrow> journal_step env (disk, None) (snd (readLines disk), None)"
| create_dies: "fst (readLines disk) = [] \<Longrightarrow> je_uuid env newId \<Longrightarrow>
    journal_step env (disk, None) (snd (readLines disk) @ take k (header_line newId @ [NL]), None)"
| append: "valid_event env event \<Longrightarrow> wire event \<Longrightarrow> append_record env event outcome j = (res, j') \<Longrightarrow>
    journal_step env (disk, Some j) (jn_file j', Some j')"
| append_dies: "valid_event env event \<Longrightarrow> wire event \<Longrightarrow> \<not> jn_closed j \<Longrightarrow> \<not> jn_broken j \<Longrightarrow>
    journal_step env (disk, Some j) (disk @ take k (record_line (next_record env event j)), None)"
| close: "journal_step env (disk, Some j) (disk, Some (close_journal j))"
| die: "journal_step env (disk, Some j) (disk, None)"

definition holds :: "journal_env \<Rightarrow> string \<Rightarrow> string \<Rightarrow> journal_record list \<Rightarrow> string \<Rightarrow> bool" where
  "holds env disk i rs tail \<longleftrightarrow> genuine env i rs \<and> NL \<notin> set tail \<and> disk = journal_text i rs @ tail"

definition process_ok :: "journal_env \<Rightarrow> string \<Rightarrow> string \<Rightarrow> journal_record list \<Rightarrow> string \<Rightarrow> journal \<Rightarrow> bool" where
  "process_ok env disk i rs tail j \<longleftrightarrow> jn_file j = disk \<and> jn_id j = i
     \<and> jn_digest j = last_digest (je_sha env (header_line i)) (jn_records j)
     \<and> (if jn_broken j then prefix (jn_records j) rs else jn_records j = rs \<and> tail = [] \<and> jn_length j = length disk)"

definition journal_inv :: "journal_env \<Rightarrow> string \<times> journal option \<Rightarrow> bool" where
  "journal_inv env s \<longleftrightarrow> journal_laws env \<and>
     (NL \<notin> set (fst s) \<and> snd s = None
      \<or> (\<exists>i rs tail. holds env (fst s) i rs tail \<and> (case snd s of None \<Rightarrow> True | Some j \<Rightarrow> process_ok env (fst s) i rs tail j)))"

text \<open>The records that the next opening of the file finds.\<close>

definition recorded :: "journal_env \<Rightarrow> string \<Rightarrow> journal_record list" where
  "recorded env disk = (case openJournal env [] False disk of Inr j \<Rightarrow> jn_records j | Inl _ \<Rightarrow> [])"

definition journal_le :: "journal_env \<Rightarrow> string \<times> journal option \<Rightarrow> string \<times> journal option \<Rightarrow> bool" where
  "journal_le env s t \<longleftrightarrow> prefix (recorded env (fst s)) (recorded env (fst t))"

lemma recorded_holds: "journal_laws env \<Longrightarrow> holds env disk i rs tail \<Longrightarrow> recorded env disk = rs"
  by (simp add: recorded_def holds_def open_genuine opened_def)

lemma recorded_fresh: "NL \<notin> set disk \<Longrightarrow> recorded env disk = []"
  by (simp add: recorded_def openJournal_def readLines_fresh)

lemma readLines_holds:
  assumes "holds env disk i rs tail"
  shows "fst (readLines disk) \<noteq> []" "snd (readLines disk) = journal_text i rs"
proof -
  have "readLines disk = (header_line i # map (\<lambda>r. stringify (record_json r)) rs, journal_text i rs)"
    using assms readLines_journal unfolding holds_def by blast
  then show "fst (readLines disk) \<noteq> []" "snd (readLines disk) = journal_text i rs" by simp_all
qed

lemma holds_opened:
  assumes "genuine env i rs"
  shows "holds env (journal_text i rs) i rs []" "process_ok env (journal_text i rs) i rs [] (opened env i rs)"
  using assms by (simp_all add: holds_def process_ok_def opened_def)

text \<open>Appending a whole line gives a genuine journal with one more record.\<close>

lemma genuine_next:
  assumes "genuine env i rs" and "jn_records j = rs" and "jn_digest j = last_digest (je_sha env (header_line i)) rs"
    and "valid_event env event" and "wire event"
  shows "genuine env i (rs @ [next_record env event j])"
    "journal_text i rs @ record_line (next_record env event j) = journal_text i (rs @ [next_record env event j])"
  using assms by (simp_all add: genuine_def chain_append next_record_def Let_def journal_text_def lines_text_def record_line_def)

lemma holds_written:
  assumes "holds env disk i rs []" and "jn_records j = rs" and "jn_digest j = last_digest (je_sha env (header_line i)) rs"
    and "valid_event env event" and "wire event"
  shows "\<exists>rs' tail. holds env (disk @ take k (record_line (next_record env event j))) i rs' tail \<and> prefix rs rs'"
proof -
  let ?r = "next_record env event j"
  have g: "genuine env i rs" "disk = journal_text i rs" using assms(1) by (simp_all add: holds_def)
  note n = genuine_next [OF g(1) assms(2-5)]
  have line: "record_line ?r = stringify (record_json ?r) @ [NL]" by (simp add: record_line_def)
  show ?thesis
  proof (rule take_line [OF stringify_no_newline, of k "record_json ?r"])
    assume "take k (stringify (record_json ?r) @ [NL]) = stringify (record_json ?r) @ [NL]"
    then have "disk @ take k (record_line ?r) = journal_text i (rs @ [?r]) @ []" using n(2) g(2) line by simp
    then show ?thesis using n(1) by (intro exI [of _ "rs @ [?r]"] exI [of _ "[]"]) (simp add: holds_def)
  next
    assume "NL \<notin> set (take k (stringify (record_json ?r) @ [NL]))"
    then show ?thesis using g line by (intro exI [of _ rs] exI [of _ "take k (record_line ?r)"]) (simp add: holds_def)
  qed
qed

lemma start_inv:
  assumes inv: "journal_inv env (disk, None)" and op: "openJournal env newId create disk = Inr j" and u: "je_uuid env newId"
  shows "journal_inv env (jn_file j, Some j)" "prefix (recorded env disk) (recorded env (jn_file j))"
proof -
  have laws: "journal_laws env" using inv by (simp add: journal_inv_def)
  consider (fresh) "NL \<notin> set disk" | (full) i rs tail where "holds env disk i rs tail"
    using inv by (auto simp: journal_inv_def)
  then have "\<exists>i rs. genuine env i rs \<and> j = opened env i rs \<and> recorded env disk = rs"
  proof cases
    case fresh
    then have "create" using op by (cases create) (simp_all add: openJournal_def readLines_fresh)
    then have "j = opened env newId []" using open_fresh [OF laws fresh u] op by simp
    then show ?thesis using u recorded_fresh [OF fresh] by (intro exI [of _ newId] exI [of _ "[]"]) (simp add: genuine_def)
  next
    case full
    then have "openJournal env newId create disk = Inr (opened env i rs)" using open_genuine [OF laws] by (simp add: holds_def)
    then show ?thesis using full recorded_holds [OF laws full] op by (auto simp: holds_def)
  qed
  then obtain i rs where g: "genuine env i rs" "j = opened env i rs" "recorded env disk = rs" by blast
  have f: "jn_file j = journal_text i rs" by (simp add: g(2) opened_def)
  show "journal_inv env (jn_file j, Some j)"
    unfolding journal_inv_def f using laws holds_opened [OF g(1)] g(2) by auto
  show "prefix (recorded env disk) (recorded env (jn_file j))"
    using recorded_holds [OF laws holds_opened(1) [OF g(1)]] by (simp add: f g(3))
qed

lemma refused_inv:
  assumes inv: "journal_inv env (disk, None)"
  shows "journal_inv env (snd (readLines disk), None)" "prefix (recorded env disk) (recorded env (snd (readLines disk)))"
proof -
  have laws: "journal_laws env" using inv by (simp add: journal_inv_def)
  consider (fresh) "NL \<notin> set disk" | (full) i rs tail where "holds env disk i rs tail"
    using inv by (auto simp: journal_inv_def)
  then have "journal_inv env (snd (readLines disk), None) \<and> prefix (recorded env disk) (recorded env (snd (readLines disk)))"
  proof cases
    case fresh
    then show ?thesis using laws by (simp add: journal_inv_def readLines_fresh recorded_fresh)
  next
    case full
    then have h: "holds env (snd (readLines disk)) i rs []" unfolding readLines_holds(2) [OF full] by (simp add: holds_def)
    then show ?thesis using laws recorded_holds [OF laws h] recorded_holds [OF laws full] by (auto simp: journal_inv_def)
  qed
  then show "journal_inv env (snd (readLines disk), None)" "prefix (recorded env disk) (recorded env (snd (readLines disk)))" by simp_all
qed

lemma create_dies_inv:
  assumes inv: "journal_inv env (disk, None)" and "fst (readLines disk) = []" and u: "je_uuid env newId"
  shows "journal_inv env (snd (readLines disk) @ take k (header_line newId @ [NL]), None)" "recorded env disk = []"
proof -
  have laws: "journal_laws env" using inv by (simp add: journal_inv_def)
  have fresh: "NL \<notin> set disk" using inv readLines_holds(1) assms(2) by (auto simp: journal_inv_def)
  then show "recorded env disk = []" by (rule recorded_fresh)
  have e: "snd (readLines disk) = []" using readLines_fresh [OF fresh] by simp
  have t: "header_line newId @ [NL] = journal_text newId []" by (simp add: journal_text_def lines_text_def)
  have g: "genuine env newId []" using u by (simp add: genuine_def)
  show "journal_inv env (snd (readLines disk) @ take k (header_line newId @ [NL]), None)"
  proof (rule take_line [OF header_line_line(1), of k newId])
    assume "take k (header_line newId @ [NL]) = header_line newId @ [NL]"
    then show ?thesis unfolding journal_inv_def e using laws holds_opened(1) [OF g] t by (intro conjI disjI2) auto
  next
    assume "NL \<notin> set (take k (header_line newId @ [NL]))"
    then show ?thesis unfolding journal_inv_def e using laws by simp
  qed
qed

lemma append_inv:
  assumes inv: "journal_inv env (disk, Some j)" and ev: "valid_event env event" "wire event"
    and ap: "append_record env event outcome j = (res, j')"
  shows "journal_inv env (jn_file j', Some j') \<and> prefix (recorded env disk) (recorded env (jn_file j'))"
proof -
  have laws: "journal_laws env" using inv by (simp add: journal_inv_def)
  obtain i rs tail where h: "holds env disk i rs tail" and p: "process_ok env disk i rs tail j"
    using inv by (auto simp: journal_inv_def)
  have fl: "jn_file j = disk" using p by (simp add: process_ok_def)
  show ?thesis
  proof (cases "jn_closed j \<or> jn_broken j")
    case True
    then have "j' = j" using ap by (auto simp: append_record_def split: if_splits)
    then show ?thesis using inv fl by simp
  next
    case False
    then have ok: "jn_records j = rs" "tail = []" "jn_length j = length disk" "jn_id j = i"
      "jn_digest j = last_digest (je_sha env (header_line i)) rs" using p by (simp_all add: process_ok_def)
    let ?r = "next_record env event j"
    have h0: "holds env disk i rs []" using h ok(2) by simp
    have rec: "recorded env disk = rs" by (rule recorded_holds [OF laws h])
    show ?thesis
    proof (cases outcome)
      case Wrote
      then have j': "j' = j\<lparr>jn_file := disk @ record_line ?r, jn_length := jn_length j + length (record_line ?r),
          jn_records := rs @ [?r], jn_digest := jr_digest ?r\<rparr>"
        using ap False fl ok(1) by (simp add: append_record_def Let_def)
      have g: "genuine env i rs" "disk = journal_text i rs" using h0 by (simp_all add: holds_def)
      note n = genuine_next [OF g(1) ok(1) ok(5) ev]
      have h': "holds env (jn_file j') i (rs @ [?r]) []" using n g(2) by (simp add: j' holds_def)
      moreover have "process_ok env (jn_file j') i (rs @ [?r]) [] j'"
        using False ok by (simp add: process_ok_def j' last_digest_def)
      ultimately show ?thesis using laws recorded_holds [OF laws h'] rec by (auto simp: journal_inv_def)
    next
      case (Stopped k undone)
      show ?thesis
      proof (cases undone)
        case True
        then have "j' = j\<lparr>jn_file := disk\<rparr>" using ap False fl ok(3) Stopped by (simp add: append_record_def Let_def)
        then have "j' = j" using fl by simp
        then show ?thesis using inv fl by simp
      next
        case f: False
        then have j': "j' = j\<lparr>jn_file := disk @ take k (record_line ?r), jn_broken := True\<rparr>"
          using ap False fl Stopped by (simp add: append_record_def Let_def)
        obtain rs' tl' where w: "holds env (disk @ take k (record_line ?r)) i rs' tl'" "prefix rs rs'"
          using holds_written [OF h0 ok(1) ok(5) ev] by blast
        have "process_ok env (jn_file j') i rs' tl' j'" using ok w(2) by (simp add: process_ok_def j')
        then show ?thesis using laws w recorded_holds [OF laws w(1)] rec by (auto simp: journal_inv_def j')
      qed
    qed
  qed
qed

lemma append_dies_inv:
  assumes inv: "journal_inv env (disk, Some j)" and ev: "valid_event env event" "wire event" and nb: "\<not> jn_broken j"
  shows "journal_inv env (disk @ take k (record_line (next_record env event j)), None)
    \<and> prefix (recorded env disk) (recorded env (disk @ take k (record_line (next_record env event j))))"
proof -
  have laws: "journal_laws env" using inv by (simp add: journal_inv_def)
  obtain i rs tail where h: "holds env disk i rs tail" and p: "process_ok env disk i rs tail j"
    using inv by (auto simp: journal_inv_def)
  have ok: "jn_records j = rs" "tail = []" "jn_digest j = last_digest (je_sha env (header_line i)) rs"
    using p nb by (simp_all add: process_ok_def)
  obtain rs' tl' where w: "holds env (disk @ take k (record_line (next_record env event j))) i rs' tl'" "prefix rs rs'"
    using holds_written [OF h [unfolded ok(2)] ok(1,3) ev] by blast
  then show ?thesis using laws recorded_holds [OF laws w(1)] recorded_holds [OF laws h] by (auto simp: journal_inv_def)
qed

lemma process_ok_close: "process_ok env disk i rs tail (close_journal j) \<longleftrightarrow> process_ok env disk i rs tail j"
  by (simp add: process_ok_def close_journal_def)

lemma journal_step_inv:
  assumes "journal_step env s t" and "journal_inv env s"
  shows "journal_inv env t \<and> journal_le env s t"
  using assms
proof cases
  case (start newId create disk j)
  then show ?thesis using start_inv [of env disk newId create j] assms(2) by (simp add: journal_le_def)
next
  case (refused newId create disk e)
  then show ?thesis using refused_inv [of env disk] assms(2) by (simp add: journal_le_def)
next
  case (create_dies disk newId k)
  then show ?thesis using create_dies_inv(1) [of env disk newId k] create_dies_inv(2) [of env disk newId] assms(2) by (simp add: journal_le_def)
next
  case (append event outcome j res j' disk)
  then show ?thesis using append_inv [of env disk j event outcome res j'] assms(2) by (simp add: journal_le_def)
next
  case (append_dies event j disk k)
  then show ?thesis using append_dies_inv [of env disk j event k] assms(2) by (simp add: journal_le_def)
next
  case (close disk j)
  then show ?thesis using assms(2) by (simp add: journal_inv_def journal_le_def process_ok_close)
next
  case (die disk j)
  then show ?thesis using assms(2) by (auto simp: journal_inv_def journal_le_def)
qed

interpretation jfile: monotone_system "journal_step env" "journal_inv env" "journal_le env" for env
proof unfold_locales
  show "journal_le env s u" if "journal_le env s t" "journal_le env t u" for s t u
    using that unfolding journal_le_def by (rule prefix_order.trans)
qed (simp_all add: journal_step_inv, simp add: journal_le_def)

lemma journal_inv_initial: "journal_laws env \<Longrightarrow> journal_inv env ([], None)"
  by (simp add: journal_inv_def)

section \<open>The head of the chain\<close>

fun linked :: "journal_env \<Rightarrow> nat \<Rightarrow> string \<Rightarrow> journal_record list \<Rightarrow> bool" where
  "linked env n d [] = True"
| "linked env n d (r # rs) \<longleftrightarrow> jr_sequence r = n + 1 \<and> jr_previous r = d \<and> jr_digest r = chain_digest env (n + 1) d (jr_event r)
     \<and> printable (jr_event r) \<and> linked env (n + 1) (jr_digest r) rs"

lemma linked_append:
  "linked env n d (rs @ ss) \<longleftrightarrow> linked env n d rs \<and> linked env (n + length rs) (last_digest d rs) ss"
proof (induction rs arbitrary: n d)
  case (Cons r rs)
  have "last_digest d (r # rs) = last_digest (jr_digest r) rs" by (simp add: last_digest_def)
  then show ?case using Cons.IH [of "n + 1" "jr_digest r"] by simp
qed (simp add: last_digest_def)

lemma own_printable: "printable v \<Longrightarrow> own k v = Some w \<Longrightarrow> printable w"
proof (cases v)
  case (JObj ps)
  assume v: "printable v" and o: "own k v = Some w"
  then have "map_of ps k = Some w" using JObj by (auto simp: own_def split: option.splits json.splits)
  then have "(k, w) \<in> set ps" by (rule map_of_SomeD)
  then show "printable w" using v JObj by (auto simp: list_all_iff)
qed (simp_all add: own_def)

lemma record_of_json_event: "record_of_json env v = Some r \<Longrightarrow> own ''event'' v = Some (jr_event r)"
  by (auto simp: record_of_json_def split: if_splits option.splits)

lemma read_records_linked:
  assumes "\<And>s v. je_parse env s = Some v \<Longrightarrow> printable v"
  shows "read_records env n d ls = Inr (rs, d') \<Longrightarrow> linked env n d rs \<and> d' = last_digest d rs"
proof (induction ls arbitrary: n d rs)
  case (Cons l ls)
  then obtain raw r rs' where raw: "je_parse env l = Some raw" "record_of_json env raw = Some r"
    and c: "jr_sequence r = n + 1" "jr_previous r = d" "jr_digest r = chain_digest env (n + 1) d (jr_event r)"
    and rest: "read_records env (n + 1) (jr_digest r) ls = Inr (rs', d')" and rs: "rs = r # rs'"
    by (auto split: option.splits if_splits)
  have "printable (jr_event r)" using own_printable assms raw record_of_json_event by blast
  moreover have "linked env (n + 1) (jr_digest r) rs'" "d' = last_digest (jr_digest r) rs'" using Cons.IH [OF rest] by simp_all
  moreover have "last_digest d rs = last_digest (jr_digest r) rs'" by (simp add: rs last_digest_def)
  ultimately show ?case using c rs by simp
qed (simp add: last_digest_def)

lemma openJournal_linked:
  assumes "\<And>s v. je_parse env s = Some v \<Longrightarrow> printable v" and "openJournal env newId create disk = Inr j"
  shows "\<exists>d. linked env 0 d (jn_records j) \<and> jn_digest j = last_digest d (jn_records j)"
proof -
  have "\<exists>ls d. read_records env 0 d ls = Inr (jn_records j, jn_digest j)"
  proof (cases "fst (readLines disk) = []")
    case True
    then have "jn_records j = []" using assms(2) unfolding openJournal_def
      by (auto simp: Let_def split: prod.splits option.splits if_splits)
    then show ?thesis by (intro exI [of _ "[]"] exI [of _ "jn_digest j"]) simp
  next
    case False
    then show ?thesis using assms(2) unfolding openJournal_def
      by (auto simp: Let_def split: prod.splits option.splits if_splits) blast
  qed
  then show ?thesis using read_records_linked [of env] assms(1) by blast
qed

lemma chain_digest_inject:
  assumes "chain_digest env n p e = chain_digest env n q f" and "printable e" and "printable f"
  shows "p = q \<and> e = f \<or> (\<exists>x y. x \<noteq> y \<and> je_sha env x = je_sha env y)"
proof -
  let ?o = "\<lambda>p e. JObj [(''sequence'', count_json n), (''previous'', JStr p), (''event'', e)]"
  have "?o p e = ?o q f" if "stringify (?o p e) = stringify (?o q f)"
    using stringify_prefix [of "?o p e" "?o q f" "[]" "[]"] that assms(2,3) by (simp del: stringify.simps add: count_json_def)
  then show ?thesis using assms(1) unfolding chain_digest_def by blast
qed

lemma linked_inject:
  assumes "\<not> (\<exists>x y. x \<noteq> y \<and> je_sha env x = je_sha env y)"
  shows "linked env 0 d rs \<Longrightarrow> linked env 0 e ss \<Longrightarrow> length rs = length ss \<Longrightarrow> last_digest d rs = last_digest e ss \<Longrightarrow> rs = ss"
proof (induction rs arbitrary: ss rule: rev_induct)
  case (snoc r rs)
  obtain xs x where ss: "ss = xs @ [x]" using snoc.prems(3) by (cases ss rule: rev_cases) auto
  have len: "length rs = length xs" using snoc.prems(3) ss by simp
  have r: "linked env 0 d rs" "jr_sequence r = length rs + 1" "jr_previous r = last_digest d rs"
    "jr_digest r = chain_digest env (length rs + 1) (last_digest d rs) (jr_event r)" "printable (jr_event r)"
    using snoc.prems(1) by (simp_all add: linked_append)
  have x: "linked env 0 e xs" "jr_sequence x = length rs + 1" "jr_previous x = last_digest e xs"
    "jr_digest x = chain_digest env (length rs + 1) (last_digest e xs) (jr_event x)" "printable (jr_event x)"
    using snoc.prems(2) len by (simp_all add: linked_append ss)
  have dg: "jr_digest r = jr_digest x" using snoc.prems(4) by (simp add: last_digest_def ss)
  have eq: "last_digest d rs = last_digest e xs \<and> jr_event r = jr_event x"
    using chain_digest_inject [OF _ r(5) x(5)] dg assms unfolding r(4) x(4) by blast
  then have "rs = xs" using snoc.IH [OF r(1) x(1) len] by blast
  moreover have "r = x" using r(2,3) x(2,3) dg eq by (intro journal_record.equality) simp_all
  ultimately show ?case using ss by simp
qed simp

section \<open>Properties\<close>

text \<open>
  C31. The journal never loses a record: whatever a running journal holds is found again, unchanged and in the same
  order, by every later opening of the file, after any number of failed writes, failed undos, restarts and deaths of the
  process, also in the middle of writing a line; and such an opening always succeeds. The hypothesis on the environment
  says that \<open>JSON.parse\<close> reads what \<open>JSON.stringify\<close> prints and that SHA-256 prints as 64 hexadecimal digits.
\<close>
theorem journal_never_loses_records:
  assumes "journal_laws env" and "reaches (journal_step env) ([], None) (disk, Some j)"
    and "reaches (journal_step env) (disk, Some j) (disk', p)" and "je_uuid env newId"
  shows "\<exists>j'. openJournal env newId True disk' = Inr j' \<and> prefix (jn_records j) (jn_records j')"
proof -
  have inv: "journal_inv env (disk, Some j)" by (rule jfile.reaches_inv [OF assms(2) journal_inv_initial [OF assms(1)]])
  have inv': "journal_inv env (disk', p)" by (rule jfile.reaches_inv [OF assms(3) inv])
  have le: "prefix (recorded env disk) (recorded env disk')"
    using jfile.reaches_le [OF assms(3) inv] by (simp add: journal_le_def)
  obtain i rs tail where h: "holds env disk i rs tail" "process_ok env disk i rs tail j" using inv by (auto simp: journal_inv_def)
  have held: "prefix (jn_records j) (recorded env disk)"
    using h(2) recorded_holds [OF assms(1) h(1)] by (auto simp: process_ok_def split: if_splits)
  consider (fresh) "NL \<notin> set disk'" | (full) i rs tail where "holds env disk' i rs tail" using inv' by (auto simp: journal_inv_def)
  then show ?thesis
  proof cases
    case fresh
    then have "jn_records j = []" using held le recorded_fresh [OF fresh, of env] by simp
    then show ?thesis using open_fresh [OF assms(1) fresh assms(4)] by auto
  next
    case full
    then have "openJournal env newId True disk' = Inr (opened env i rs)" using open_genuine [OF assms(1)] by (simp add: holds_def)
    moreover have "prefix (jn_records j) rs" using prefix_order.trans [OF held le] recorded_holds [OF assms(1) full] by simp
    ultimately show ?thesis by (auto simp: opened_def)
  qed
qed


section \<open>A small journal\<close>

definition ex_journal_env :: journal_env where
  "ex_journal_env = \<lparr> je_sha = (\<lambda>_. replicate 64 (CHR ''a'')),
     je_parse = (\<lambda>s. case parse_printed s of Some v \<Rightarrow> if printable v then Some v else None | None \<Rightarrow> None),
     je_uuid = (\<lambda>s. s \<noteq> []), je_datetime = (\<lambda>s. s \<noteq> []) \<rparr>"

definition ex_event :: json where
  "ex_event = JObj [(''kind'', JStr ''principal_enabled''), (''principalId'', JStr ''p''), (''at'', JStr ''t'')]"

lemma ex_event_ok: "valid_event ex_journal_env ex_event" "wire ex_event"
  by (simp_all add: valid_event_def ex_event_def ex_journal_env_def text_where_def text_at_def strict_def wire_def insert_commute)

lemma ex_journal_laws: "journal_laws ex_journal_env"
proof -
  have "parse_printed (stringify v) = Some v" if "printable v" for v
    using parse_value_printed [OF that, of "[]" "length (stringify v)"] by (simp add: parse_printed_def)
  moreover have "hex64 (replicate 64 (CHR ''a''))" by code_simp
  ultimately show ?thesis unfolding journal_laws_def by (simp add: ex_journal_env_def wire_def)
qed

definition ex_journal :: journal where
  "ex_journal = opened ex_journal_env ''j1'' []"

definition ex_appended :: journal where
  "ex_appended = snd (append_record ex_journal_env ex_event Wrote ex_journal)"

lemma ex_appended_props: "jn_records ex_appended = [next_record ex_journal_env ex_event ex_journal]" "\<not> jn_closed ex_appended" "\<not> jn_broken ex_appended"
  by (simp_all add: ex_appended_def append_record_def ex_journal_def opened_def Let_def)

lemma ex_journal_run: "reaches (journal_step ex_journal_env) ([], None) (jn_file ex_appended, Some ex_appended)"
proof -
  have u: "je_uuid ex_journal_env ''j1''" by (simp add: ex_journal_env_def)
  have "openJournal ex_journal_env ''j1'' True [] = Inr ex_journal"
    unfolding ex_journal_def by (rule open_fresh [OF ex_journal_laws _ u]) simp
  then have s1: "journal_step ex_journal_env ([], None) (jn_file ex_journal, Some ex_journal)" using u by (rule journal_step.start)
  have s2: "journal_step ex_journal_env (jn_file ex_journal, Some ex_journal) (jn_file ex_appended, Some ex_appended)"
    by (rule journal_step.append [OF ex_event_ok, of Wrote _ "fst (append_record ex_journal_env ex_event Wrote ex_journal)"])
      (simp add: ex_appended_def)
  show ?thesis using reaches_one [of "journal_step ex_journal_env", OF s1] s2 by (rule reaches.snoc)
qed

theorem journal_never_loses_records_witness:
  "\<exists>j'. openJournal ex_journal_env ''j2'' True (jn_file ex_appended @ take 5 (record_line (next_record ex_journal_env ex_event ex_appended))) = Inr j'
     \<and> prefix [next_record ex_journal_env ex_event ex_journal] (jn_records j')"
proof -
  have "journal_step ex_journal_env (jn_file ex_appended, Some ex_appended)
      (jn_file ex_appended @ take 5 (record_line (next_record ex_journal_env ex_event ex_appended)), None)"
    by (rule journal_step.append_dies [OF ex_event_ok ex_appended_props(2,3)])
  then show ?thesis
    using journal_never_loses_records [OF ex_journal_laws ex_journal_run reaches_one, where newId = "''j2''"]
    unfolding ex_appended_props(1) by (simp add: ex_journal_env_def)
qed


end
