(* ===== verification/Preview_Flow.thy ===== *)
theory Preview_Flow
  imports Prelude "HOL-Library.Sublist"
begin

text \<open>
  Flow control of preview sockets (\<^verbatim>\<open>packages/contracts/src/previews/socket-flow.ts\<close>). A flow sends one frame at a time
  and waits for its acknowledgement; the frames that wait are charged to a budget that the flows of a connection share.
  An operation takes the budget and the flow and returns them with the messages it sends to the peer and the frames it
  writes to its socket. A frame is its bytes with the binary flag; base64 is left out. Timers are inputs: the deadline of
  an acknowledgement and the next look at the buffer of the socket.
\<close>

section \<open>The flow\<close>

definition PREVIEW_FRAME_BYTES :: nat where
  "PREVIEW_FRAME_BYTES = 65536"

definition PREVIEW_QUEUE_BYTES :: int where
  "PREVIEW_QUEUE_BYTES = 8388608"

type_synonym frame = "string \<times> bool"

datatype socket_message = OpenMessage | ReadyMessage | DataMessage nat frame | AckMessage nat | CloseMessage

record socket_flow =
  pf_queue :: "frame list"
  pf_pending :: "frame option"
  pf_sequence :: nat
  pf_expected :: nat
  pf_receiving :: bool
  pf_timer :: "nat option"
  pf_ended :: bool

type_synonym flow_state = "int \<times> socket_flow"
type_synonym flow_result = "flow_state \<times> socket_message list \<times> frame list"

definition new_flow :: socket_flow where
  "new_flow = \<lparr> pf_queue = [], pf_pending = None, pf_sequence = 0, pf_expected = 0, pf_receiving = False, pf_timer = None,
     pf_ended = False \<rparr>"

definition frame_cost :: "frame \<Rightarrow> int" where
  "frame_cost x = int (length (fst x)) + 256"

definition flow_cost :: "socket_flow \<Rightarrow> int" where
  "flow_cost f = sum_list (map frame_cost (pf_queue f)) + (case pf_pending f of None \<Rightarrow> 0 | Some x \<Rightarrow> frame_cost x)"

definition close_flow :: "bool \<Rightarrow> flow_state \<Rightarrow> flow_result" where
  "close_flow notify = (\<lambda>(b, f).
     if pf_ended f then ((b, f), [], [])
     else ((b - flow_cost f, f\<lparr>pf_ended := True, pf_timer := None, pf_queue := [], pf_pending := None\<rparr>),
           if notify then [CloseMessage] else [], []))"

definition flush :: "flow_state \<Rightarrow> flow_result" where
  "flush = (\<lambda>(b, f).
     if pf_pending f \<noteq> None \<or> pf_ended f then ((b, f), [], [])
     else case pf_queue f of
            [] \<Rightarrow> ((b, f), [], [])
          | x # q \<Rightarrow> ((b, f\<lparr>pf_pending := Some x, pf_queue := q\<rparr>), [DataMessage (pf_sequence f) x], []))"

definition flow_output :: "frame \<Rightarrow> flow_state \<Rightarrow> flow_result" where
  "flow_output x = (\<lambda>(b, f).
     if pf_ended f then ((b, f), [], [])
     else
       let b1 = b + frame_cost x; f1 = f\<lparr>pf_queue := pf_queue f @ [x]\<rparr>
       in if PREVIEW_FRAME_BYTES < length (fst x) \<or> PREVIEW_QUEUE_BYTES < b1 then close_flow True (b1, f1) else flush (b1, f1))"

definition acknowledge :: "nat \<Rightarrow> int \<Rightarrow> int \<Rightarrow> flow_state \<Rightarrow> flow_result" where
  "acknowledge sq elapsed buffered = (\<lambda>(b, f).
     if pf_ended f then ((b, f), [], [])
     else if 30000 < elapsed \<or> PREVIEW_QUEUE_BYTES < buffered then close_flow True (b, f)
     else if 0 < buffered then ((b, f\<lparr>pf_timer := Some sq\<rparr>), [], [])
     else ((b, f\<lparr>pf_receiving := False, pf_timer := None, pf_expected := pf_expected f + 1\<rparr>), [AckMessage sq], []))"

definition receive_ack :: "nat \<Rightarrow> flow_state \<Rightarrow> flow_result" where
  "receive_ack sq = (\<lambda>(b, f).
     case pf_pending f of
       None \<Rightarrow> close_flow True (b, f)
     | Some x \<Rightarrow>
         if sq \<noteq> pf_sequence f then close_flow True (b, f)
         else flush (b - frame_cost x, f\<lparr>pf_pending := None, pf_sequence := pf_sequence f + 1\<rparr>))"

definition receive_data :: "nat \<Rightarrow> frame \<Rightarrow> int \<Rightarrow> flow_state \<Rightarrow> flow_result" where
  "receive_data sq x buffered = (\<lambda>(b, f).
     if pf_receiving f \<or> sq \<noteq> pf_expected f \<or> PREVIEW_FRAME_BYTES < length (fst x) then close_flow True (b, f)
     else let (s, msgs, _) = acknowledge sq 0 buffered (b, f\<lparr>pf_receiving := True\<rparr>) in (s, msgs, [x]))"

definition receive :: "socket_message \<Rightarrow> int \<Rightarrow> flow_state \<Rightarrow> flow_result" where
  "receive m buffered s =
     (if pf_ended (snd s) then (s, [], [])
      else case m of
             CloseMessage \<Rightarrow> close_flow False s
           | AckMessage sq \<Rightarrow> receive_ack sq s
           | DataMessage sq x \<Rightarrow> receive_data sq x buffered s
           | _ \<Rightarrow> (s, [], []))"

section \<open>Two flows on a connection\<close>

text \<open>An end of the connection: its flow, the messages on their way to it in order, the frames that were put into it,
  the frames it wrote to its socket, and the share of its budget that belongs to other flows.\<close>

record endpoint =
  ep_state :: flow_state
  ep_inbox :: "socket_message list"
  ep_out :: "frame list"
  ep_written :: "frame list"
  ep_others :: int

definition ep_flow :: "endpoint \<Rightarrow> socket_flow" where
  "ep_flow e = snd (ep_state e)"

datatype flow_event = PutFrame frame | TakeMessage int | LookAgain int int | Deadline | CloseFlow bool | OtherFlows int

definition apply_flow :: "flow_result \<Rightarrow> endpoint \<Rightarrow> endpoint \<times> socket_message list" where
  "apply_flow r e = (let (s, msgs, frames) = r in (e\<lparr>ep_state := s, ep_written := ep_written e @ frames\<rparr>, msgs))"

fun endpoint_event :: "flow_event \<Rightarrow> endpoint \<Rightarrow> endpoint \<times> socket_message list" where
  "endpoint_event (PutFrame x) e =
     apply_flow (flow_output x (ep_state e)) (if pf_ended (ep_flow e) then e else e\<lparr>ep_out := ep_out e @ [x]\<rparr>)"
| "endpoint_event (TakeMessage buffered) e =
     (case ep_inbox e of
        [] \<Rightarrow> (e, [])
      | m # ms \<Rightarrow> apply_flow (receive m buffered (ep_state e)) (e\<lparr>ep_inbox := ms\<rparr>))"
| "endpoint_event (LookAgain elapsed buffered) e =
     (case pf_timer (ep_flow e) of
        None \<Rightarrow> (e, [])
      | Some sq \<Rightarrow> apply_flow (acknowledge sq elapsed buffered (ep_state e)) e)"
| "endpoint_event Deadline e = apply_flow (close_flow True (ep_state e)) e"
| "endpoint_event (CloseFlow notify) e = apply_flow (close_flow notify (ep_state e)) e"
| "endpoint_event (OtherFlows n) e =
     (if 0 \<le> ep_others e + n \<and> fst (ep_state e) + n \<le> PREVIEW_QUEUE_BYTES
      then (e\<lparr>ep_state := (fst (ep_state e) + n, snd (ep_state e)), ep_others := ep_others e + n\<rparr>, [])
      else (e, []))"

definition push :: "socket_message list \<Rightarrow> endpoint \<Rightarrow> endpoint" where
  "push msgs e = e\<lparr>ep_inbox := ep_inbox e @ msgs\<rparr>"

inductive link_step :: "endpoint \<times> endpoint \<Rightarrow> endpoint \<times> endpoint \<Rightarrow> bool" where
  left: "endpoint_event ev a = (a', msgs) \<Longrightarrow> link_step (a, b) (a', push msgs b)"
| right: "endpoint_event ev b = (b', msgs) \<Longrightarrow> link_step (a, b) (push msgs a, b')"

definition new_endpoint :: endpoint where
  "new_endpoint = \<lparr> ep_state = (0, new_flow), ep_inbox = [], ep_out = [], ep_written = [], ep_others = 0 \<rparr>"

section \<open>The budget\<close>

definition budget_ok :: "endpoint \<Rightarrow> bool" where
  "budget_ok e \<longleftrightarrow> fst (ep_state e) = ep_others e + flow_cost (ep_flow e) \<and> 0 \<le> ep_others e
     \<and> fst (ep_state e) \<le> PREVIEW_QUEUE_BYTES \<and> (pf_ended (ep_flow e) \<longrightarrow> flow_cost (ep_flow e) = 0)"

definition charged :: "int \<Rightarrow> flow_state \<Rightarrow> bool" where
  "charged others s \<longleftrightarrow> fst s = others + flow_cost (snd s) \<and> (pf_ended (snd s) \<longrightarrow> flow_cost (snd s) = 0)"

lemma frame_cost_pos: "0 < frame_cost x"
  by (simp add: frame_cost_def)

lemma flow_cost_nonneg: "0 \<le> flow_cost f"
proof -
  have "0 \<le> sum_list (map frame_cost (pf_queue f))" using frame_cost_pos by (intro sum_list_nonneg) (auto intro: less_imp_le)
  then show ?thesis using frame_cost_pos [THEN less_imp_le] by (auto simp: flow_cost_def split: option.splits)
qed

lemma close_charged: "charged others s \<Longrightarrow> charged others (fst (close_flow n s)) \<and> fst (fst (close_flow n s)) \<le> max (fst s) others"
  by (cases s) (auto simp: close_flow_def charged_def flow_cost_def)

lemma flush_charged: "charged others s \<Longrightarrow> charged others (fst (flush s)) \<and> fst (fst (flush s)) = fst s"
  by (cases s; cases "pf_pending (snd s)") (auto simp: flush_def charged_def flow_cost_def split: list.splits)

lemma output_charged:
  assumes "charged others s" and "fst s \<le> PREVIEW_QUEUE_BYTES" and "others \<le> PREVIEW_QUEUE_BYTES"
  shows "charged others (fst (flow_output x s)) \<and> fst (fst (flow_output x s)) \<le> PREVIEW_QUEUE_BYTES"
proof -
  obtain b f where s: "s = (b, f)" by (cases s)
  let ?b = "b + frame_cost x" and ?f = "f\<lparr>pf_queue := pf_queue f @ [x]\<rparr>"
  show ?thesis
  proof (cases "pf_ended f")
    case False
    then have c: "charged others (?b, ?f)" using assms(1) by (simp add: charged_def s flow_cost_def)
    have "fst (fst (close_flow True (?b, ?f))) = others" using c False by (simp add: close_flow_def charged_def)
    then show ?thesis using close_charged [OF c, of True] flush_charged [OF c] assms(3) False
      by (simp add: flow_output_def s Let_def)
  qed (use assms in \<open>simp add: flow_output_def s\<close>)
qed

lemma acknowledge_charged:
  "charged others s \<Longrightarrow> others \<le> fst s \<Longrightarrow> charged others (fst (acknowledge q t n s)) \<and> fst (fst (acknowledge q t n s)) \<le> fst s"
  using close_charged [of others s True]
  by (cases s) (auto simp: acknowledge_def charged_def flow_cost_def)

lemma receive_charged:
  assumes c: "charged others s" and le: "others \<le> fst s"
  shows "charged others (fst (receive m n s)) \<and> fst (fst (receive m n s)) \<le> fst s"
proof -
  obtain b f where s: "s = (b, f)" by (cases s)
  have cl: "charged others (fst (close_flow k s)) \<and> fst (fst (close_flow k s)) \<le> fst s" for k
    using close_charged [OF c, of k] le by auto
  show ?thesis
  proof (cases m)
    case (AckMessage q)
    show ?thesis
    proof (cases "pf_pending f")
      case (Some x)
      let ?s = "(b - frame_cost x, f\<lparr>pf_pending := None, pf_sequence := pf_sequence f + 1\<rparr>)"
      have "charged others ?s" if "\<not> pf_ended f" using c Some that by (simp add: charged_def s flow_cost_def)
      then show ?thesis using c cl [of True] flush_charged [of others ?s] frame_cost_pos [of x] AckMessage Some
        by (auto simp: receive_def receive_ack_def s)
    qed (use c cl [of True] AckMessage in \<open>auto simp: receive_def receive_ack_def s\<close>)
  next
    case (DataMessage q x)
    have "charged others (b, f\<lparr>pf_receiving := True\<rparr>)" using c by (simp add: charged_def s flow_cost_def)
    then show ?thesis using c le cl [of True] acknowledge_charged [of others "(b, f\<lparr>pf_receiving := True\<rparr>)" q 0 n] DataMessage
      by (auto simp: receive_def receive_data_def s split: prod.splits)
  next
    case CloseMessage
    then show ?thesis using c cl [of False] by (auto simp: receive_def)
  qed (use c in \<open>auto simp: receive_def\<close>)
qed

lemma budget_charged: "budget_ok e \<longleftrightarrow> charged (ep_others e) (ep_state e) \<and> 0 \<le> ep_others e \<and> fst (ep_state e) \<le> PREVIEW_QUEUE_BYTES"
  by (auto simp: budget_ok_def charged_def ep_flow_def)

lemma endpoint_budget:
  assumes "budget_ok e" and "endpoint_event ev e = (e', msgs)"
  shows "budget_ok e'"
proof -
  have c: "charged (ep_others e) (ep_state e)" "0 \<le> ep_others e" "fst (ep_state e) \<le> PREVIEW_QUEUE_BYTES"
    using assms(1) by (simp_all add: budget_charged)
  have le: "ep_others e \<le> fst (ep_state e)" using c(1) flow_cost_nonneg by (simp add: charged_def)
  have o: "ep_others e \<le> PREVIEW_QUEUE_BYTES" using le c(3) by simp
  have close: "charged (ep_others e) (fst (close_flow n (ep_state e))) \<and> fst (fst (close_flow n (ep_state e))) \<le> PREVIEW_QUEUE_BYTES" for n
    using close_charged [OF c(1), of n] le c(3) by auto
  show ?thesis
  proof (cases ev)
    case (PutFrame x)
    then show ?thesis using output_charged [OF c(1,3) o, of x] assms(2) c(2)
      by (auto simp: apply_flow_def budget_charged split: prod.splits if_splits)
  next
    case (TakeMessage n)
    then show ?thesis using receive_charged [OF c(1) le, of _ n] assms c(2,3)
      by (auto simp: apply_flow_def budget_charged split: prod.splits list.splits) (metis fst_conv order.trans)+
  next
    case (LookAgain t n)
    then show ?thesis using acknowledge_charged [OF c(1) le, of _ t n] assms c(2,3)
      by (auto simp: apply_flow_def budget_charged split: prod.splits option.splits) (metis fst_conv order.trans)+
  next
    case Deadline
    then show ?thesis using close [of True] assms(2) c(2) by (auto simp: apply_flow_def budget_charged split: prod.splits)
  next
    case (CloseFlow n)
    then show ?thesis using close [of n] assms(2) c(2) by (auto simp: apply_flow_def budget_charged split: prod.splits)
  next
    case (OtherFlows n)
    then show ?thesis using c assms(2) by (auto simp: budget_charged charged_def split: if_splits)
  qed
qed

section \<open>A lane\<close>

text \<open>The lane from one end to the other: the data on its way to the receiver, the acknowledgements on their way back.\<close>

fun is_data :: "socket_message \<Rightarrow> bool" where
  "is_data (DataMessage q x) = True"
| "is_data _ = False"

fun is_ack :: "socket_message \<Rightarrow> bool" where
  "is_ack (AckMessage q) = True"
| "is_ack _ = False"

fun data_of :: "socket_message \<Rightarrow> frame list" where
  "data_of (DataMessage q x) = [x]"
| "data_of _ = []"

definition small :: "frame \<Rightarrow> bool" where
  "small x \<longleftrightarrow> length (fst x) \<le> PREVIEW_FRAME_BYTES"

definition in_step :: "socket_flow \<Rightarrow> socket_flow \<Rightarrow> socket_message list \<Rightarrow> socket_message list \<Rightarrow> frame list \<Rightarrow> frame list \<Rightarrow> bool" where
  "in_step f g D K put written \<longleftrightarrow> list_all small (pf_queue f) \<and> (pf_receiving g \<longleftrightarrow> pf_timer g \<noteq> None) \<and>
     (case pf_pending f of
        None \<Rightarrow> pf_queue f = [] \<and> D = [] \<and> K = [] \<and> \<not> pf_receiving g \<and> pf_expected g = pf_sequence f \<and> put = written
      | Some x \<Rightarrow> small x \<and>
          (D = [DataMessage (pf_sequence f) x] \<and> K = [] \<and> \<not> pf_receiving g \<and> pf_expected g = pf_sequence f \<and> put = written @ x # pf_queue f
           \<or> D = [] \<and> K = [] \<and> pf_timer g = Some (pf_sequence f) \<and> pf_expected g = pf_sequence f \<and> put = written @ pf_queue f
           \<or> D = [] \<and> K = [AckMessage (pf_sequence f)] \<and> \<not> pf_receiving g \<and> pf_expected g = pf_sequence f + 1 \<and> put = written @ pf_queue f))"

definition underway :: "endpoint \<Rightarrow> frame list" where
  "underway b = (if pf_ended (ep_flow b) then [] else concat (map data_of (ep_inbox b)))"

definition lane :: "endpoint \<Rightarrow> endpoint \<Rightarrow> bool" where
  "lane a b \<longleftrightarrow> prefix (ep_written b @ underway b) (ep_out a) \<and>
     (\<not> pf_ended (ep_flow a) \<and> \<not> pf_ended (ep_flow b) \<longrightarrow>
        in_step (ep_flow a) (ep_flow b) (filter is_data (ep_inbox b)) (filter is_ack (ep_inbox a)) (ep_out a) (ep_written b))"

lemma data_of_filter: "concat (map data_of ms) = concat (map data_of (filter is_data ms))"
  by (induction ms) (auto elim: is_data.elims)

text \<open>The messages an operation sends, when the flow ends and when it goes on.\<close>

lemma close_flow_props:
  "pf_ended (snd (fst (close_flow n s)))" "snd (snd (close_flow n s)) = []"
  "filter is_data (fst (snd (close_flow n s))) = []" "filter is_ack (fst (snd (close_flow n s))) = []"
  by (cases s; simp add: close_flow_def)+

lemma flush_props:
  "snd (snd (flush s)) = []" "filter is_ack (fst (snd (flush s))) = []"
  "pf_expected (snd (fst (flush s))) = pf_expected (snd s)" "pf_receiving (snd (fst (flush s))) = pf_receiving (snd s)"
  "pf_timer (snd (fst (flush s))) = pf_timer (snd s)" "pf_ended (snd (fst (flush s))) = pf_ended (snd s)"
  by (cases s; simp add: flush_def split: list.splits)+

lemma prefix_snocD: "prefix (xs @ ys) zs \<Longrightarrow> prefix xs zs"
  by (metis append_prefixD)

lemma prefix_self [simp]: "prefix xs xs"
  by (simp add: prefix_def)

lemma in_step_sender:
  assumes "pf_queue f' = pf_queue f" and "pf_pending f' = pf_pending f" and "pf_sequence f' = pf_sequence f"
  shows "in_step f' g D K put written = in_step f g D K put written"
  unfolding in_step_def by (simp only: assms cong del: option.case_cong_weak)

lemma in_step_receiver:
  assumes "pf_expected g' = pf_expected g" and "pf_receiving g' = pf_receiving g" and "pf_timer g' = pf_timer g"
  shows "in_step f g' D K put written = in_step f g D K put written"
  unfolding in_step_def by (simp only: assms cong del: option.case_cong_weak)

text \<open>When the sender of a lane ends, the lane keeps what was written and what is underway.\<close>

lemma lane_sender_ends:
  assumes "lane a b" and "pf_ended (ep_flow a')" and "prefix (ep_out a) (ep_out a')" and "filter is_data msgs = []"
  shows "lane a' (push msgs b)"
proof -
  have "underway (push msgs b) = underway b" using assms(4) data_of_filter [of msgs] by (simp add: underway_def push_def ep_flow_def)
  then show ?thesis using assms by (auto simp: lane_def push_def intro: prefix_order.trans)
qed

lemma lane_receiver_ends:
  assumes "prefix (ep_written b') (ep_out a)" and "pf_ended (ep_flow b')"
  shows "lane (push msgs a) b'"
  using assms by (simp add: lane_def push_def underway_def)

lemma lane_sender_same:
  assumes "lane a b" and "ep_out a' = ep_out a" and "pf_ended (ep_flow a') = pf_ended (ep_flow a)"
    and "pf_queue (ep_flow a') = pf_queue (ep_flow a)" and "pf_pending (ep_flow a') = pf_pending (ep_flow a)"
    and "pf_sequence (ep_flow a') = pf_sequence (ep_flow a)" and "filter is_ack (ep_inbox a') = filter is_ack (ep_inbox a)"
    and "filter is_data msgs = []"
  shows "lane a' (push msgs b)"
proof -
  have "underway (push msgs b) = underway b" using assms(8) data_of_filter [of msgs] by (simp add: underway_def push_def ep_flow_def)
  then show ?thesis using assms in_step_sender [OF assms(4-6)] by (simp add: lane_def push_def ep_flow_def)
qed

lemma lane_receiver_same:
  assumes "lane a b" and "ep_written b' = ep_written b" and "pf_ended (ep_flow b') = pf_ended (ep_flow b)"
    and "pf_expected (ep_flow b') = pf_expected (ep_flow b)" and "pf_receiving (ep_flow b') = pf_receiving (ep_flow b)"
    and "pf_timer (ep_flow b') = pf_timer (ep_flow b)" and "filter is_data (ep_inbox b') = filter is_data (ep_inbox b)"
    and "filter is_ack msgs = []"
  shows "lane (push msgs a) b'"
proof -
  have "underway b' = underway b" using assms(3,7) data_of_filter [of "ep_inbox b"] data_of_filter [of "ep_inbox b'"] by (simp add: underway_def)
  then show ?thesis using assms in_step_receiver [OF assms(4-6)] by (simp add: lane_def push_def ep_flow_def)
qed

text \<open>The sender of a lane flushes when nothing is pending.\<close>

lemma lane_flush:
  assumes "prefix (ep_written b @ underway b) put" and "\<not> pf_ended f" and "\<not> pf_ended (ep_flow b)" and "pf_pending f = None"
    and "list_all small (pf_queue f)" and "pf_receiving (ep_flow b) \<longleftrightarrow> pf_timer (ep_flow b) \<noteq> None" and "\<not> pf_receiving (ep_flow b)"
    and "filter is_data (ep_inbox b) = []" and "pf_expected (ep_flow b) = pf_sequence f" and "put = ep_written b @ pf_queue f"
    and "filter is_ack (ep_inbox a) = []" and "ep_out a = put"
  shows "lane (a\<lparr>ep_state := fst (flush (c, f)), ep_written := w\<rparr>) (push (fst (snd (flush (c, f)))) b)"
proof (cases "pf_queue f")
  case Nil
  then show ?thesis using assms data_of_filter [of "ep_inbox b"]
    by (simp add: flush_def lane_def in_step_def push_def ep_flow_def underway_def)
next
  case (Cons x q)
  have "concat (map data_of (ep_inbox b)) = []" using assms(8) data_of_filter [of "ep_inbox b"] by simp
  then show ?thesis using assms Cons
    by (simp del: concat_eq_Nil_conv add: flush_def lane_def in_step_def push_def ep_flow_def underway_def)
qed

lemma apply_flow_simps:
  "fst (apply_flow r e) = e\<lparr>ep_state := fst r, ep_written := ep_written e @ snd (snd r)\<rparr>" "snd (apply_flow r e) = fst (snd r)"
  by (simp_all add: apply_flow_def split: prod.splits)

lemma lane_close_left: "lane a b \<Longrightarrow> lane (fst (apply_flow (close_flow n (ep_state a)) a)) (push (snd (apply_flow (close_flow n (ep_state a)) a)) b)"
  using close_flow_props [of n "ep_state a"]
  by (intro lane_sender_ends [of a]) (simp_all add: apply_flow_simps ep_flow_def)

lemma lane_close_right: "lane a b \<Longrightarrow> lane (push (snd (apply_flow (close_flow n (ep_state b)) b)) a) (fst (apply_flow (close_flow n (ep_state b)) b))"
  using close_flow_props [of n "ep_state b"]
  by (intro lane_receiver_ends) (auto simp: apply_flow_simps ep_flow_def lane_def dest: prefix_snocD)

lemma lane_put:
  assumes l: "lane a b" and al: "\<not> pf_ended (ep_flow a)"
  shows "lane (fst (apply_flow (flow_output x (ep_state a)) (a\<lparr>ep_out := ep_out a @ [x]\<rparr>)))
    (push (snd (apply_flow (flow_output x (ep_state a)) (a\<lparr>ep_out := ep_out a @ [x]\<rparr>))) b)"
proof -
  obtain c f where s: "ep_state a = (c, f)" by (cases "ep_state a")
  let ?c = "c + frame_cost x" and ?f = "f\<lparr>pf_queue := pf_queue f @ [x]\<rparr>" and ?a = "a\<lparr>ep_out := ep_out a @ [x]\<rparr>"
  have f: "ep_flow a = f" "\<not> pf_ended f" using s al by (simp_all add: ep_flow_def)
  show ?thesis
  proof (cases "PREVIEW_FRAME_BYTES < length (fst x) \<or> PREVIEW_QUEUE_BYTES < ?c")
    case True
    then have o: "flow_output x (ep_state a) = close_flow True (?c, ?f)" using f s by (simp add: flow_output_def Let_def)
    show ?thesis unfolding o
      using close_flow_props [of True "(?c, ?f)"] by (intro lane_sender_ends [OF l]) (simp_all add: apply_flow_simps ep_flow_def)
  next
    case False
    then have o: "flow_output x (ep_state a) = flush (?c, ?f)" and sm: "small x" using f s by (simp_all add: flow_output_def Let_def small_def)
    have pre: "prefix (ep_written b @ underway b) (ep_out a @ [x])" using l by (simp add: lane_def)
    show ?thesis
    proof (cases "pf_ended (ep_flow b)")
      case True
      then show ?thesis unfolding o using pre
        by (simp add: lane_def apply_flow_simps push_def underway_def ep_flow_def)
    next
      case open_b: False
      have i: "in_step f (ep_flow b) (filter is_data (ep_inbox b)) (filter is_ack (ep_inbox a)) (ep_out a) (ep_written b)"
        using l f open_b by (simp add: lane_def)
      show ?thesis
      proof (cases "pf_pending f")
        case None
        then show ?thesis unfolding o apply_flow_simps
          by (intro lane_flush [where put = "ep_out a @ [x]"]) (use i open_b f sm pre in \<open>auto simp: in_step_def\<close>)
      next
        case (Some y)
        then have "flush (?c, ?f) = ((?c, ?f), [], [])" by (simp add: flush_def)
        moreover have "in_step ?f (ep_flow b) (filter is_data (ep_inbox b)) (filter is_ack (ep_inbox a)) (ep_out a @ [x]) (ep_written b)"
          using i Some sm by (auto simp: in_step_def)
        ultimately show ?thesis unfolding o using pre open_b f
          by (simp add: lane_def apply_flow_simps push_def ep_flow_def underway_def)
      qed
    qed
  qed
qed

lemma lane_take_left:
  assumes l: "lane a b" and m: "ep_inbox a = m # ms"
  shows "lane (fst (apply_flow (receive m n (ep_state a)) (a\<lparr>ep_inbox := ms\<rparr>))) (push (snd (apply_flow (receive m n (ep_state a)) (a\<lparr>ep_inbox := ms\<rparr>))) b)"
proof -
  obtain c f where s: "ep_state a = (c, f)" by (cases "ep_state a")
  have f: "ep_flow a = f" using s by (simp add: ep_flow_def)
  let ?a = "a\<lparr>ep_inbox := ms\<rparr>"
  have ends: ?thesis if "receive m n (ep_state a) = close_flow k (ep_state a)" for k
    unfolding that using close_flow_props [of k "ep_state a"]
    by (intro lane_sender_ends [OF l]) (simp_all add: apply_flow_simps ep_flow_def)
  show ?thesis
  proof (cases "pf_ended f")
    case True
    then have "receive m n (ep_state a) = (ep_state a, [], [])" using s by (simp add: receive_def)
    then show ?thesis using l True f by (intro lane_sender_ends [OF l]) (simp_all add: apply_flow_simps ep_flow_def s)
  next
    case open_a: False
    show ?thesis
    proof (cases m)
      case (AckMessage q)
      have r: "receive m n (ep_state a) = receive_ack q (ep_state a)" using AckMessage open_a s by (simp add: receive_def)
      show ?thesis
      proof (cases "pf_pending f = None \<or> q \<noteq> pf_sequence f")
        case True
        then have "receive m n (ep_state a) = close_flow True (ep_state a)" using r s by (auto simp: receive_ack_def split: option.splits)
        then show ?thesis by (rule ends)
      next
        case False
        then obtain x where x: "pf_pending f = Some x" and q: "q = pf_sequence f" by auto
        let ?f = "f\<lparr>pf_pending := None, pf_sequence := pf_sequence f + 1\<rparr>"
        have fl: "receive m n (ep_state a) = flush (c - frame_cost x, ?f)" using r s x q by (simp add: receive_ack_def)
        have pre: "prefix (ep_written b @ underway b) (ep_out a)" using l by (simp add: lane_def)
        show ?thesis
        proof (cases "pf_ended (ep_flow b)")
          case True
          then show ?thesis unfolding fl using pre by (simp add: lane_def apply_flow_simps push_def underway_def ep_flow_def)
        next
          case open_b: False
          have i: "in_step f (ep_flow b) (filter is_data (ep_inbox b)) (filter is_ack (ep_inbox a)) (ep_out a) (ep_written b)"
            using l f open_a open_b by (simp add: lane_def)
          have "filter is_ack (ep_inbox a) = AckMessage q # filter is_ack ms" using m AckMessage by simp
          then have k: "filter is_data (ep_inbox b) = []" "filter is_ack ms = []" "\<not> pf_receiving (ep_flow b)"
            "pf_expected (ep_flow b) = pf_sequence f + 1" "ep_out a = ep_written b @ pf_queue f" "list_all small (pf_queue f)"
            "pf_timer (ep_flow b) = None"
            using i x by (auto simp: in_step_def)
          show ?thesis unfolding fl apply_flow_simps
            by (intro lane_flush [where put = "ep_out a"]) (use k open_a open_b pre in auto)
        qed
      qed
    next
      case (DataMessage q x)
      have r: "receive m n (ep_state a) = receive_data q x n (ep_state a)" using DataMessage open_a s by (simp add: receive_def)
      show ?thesis
      proof (cases "pf_receiving f \<or> q \<noteq> pf_expected f \<or> PREVIEW_FRAME_BYTES < length (fst x)")
        case True
        then have "receive m n (ep_state a) = close_flow True (ep_state a)" using r s by (simp add: receive_data_def)
        then show ?thesis by (rule ends)
      next
        case False
        then have d: "receive m n (ep_state a) = (let (s, msgs, _) = acknowledge q 0 n (c, f\<lparr>pf_receiving := True\<rparr>) in (s, msgs, [x]))"
          using r s by (simp add: receive_data_def)
        show ?thesis
        proof (cases "PREVIEW_QUEUE_BYTES < n")
          case True
          then show ?thesis unfolding d
            by (intro lane_sender_ends [OF l])
              (use open_a in \<open>simp_all add: acknowledge_def close_flow_def apply_flow_simps ep_flow_def Let_def\<close>)
        next
          case small_n: False
          show ?thesis unfolding d
            by (intro lane_sender_same [OF l])
              (use open_a small_n s m DataMessage in \<open>simp_all add: acknowledge_def apply_flow_simps ep_flow_def Let_def\<close>)
        qed
      qed
    next
      case CloseMessage
      then have "receive m n (ep_state a) = close_flow False (ep_state a)" using open_a s by (simp add: receive_def)
      then show ?thesis by (rule ends)
    qed (use open_a s m in \<open>intro lane_sender_same [OF l]; simp add: receive_def apply_flow_simps ep_flow_def\<close>)+
  qed
qed

lemma lane_look_left:
  assumes l: "lane a b"
  shows "lane (fst (apply_flow (acknowledge q t n (ep_state a)) a)) (push (snd (apply_flow (acknowledge q t n (ep_state a)) a)) b)"
proof -
  obtain c f where s: "ep_state a = (c, f)" by (cases "ep_state a")
  show ?thesis
  proof (cases "\<not> pf_ended f \<and> (30000 < t \<or> PREVIEW_QUEUE_BYTES < n)")
    case True
    then have "acknowledge q t n (ep_state a) = close_flow True (ep_state a)" using s by (auto simp: acknowledge_def)
    then show ?thesis using lane_close_left [OF l] by simp
  next
    case False
    then show ?thesis
      by (intro lane_sender_same [OF l]) (use s in \<open>auto simp: acknowledge_def apply_flow_simps ep_flow_def\<close>)
  qed
qed

text \<open>The receiver of a lane.\<close>

lemma lane_written: "lane a b \<Longrightarrow> prefix (ep_written b) (ep_out a)"
  by (auto simp: lane_def dest: prefix_snocD)

lemma lane_put_right:
  assumes l: "lane a b"
  shows "lane (push (snd (apply_flow (flow_output x (ep_state b)) (b\<lparr>ep_out := w\<rparr>))) a) (fst (apply_flow (flow_output x (ep_state b)) (b\<lparr>ep_out := w\<rparr>)))"
proof -
  obtain c f where s: "ep_state b = (c, f)" by (cases "ep_state b")
  let ?s = "(c + frame_cost x, f\<lparr>pf_queue := pf_queue f @ [x]\<rparr>)"
  have "flow_output x (ep_state b) = (ep_state b, [], []) \<or> flow_output x (ep_state b) = close_flow True ?s
      \<or> flow_output x (ep_state b) = flush ?s"
    by (simp add: flow_output_def Let_def s)
  then consider (ended) "flow_output x (ep_state b) = (ep_state b, [], [])" | (close) "flow_output x (ep_state b) = close_flow True ?s"
    | (flush) "flow_output x (ep_state b) = flush ?s" by blast
  then show ?thesis
  proof cases
    case ended
    then show ?thesis by (intro lane_receiver_same [OF l]) (simp_all add: apply_flow_simps ep_flow_def)
  next
    case close
    then show ?thesis using close_flow_props [of True ?s] lane_written [OF l]
      by (intro lane_receiver_ends) (simp_all add: apply_flow_simps ep_flow_def)
  next
    case flush
    then show ?thesis using flush_props [of ?s] s
      by (intro lane_receiver_same [OF l]) (simp_all add: apply_flow_simps ep_flow_def)
  qed
qed

lemma acknowledge_open:
  assumes "\<not> pf_ended f" and "t \<le> 30000" and "n \<le> PREVIEW_QUEUE_BYTES"
  shows "acknowledge q t n (c, f) = (if 0 < n then ((c, f\<lparr>pf_timer := Some q\<rparr>), [], [])
    else ((c, f\<lparr>pf_receiving := False, pf_timer := None, pf_expected := pf_expected f + 1\<rparr>), [AckMessage q], []))"
  using assms by (simp add: acknowledge_def)

lemma lane_deliver:
  assumes l: "lane a b" and m: "ep_inbox b = DataMessage q x # ms" and s: "ep_state b = (c, f)" and open_b: "\<not> pf_ended f"
    and ok: "\<not> pf_receiving f" "q = pf_expected f" "length (fst x) \<le> PREVIEW_FRAME_BYTES" and n: "n \<le> PREVIEW_QUEUE_BYTES"
  shows "lane (push (snd (apply_flow (receive_data q x n (ep_state b)) (b\<lparr>ep_inbox := ms\<rparr>))) a)
    (fst (apply_flow (receive_data q x n (ep_state b)) (b\<lparr>ep_inbox := ms\<rparr>)))"
proof -
  have f: "ep_flow b = f" using s by (simp add: ep_flow_def)
  have pre: "prefix (ep_written b @ x # concat (map data_of ms)) (ep_out a)"
    using l m f open_b by (simp add: lane_def underway_def)
  have r: "receive_data q x n (ep_state b) = (if 0 < n then ((c, f\<lparr>pf_receiving := True, pf_timer := Some q\<rparr>), [], [x])
      else ((c, f\<lparr>pf_receiving := False, pf_timer := None, pf_expected := pf_expected f + 1\<rparr>), [AckMessage q], [x]))"
    using ok n open_b by (simp add: receive_data_def s acknowledge_open)
  show ?thesis
  proof (cases "pf_ended (ep_flow a)")
    case True
    then show ?thesis unfolding r using pre open_b
      by (auto simp: lane_def apply_flow_simps push_def underway_def ep_flow_def)
  next
    case open_a: False
    have i: "in_step (ep_flow a) f (filter is_data (ep_inbox b)) (filter is_ack (ep_inbox a)) (ep_out a) (ep_written b)"
      using l f open_a open_b by (simp add: lane_def)
    then obtain k: "pf_pending (ep_flow a) = Some x" "q = pf_sequence (ep_flow a)" "filter is_data ms = []"
      "filter is_ack (ep_inbox a) = []" "ep_out a = ep_written b @ x # pf_queue (ep_flow a)" "list_all small (pf_queue (ep_flow a))" "small x"
      using m by (auto simp: in_step_def split: option.splits)
    show ?thesis unfolding r using pre k open_a open_b ok(2)
      by (auto simp: lane_def apply_flow_simps push_def underway_def ep_flow_def in_step_def)
  qed
qed

lemma lane_take_right:
  assumes l: "lane a b" and m: "ep_inbox b = m # ms"
  shows "lane (push (snd (apply_flow (receive m n (ep_state b)) (b\<lparr>ep_inbox := ms\<rparr>))) a) (fst (apply_flow (receive m n (ep_state b)) (b\<lparr>ep_inbox := ms\<rparr>)))"
proof -
  obtain c f where s: "ep_state b = (c, f)" by (cases "ep_state b")
  have f: "ep_flow b = f" using s by (simp add: ep_flow_def)
  note w = lane_written [OF l]
  have ends: ?thesis if "receive m n (ep_state b) = close_flow k (ep_state b)" for k
    unfolding that using close_flow_props [of k "ep_state b"] w
    by (intro lane_receiver_ends) (simp_all add: apply_flow_simps ep_flow_def)
  show ?thesis
  proof (cases "pf_ended f")
    case True
    then have "receive m n (ep_state b) = (ep_state b, [], [])" using s by (simp add: receive_def)
    then show ?thesis using w True s by (intro lane_receiver_ends) (simp_all add: apply_flow_simps ep_flow_def)
  next
    case open_b: False
    show ?thesis
    proof (cases m)
      case (AckMessage q)
      consider (close) "receive m n (ep_state b) = close_flow True (ep_state b)"
        | (flush) x where "receive m n (ep_state b) = flush (c - frame_cost x, f\<lparr>pf_pending := None, pf_sequence := pf_sequence f + 1\<rparr>)"
        using AckMessage open_b s by (cases "pf_pending f"; cases "q = pf_sequence f") (simp_all add: receive_def receive_ack_def)
      then show ?thesis
      proof cases
        case (flush x)
        then show ?thesis using flush_props [of "(c - frame_cost x, f\<lparr>pf_pending := None, pf_sequence := pf_sequence f + 1\<rparr>)"] s m AckMessage
          by (intro lane_receiver_same [OF l]) (simp_all add: apply_flow_simps ep_flow_def)
      qed (rule ends)
    next
      case (DataMessage q x)
      have r: "receive m n (ep_state b) = receive_data q x n (ep_state b)" using DataMessage open_b s by (simp add: receive_def)
      show ?thesis
      proof (cases "pf_receiving f \<or> q \<noteq> pf_expected f \<or> PREVIEW_FRAME_BYTES < length (fst x)")
        case True
        then have "receive m n (ep_state b) = close_flow True (ep_state b)" using r s by (simp add: receive_data_def)
        then show ?thesis by (rule ends)
      next
        case False
        show ?thesis
        proof (cases "n \<le> PREVIEW_QUEUE_BYTES")
          case True
          then show ?thesis unfolding r using lane_deliver [OF l m [unfolded DataMessage] s open_b] False by simp
        next
          case large: False
          have "prefix (ep_written b @ [x]) (ep_out a)"
            using l m DataMessage f open_b prefix_snocD [of "ep_written b @ [x]" "concat (map data_of ms)"] by (simp add: lane_def underway_def)
          then show ?thesis unfolding r using False large open_b s
            by (intro lane_receiver_ends) (simp_all add: receive_data_def acknowledge_def close_flow_def apply_flow_simps ep_flow_def Let_def)
        qed
      qed
    next
      case CloseMessage
      then have "receive m n (ep_state b) = close_flow False (ep_state b)" using open_b s by (simp add: receive_def)
      then show ?thesis by (rule ends)
    qed (use open_b s m in \<open>intro lane_receiver_same [OF l]; simp add: receive_def apply_flow_simps ep_flow_def\<close>)+
  qed
qed

lemma lane_look_right:
  assumes l: "lane a b" and q: "pf_timer (ep_flow b) = Some q"
  shows "lane (push (snd (apply_flow (acknowledge q t n (ep_state b)) b)) a) (fst (apply_flow (acknowledge q t n (ep_state b)) b))"
proof -
  obtain c f where s: "ep_state b = (c, f)" by (cases "ep_state b")
  have f: "ep_flow b = f" using s by (simp add: ep_flow_def)
  show ?thesis
  proof (cases "pf_ended f \<or> 30000 < t \<or> PREVIEW_QUEUE_BYTES < n")
    case True
    then have "acknowledge q t n (ep_state b) = close_flow True (ep_state b)" using s by (auto simp: acknowledge_def close_flow_def)
    then show ?thesis using lane_close_right [OF l, of True] by simp
  next
    case False
    then have r: "acknowledge q t n (ep_state b) = (if 0 < n then ((c, f\<lparr>pf_timer := Some q\<rparr>), [], [])
      else ((c, f\<lparr>pf_receiving := False, pf_timer := None, pf_expected := pf_expected f + 1\<rparr>), [AckMessage q], []))"
      using acknowledge_open [of f t n q c] s by simp
    have pre: "prefix (ep_written b @ underway b) (ep_out a)" using l by (simp add: lane_def)
    show ?thesis
    proof (cases "pf_ended (ep_flow a)")
      case True
      then show ?thesis unfolding r using pre False f
        by (auto simp: lane_def apply_flow_simps push_def underway_def ep_flow_def)
    next
      case open_a: False
      have i: "in_step (ep_flow a) f (filter is_data (ep_inbox b)) (filter is_ack (ep_inbox a)) (ep_out a) (ep_written b)"
        using l f open_a False by (simp add: lane_def)
      then obtain x where k: "pf_pending (ep_flow a) = Some x" "small x" "q = pf_sequence (ep_flow a)" "filter is_data (ep_inbox b) = []"
        "filter is_ack (ep_inbox a) = []" "ep_out a = ep_written b @ pf_queue (ep_flow a)" "list_all small (pf_queue (ep_flow a))"
        "pf_expected f = pf_sequence (ep_flow a)" "pf_receiving f"
        using q f by (auto simp: in_step_def split: option.splits)
      show ?thesis unfolding r using pre k open_a False f q
        by (auto simp: lane_def apply_flow_simps push_def underway_def ep_flow_def in_step_def)
    qed
  qed
qed

section \<open>The connection\<close>

lemma lane_left:
  assumes l: "lane a b" and ev: "endpoint_event ev a = (a', msgs)"
  shows "lane a' (push msgs b)"
proof -
  have p: "a' = fst (endpoint_event ev a)" "msgs = snd (endpoint_event ev a)" using ev by simp_all
  have same: "lane a (push [] b)" using l by (simp add: push_def)
  show ?thesis
  proof (cases ev)
    case (PutFrame x)
    show ?thesis
    proof (cases "pf_ended (ep_flow a)")
      case True
      then have "flow_output x (ep_state a) = (ep_state a, [], [])" by (cases "ep_state a") (simp add: flow_output_def ep_flow_def)
      then show ?thesis unfolding p PutFrame using same True by (simp add: apply_flow_simps)
    next
      case False
      then show ?thesis unfolding p PutFrame using lane_put [OF l False] by simp
    qed
  next
    case (TakeMessage n)
    then show ?thesis unfolding p using same lane_take_left [OF l] by (cases "ep_inbox a") simp_all
  next
    case (LookAgain t n)
    then show ?thesis unfolding p using same lane_look_left [OF l] by (cases "pf_timer (ep_flow a)") simp_all
  next
    case Deadline
    then show ?thesis unfolding p using lane_close_left [OF l] by simp
  next
    case (CloseFlow n)
    then show ?thesis unfolding p using lane_close_left [OF l] by simp
  next
    case (OtherFlows n)
    then show ?thesis unfolding p using same by (cases "pf_ended (snd (ep_state b))") (simp_all add: lane_def push_def underway_def ep_flow_def)
  qed
qed

lemma lane_right:
  assumes l: "lane a b" and ev: "endpoint_event ev b = (b', msgs)"
  shows "lane (push msgs a) b'"
proof -
  have p: "b' = fst (endpoint_event ev b)" "msgs = snd (endpoint_event ev b)" using ev by simp_all
  have same: "lane (push [] a) b" using l by (simp add: push_def)
  show ?thesis
  proof (cases ev)
    case (PutFrame x)
    have "b = b\<lparr>ep_out := ep_out b\<rparr>" by simp
    then show ?thesis unfolding p PutFrame
      using lane_put_right [OF l, of x "ep_out b"] lane_put_right [OF l, of x "ep_out b @ [x]"] by simp
  next
    case (TakeMessage n)
    then show ?thesis unfolding p using same lane_take_right [OF l] by (cases "ep_inbox b") simp_all
  next
    case (LookAgain t n)
    then show ?thesis unfolding p using same lane_look_right [OF l] by (cases "pf_timer (ep_flow b)") simp_all
  next
    case Deadline
    then show ?thesis unfolding p using lane_close_right [OF l] by simp
  next
    case (CloseFlow n)
    then show ?thesis unfolding p using lane_close_right [OF l] by simp
  next
    case (OtherFlows n)
    then show ?thesis unfolding p using same by (cases "pf_ended (snd (ep_state b))") (simp_all add: lane_def push_def underway_def ep_flow_def)
  qed
qed

definition link_inv :: "endpoint \<times> endpoint \<Rightarrow> bool" where
  "link_inv s \<longleftrightarrow> lane (fst s) (snd s) \<and> lane (snd s) (fst s) \<and> budget_ok (fst s) \<and> budget_ok (snd s)"

lemma budget_push: "budget_ok (push msgs e) = budget_ok e"
  by (simp add: budget_ok_def push_def ep_flow_def)

interpretation link: invariant_system link_step link_inv
proof unfold_locales
  show "link_inv t" if "link_inv s" "link_step s t" for s t
    using that(2,1)
  proof cases
    case (left ev a a' msgs b)
    then show ?thesis using that(1) lane_left [of a b ev a' msgs] lane_right [of b a ev a' msgs] endpoint_budget [of a ev a' msgs]
      by (simp add: link_inv_def budget_push)
  next
    case (right ev b b' msgs a)
    then show ?thesis using that(1) lane_right [of a b ev b' msgs] lane_left [of b a ev b' msgs] endpoint_budget [of b ev b' msgs]
      by (simp add: link_inv_def budget_push)
  qed
qed

lemma link_inv_new: "link_inv (new_endpoint, new_endpoint)"
  by (simp add: link_inv_def lane_def underway_def in_step_def new_endpoint_def new_flow_def budget_ok_def ep_flow_def flow_cost_def
      PREVIEW_QUEUE_BYTES_def)

text \<open>
  C35. Frames arrive in order, once and without gaps: in every run of two connected flows, with any interleaving of
  frames, messages, slow sockets, deadlines and closes, what an end has written to its socket is a prefix of what was put
  into the other end; and while both flows are open nothing is lost: the frames put in are those written, at most one
  underway, and those queued.
\<close>
theorem frames_arrive_in_order:
  assumes "reaches link_step (new_endpoint, new_endpoint) (a, b)"
  shows "prefix (ep_written b) (ep_out a) \<and> prefix (ep_written a) (ep_out b)
    \<and> (\<not> pf_ended (ep_flow a) \<and> \<not> pf_ended (ep_flow b) \<longrightarrow>
         (\<exists>between. length between \<le> 1 \<and> ep_out a = ep_written b @ between @ pf_queue (ep_flow a)))"
proof (intro conjI impI)
  have inv: "lane a b" "lane b a" using link.reaches_inv [OF assms link_inv_new] by (simp_all add: link_inv_def)
  show "prefix (ep_written b) (ep_out a)" "prefix (ep_written a) (ep_out b)" using inv by (blast intro: lane_written)+
  assume "\<not> pf_ended (ep_flow a) \<and> \<not> pf_ended (ep_flow b)"
  then have "in_step (ep_flow a) (ep_flow b) (filter is_data (ep_inbox b)) (filter is_ack (ep_inbox a)) (ep_out a) (ep_written b)"
    using inv(1) by (simp add: lane_def)
  then have "ep_out a = ep_written b @ [] @ pf_queue (ep_flow a) \<or> (\<exists>x. ep_out a = ep_written b @ [x] @ pf_queue (ep_flow a))"
    by (auto simp: in_step_def split: option.splits)
  then show "\<exists>between. length between \<le> 1 \<and> ep_out a = ep_written b @ between @ pf_queue (ep_flow a)"
    by (metis One_nat_def le_zero_eq length_Cons linear list.size(3))
qed

text \<open>
  C36. The queue of a connection stays within its budget: at every moment of a run the budget equals what the other flows
  hold plus 256 bytes and the payload for each frame this flow still holds, it never exceeds eight mebibytes, and a flow
  that ended holds nothing.
\<close>
theorem queue_budget_is_exact:
  assumes "reaches link_step (new_endpoint, new_endpoint) (a, b)"
  shows "fst (ep_state a) = ep_others a + flow_cost (ep_flow a) \<and> fst (ep_state a) \<le> 8388608
    \<and> (if pf_ended (ep_flow a) then fst (ep_state a) = ep_others a
        else 256 * int (length (pf_queue (ep_flow a))) \<le> 8388608)"
proof -
  have b: "budget_ok a" using link.reaches_inv [OF assms link_inv_new] by (simp add: link_inv_def)
  have "256 * int (length q) \<le> sum_list (map frame_cost q)" for q by (induction q) (auto simp: frame_cost_def)
  moreover have "sum_list (map frame_cost (pf_queue (ep_flow a))) \<le> flow_cost (ep_flow a)"
    using frame_cost_pos [THEN less_imp_le] by (auto simp: flow_cost_def split: option.splits)
  ultimately have "256 * int (length (pf_queue (ep_flow a))) \<le> flow_cost (ep_flow a)" by (meson order.trans)
  then show ?thesis using b by (auto simp: budget_ok_def PREVIEW_QUEUE_BYTES_def)
qed

section \<open>A short exchange\<close>

definition ex_left :: endpoint where
  "ex_left = fst (endpoint_event (PutFrame (''hi'', False)) new_endpoint)"

definition ex_right :: endpoint where
  "ex_right = fst (endpoint_event (TakeMessage 0) (push [DataMessage 0 (''hi'', False)] new_endpoint))"

lemma ex_exchange: "reaches link_step (new_endpoint, new_endpoint) (push [AckMessage 0] ex_left, ex_right)"
proof -
  have 1: "link_step (new_endpoint, new_endpoint) (ex_left, push [DataMessage 0 (''hi'', False)] new_endpoint)"
    by (rule link_step.left [of "PutFrame (''hi'', False)"])
      (simp add: ex_left_def new_endpoint_def new_flow_def flow_output_def flush_def apply_flow_def ep_flow_def Let_def frame_cost_def
        PREVIEW_FRAME_BYTES_def PREVIEW_QUEUE_BYTES_def)
  have 2: "link_step (ex_left, push [DataMessage 0 (''hi'', False)] new_endpoint) (push [AckMessage 0] ex_left, ex_right)"
    by (rule link_step.right [of "TakeMessage 0"])
      (simp add: ex_right_def push_def new_endpoint_def new_flow_def receive_def receive_data_def acknowledge_def apply_flow_def
        PREVIEW_FRAME_BYTES_def PREVIEW_QUEUE_BYTES_def)
  show ?thesis using reaches_one [of link_step, OF 1] 2 by (rule reaches.snoc)
qed

theorem frames_arrive_in_order_witness:
  "ep_written ex_right = [(''hi'', False)] \<and> prefix (ep_written ex_right) (ep_out (push [AckMessage 0] ex_left))"
  using frames_arrive_in_order [OF ex_exchange]
  by (simp add: ex_right_def push_def new_endpoint_def new_flow_def receive_def receive_data_def acknowledge_def apply_flow_def
      PREVIEW_FRAME_BYTES_def PREVIEW_QUEUE_BYTES_def)

theorem queue_budget_is_exact_witness:
  "fst (ep_state (push [AckMessage 0] ex_left)) = 258 \<and> flow_cost (ep_flow (push [AckMessage 0] ex_left)) = 258"
  using queue_budget_is_exact [OF ex_exchange]
  by (simp add: ex_left_def push_def new_endpoint_def new_flow_def flow_output_def flush_def apply_flow_def ep_flow_def Let_def
      frame_cost_def flow_cost_def PREVIEW_FRAME_BYTES_def PREVIEW_QUEUE_BYTES_def)

end
