(* ===== verification/Egress_Policy.thy ===== *)
theory Egress_Policy
  imports Json "HOL-Library.Word" "HOL-Library.Sublist"
begin

unbundle bit_operations_syntax

text \<open>
  Network policies (\<^verbatim>\<open>packages/contracts/src/network/network.ts\<close>): the rules of a restricted workspace, which host and
  port a rule rule_covers, and which addresses count as private. The bit operations of JavaScript act on 32 bits, so an IPv4
  address is a 32-bit word. \<open>isIP\<close> is that of \<^verbatim>\<open>node:net\<close>: dotted decimal without leading zeros, or groups of hexadecimal
  digits with at most one \<open>::\<close>, an embedded IPv4 address and a zone. Host names are sequences of bytes, of which lower-casing
  changes the ASCII letters; a rule has no others.
\<close>

section \<open>Text\<close>

fun split_on :: "char \<Rightarrow> string \<Rightarrow> string list" where
  "split_on d [] = [[]]"
| "split_on d (c # s) =
     (if c = d then [] # split_on d s
      else (case split_on d s of p # ps \<Rightarrow> (c # p) # ps | [] \<Rightarrow> [[c]]))"

definition lower_char :: "char \<Rightarrow> char" where
  "lower_char c = (let n = of_char c :: nat in if 65 \<le> n \<and> n \<le> 90 then char_of (n + 32) else c)"

definition toLowerCase :: "string \<Rightarrow> string" where
  "toLowerCase s = map lower_char s"

definition is_lower :: "char \<Rightarrow> bool" where
  "is_lower c \<longleftrightarrow> 97 \<le> (of_char c :: nat) \<and> (of_char c :: nat) \<le> 122"

definition is_hex :: "char \<Rightarrow> bool" where
  "is_hex c \<longleftrightarrow> is_digit c \<or> 97 \<le> (of_char (lower_char c) :: nat) \<and> (of_char (lower_char c) :: nat) \<le> 102"

section \<open>Addresses\<close>

definition octet_text :: "string \<Rightarrow> bool" where
  "octet_text s \<longleftrightarrow> s \<noteq> [] \<and> length s \<le> 3 \<and> list_all is_digit s \<and> (hd s = CHR ''0'' \<longrightarrow> length s = 1) \<and> number_of_digits s \<le> 255"

definition isIPv4 :: "string \<Rightarrow> bool" where
  "isIPv4 s \<longleftrightarrow> length (split_on (CHR ''.'') s) = 4 \<and> list_all octet_text (split_on (CHR ''.'') s)"

definition group_text :: "string \<Rightarrow> bool" where
  "group_text s \<longleftrightarrow> s \<noteq> [] \<and> length s \<le> 4 \<and> list_all is_hex s"

text \<open>The number of 16-bit groups of a text without \<open>::\<close>; an IPv4 address at the end counts for two.\<close>

fun group_count :: "bool \<Rightarrow> string list \<Rightarrow> nat option" where
  "group_count v4 [] = Some 0"
| "group_count v4 [p] = (if group_text p then Some 1 else if v4 \<and> isIPv4 p then Some 2 else None)"
| "group_count v4 (p # ps) = (if group_text p then map_option Suc (group_count v4 ps) else None)"

definition groups_of :: "bool \<Rightarrow> string \<Rightarrow> nat option" where
  "groups_of v4 s = (if s = [] then Some 0 else group_count v4 (split_on (CHR '':'') s))"

fun cut_double :: "string \<Rightarrow> (string \<times> string) option" where
  "cut_double (a # b # s) =
     (if a = CHR '':'' \<and> b = CHR '':'' then Some ([], s)
      else map_option (\<lambda>(l, r). (a # l, r)) (cut_double (b # s)))"
| "cut_double _ = None"

definition zone_char :: "char \<Rightarrow> bool" where
  "zone_char c \<longleftrightarrow> is_digit c \<or> is_lower (lower_char c) \<or> c = CHR ''-'' \<or> c = CHR ''.'' \<or> c = CHR '':''"

definition isIPv6 :: "string \<Rightarrow> bool" where
  "isIPv6 s \<longleftrightarrow>
     (let body = takeWhile (\<lambda>c. c \<noteq> CHR ''%'') s; zone = dropWhile (\<lambda>c. c \<noteq> CHR ''%'') s
      in (zone = [] \<or> tl zone \<noteq> [] \<and> list_all zone_char (tl zone)) \<and>
         (case cut_double body of
            None \<Rightarrow> groups_of True body = Some 8
          | Some (l, r) \<Rightarrow>
              (case (groups_of False l, groups_of True r) of (Some m, Some n) \<Rightarrow> m + n \<le> 7 | _ \<Rightarrow> False)))"

definition isIP :: "string \<Rightarrow> nat" where
  "isIP s = (if isIPv4 s then 4 else if isIPv6 s then 6 else 0)"

definition ipv4Number :: "string \<Rightarrow> 32 word" where
  "ipv4Number address = foldl (\<lambda>v octet. push_bit 8 v OR of_nat (number_of_digits octet)) 0 (split_on (CHR ''.'') address)"

definition inV4Range :: "32 word \<Rightarrow> string \<Rightarrow> nat \<Rightarrow> bool" where
  "inV4Range address base bits \<longleftrightarrow>
     (let m = (if bits = 0 then 0 else push_bit (32 - bits) (- 1)) in address AND m = ipv4Number base AND m)"

definition PRIVATE_RANGES :: "(string \<times> nat) list" where
  "PRIVATE_RANGES =
     [(''0.0.0.0'', 8), (''10.0.0.0'', 8), (''100.64.0.0'', 10), (''127.0.0.0'', 8), (''169.254.0.0'', 16), (''172.16.0.0'', 12),
      (''192.0.0.0'', 24), (''192.0.2.0'', 24), (''192.168.0.0'', 16), (''198.18.0.0'', 15), (''198.51.100.0'', 24),
      (''203.0.113.0'', 24), (''224.0.0.0'', 4), (''240.0.0.0'', 4)]"

definition PRIVATE_PREFIXES :: "string list" where
  "PRIVATE_PREFIXES = [''fc'', ''fd'', ''fe8'', ''fe9'', ''fea'', ''feb'', ''fec'', ''fed'', ''fee'', ''fef'', ''ff'', ''2001:db8:'']"

function isPrivateAddress :: "string \<Rightarrow> bool" where
  "isPrivateAddress address =
     (if isIP address = 4 then list_ex (\<lambda>(base, bits). inV4Range (ipv4Number address) base bits) PRIVATE_RANGES
      else if isIP address \<noteq> 6 then True
      else
        let normalized = toLowerCase address in
        if prefix ''::ffff:'' normalized then isPrivateAddress (drop 7 normalized)
        else normalized = ''::'' \<or> normalized = ''::1'' \<or> list_ex (\<lambda>p. prefix p normalized) PRIVATE_PREFIXES)"
  by pat_completeness auto
termination
  by (relation "measure length") (auto simp: toLowerCase_def dest!: prefix_length_le)

declare isPrivateAddress.simps [simp del]

section \<open>Rules\<close>

definition label_char :: "char \<Rightarrow> bool" where
  "label_char c \<longleftrightarrow> is_lower c \<or> is_digit c"

definition DOMAIN_LABEL :: "string \<Rightarrow> bool" where
  "DOMAIN_LABEL l \<longleftrightarrow> l \<noteq> [] \<and> length l \<le> 63 \<and> label_char (hd l) \<and> label_char (last l)
     \<and> list_all (\<lambda>c. label_char c \<or> c = CHR ''-'') l"

definition isDomain :: "string \<Rightarrow> bool" where
  "isDomain v \<longleftrightarrow>
     (let domain = (if prefix ''*.'' v then drop 2 v else v)
      in length domain \<le> 253 \<and> \<not> suffix ''.'' domain \<and> isIP domain = 0 \<and> 2 \<le> length (split_on (CHR ''.'') domain)
         \<and> list_all DOMAIN_LABEL (split_on (CHR ''.'') domain))"

record network_rule =
  nr_domain :: string
  nr_ports :: "nat list"
  nr_allowPrivate :: bool

datatype network_policy = Unrestricted | Restricted "network_rule list"

definition valid_rule :: "network_rule \<Rightarrow> bool" where
  "valid_rule r \<longleftrightarrow> isDomain (nr_domain r) \<and> 1 \<le> length (nr_ports r) \<and> length (nr_ports r) \<le> 32
     \<and> list_all (\<lambda>p. 1 \<le> p \<and> p \<le> 65535) (nr_ports r) \<and> distinct (nr_ports r)"

fun valid_policy :: "network_policy \<Rightarrow> bool" where
  "valid_policy Unrestricted = True"
| "valid_policy (Restricted rules) = (length rules \<le> 256 \<and> list_all valid_rule rules)"

definition matchesDomain :: "string \<Rightarrow> string \<Rightarrow> bool" where
  "matchesDomain pattern host \<longleftrightarrow>
     (if \<not> prefix ''*.'' pattern then host = pattern
      else let suf = drop 1 pattern in suffix suf host \<and> length suf < length host)"

fun findNetworkRule :: "network_policy \<Rightarrow> string \<Rightarrow> nat \<Rightarrow> network_rule option" where
  "findNetworkRule Unrestricted host port = None"
| "findNetworkRule (Restricted rules) host port =
     List.find (\<lambda>rule. port \<in> set (nr_ports rule) \<and> matchesDomain (nr_domain rule) (toLowerCase host)) rules"

section \<open>Which IPv4 addresses are private\<close>

lemma split_on_append: "d \<notin> set p \<Longrightarrow> split_on d (p @ d # s) = p # split_on d s"
  by (induction p) auto

lemma split_on_free: "d \<notin> set p \<Longrightarrow> split_on d p = [p]"
  by (induction p) auto

definition dotted :: "nat \<Rightarrow> nat \<Rightarrow> nat \<Rightarrow> nat \<Rightarrow> string" where
  "dotted a b c d = decimal a @ CHR ''.'' # decimal b @ CHR ''.'' # decimal c @ CHR ''.'' # decimal d"

lemma decimal_free: "\<not> is_digit x \<Longrightarrow> x \<notin> set (decimal n)"
  using decimal_digits [of n] by (auto simp: list_all_iff)

lemma not_digit [simp]: "\<not> is_digit (CHR ''.'')" "\<not> is_digit (CHR '':'')" "\<not> is_digit (CHR ''%'')"
  by (simp_all add: is_digit_def)

lemma split_dotted: "split_on (CHR ''.'') (dotted a b c d) = [decimal a, decimal b, decimal c, decimal d]"
  by (simp add: dotted_def split_on_append split_on_free decimal_free)

lemma number_decimal [simp]: "number_of_digits (decimal n) = n"
  using decimal_digits [of n] by simp

lemma decimal_octet:
  assumes "n \<le> 255"
  shows "octet_text (decimal n)"
proof -
  let ?D = "\<lambda>k. char_of (48 + k) :: char"
  have 1: "decimal n = [?D n]" if "n < 10" using that by (simp add: decimal.simps)
  have 2: "decimal n = [?D (n div 10), ?D (n mod 10)]" if "10 \<le> n" "n < 100"
    using that by (simp add: decimal.simps)
  have 3: "decimal n = [?D (n div 10 div 10), ?D (n div 10 mod 10), ?D (n mod 10)]" if "100 \<le> n"
  proof -
    have "\<not> n < 10" "\<not> n div 10 < 10" "n div 10 div 10 < 10" using that assms by simp_all
    then show ?thesis by (simp add: decimal.simps [of n] decimal.simps [of "n div 10"] decimal.simps [of "n div 10 div 10"])
  qed
  have z: "?D k \<noteq> CHR ''0''" if "0 < k" "k < 10" for k :: nat
    using that by (auto dest!: arg_cong [where f = "of_char :: char \<Rightarrow> nat"] simp: of_char_of)
  consider "n < 10" | "10 \<le> n" "n < 100" | "100 \<le> n" by linarith
  then have "decimal n \<noteq> [] \<and> length (decimal n) \<le> 3 \<and> (hd (decimal n) = CHR ''0'' \<longrightarrow> length (decimal n) = 1)"
    by cases (use 1 2 3 assms z [of "n div 10"] z [of "n div 10 div 10"] in auto)
  then show ?thesis using decimal_digits [of n] assms by (simp add: octet_text_def)
qed

lemma isIP_dotted: "a \<le> 255 \<Longrightarrow> b \<le> 255 \<Longrightarrow> c \<le> 255 \<Longrightarrow> d \<le> 255 \<Longrightarrow> isIP (dotted a b c d) = 4"
  by (simp add: isIP_def isIPv4_def split_dotted decimal_octet)

text \<open>Shifting a byte in is multiplication and addition, and equal masked words are words with the same high bits.\<close>

lemma shift_in:
  fixes v :: "32 word"
  assumes "n < 256"
  shows "push_bit 8 v OR of_nat n = v * 256 + of_nat n"
proof -
  have high: "\<not> bit (of_nat n :: 32 word) i" if "8 \<le> i" for i
  proof -
    have "n < 2 ^ 8" using assms by simp
    also have "(2::nat) ^ 8 \<le> 2 ^ i" using that by (intro power_increasing) simp_all
    finally have "\<not> bit n i" by (simp add: bit_iff_odd)
    then show ?thesis by (simp only: bit_of_nat_iff) simp
  qed
  have "push_bit 8 v + of_nat n = push_bit 8 v OR of_nat n"
    by (rule disjunctive_add) (use high in \<open>auto simp: bit_push_bit_iff not_le\<close>)
  moreover have "push_bit 8 v = v * 256" by (simp add: push_bit_eq_mult)
  ultimately show ?thesis by metis
qed

lemma ipv4Number_dotted:
  assumes "a \<le> 255" "b \<le> 255" "c \<le> 255" "d \<le> 255"
  shows "ipv4Number (dotted a b c d) = of_nat (((a * 256 + b) * 256 + c) * 256 + d)"
  using assms shift_in [of a 0] by (simp add: ipv4Number_def split_dotted shift_in algebra_simps)

lemma mask_eq_iff_drop:
  fixes x y :: "32 word"
  assumes "k < 32"
  shows "x AND NOT (mask k) = y AND NOT (mask k) \<longleftrightarrow> drop_bit k x = drop_bit k y"
proof
  assume e: "x AND NOT (mask k) = y AND NOT (mask k)"
  show "drop_bit k x = drop_bit k y"
  proof (rule bit_eqI)
    fix n
    have "bit (x AND NOT (mask k)) (k + n) = bit (y AND NOT (mask k)) (k + n)" using e by simp
    then show "bit (drop_bit k x) n = bit (drop_bit k y) n"
      by (auto simp: bit_and_iff bit_not_iff bit_mask_iff bit_drop_bit_eq dest: bit_imp_le_length)
  qed
next
  assume e: "drop_bit k x = drop_bit k y"
  show "x AND NOT (mask k) = y AND NOT (mask k)"
  proof (rule bit_eqI)
    fix n
    have "bit (drop_bit k x) (n - k) = bit (drop_bit k y) (n - k)" using e by simp
    then show "bit (x AND NOT (mask k)) n = bit (y AND NOT (mask k)) n"
      by (auto simp: bit_and_iff bit_not_iff bit_mask_iff bit_drop_bit_eq)
  qed
qed

lemma inV4Range_iff:
  assumes "0 < bits" "bits \<le> 32" "n < 2 ^ 32" "m < 2 ^ 32" and base: "ipv4Number base = of_nat m"
  shows "inV4Range (of_nat n) base bits \<longleftrightarrow> n div 2 ^ (32 - bits) = m div 2 ^ (32 - bits)"
proof -
  have u: "unat (of_nat k :: 32 word) = k" if "k < 2 ^ 32" for k
    using that by (simp add: unat_of_nat take_bit_eq_mod)
  have "inV4Range (of_nat n) base bits \<longleftrightarrow> drop_bit (32 - bits) (of_nat n :: 32 word) = drop_bit (32 - bits) (of_nat m)"
    using assms by (simp add: inV4Range_def base mask_eq_iff_drop Let_def)
  also have "\<dots> \<longleftrightarrow> unat (drop_bit (32 - bits) (of_nat n :: 32 word)) = unat (drop_bit (32 - bits) (of_nat m :: 32 word))"
    by (simp only: word_unat_eq_iff)
  also have "\<dots> \<longleftrightarrow> n div 2 ^ (32 - bits) = m div 2 ^ (32 - bits)"
    by (simp only: unat_drop_bit_eq u [OF assms(3)] u [OF assms(4)]) (simp only: drop_bit_eq_div)
  finally show ?thesis .
qed

text \<open>The private ranges, octet by octet: the special-purpose blocks of IPv4.\<close>

definition special_purpose :: "nat \<Rightarrow> nat \<Rightarrow> nat \<Rightarrow> bool" where
  "special_purpose a b c \<longleftrightarrow> a = 0 \<or> a = 10 \<or> a = 100 \<and> 64 \<le> b \<and> b \<le> 127 \<or> a = 127 \<or> a = 169 \<and> b = 254
     \<or> a = 172 \<and> 16 \<le> b \<and> b \<le> 31 \<or> a = 192 \<and> b = 0 \<and> c = 0 \<or> a = 192 \<and> b = 0 \<and> c = 2 \<or> a = 192 \<and> b = 168
     \<or> a = 198 \<and> (b = 18 \<or> b = 19) \<or> a = 198 \<and> b = 51 \<and> c = 100 \<or> a = 203 \<and> b = 0 \<and> c = 113 \<or> 224 \<le> a"

lemma range_base:
  "ipv4Number ''0.0.0.0'' = of_nat 0" "ipv4Number ''10.0.0.0'' = of_nat 167772160" "ipv4Number ''100.64.0.0'' = of_nat 1681915904"
  "ipv4Number ''127.0.0.0'' = of_nat 2130706432" "ipv4Number ''169.254.0.0'' = of_nat 2851995648"
  "ipv4Number ''172.16.0.0'' = of_nat 2886729728" "ipv4Number ''192.0.0.0'' = of_nat 3221225472"
  "ipv4Number ''192.0.2.0'' = of_nat 3221225984" "ipv4Number ''192.168.0.0'' = of_nat 3232235520"
  "ipv4Number ''198.18.0.0'' = of_nat 3323068416" "ipv4Number ''198.51.100.0'' = of_nat 3325256704"
  "ipv4Number ''203.0.113.0'' = of_nat 3405803776" "ipv4Number ''224.0.0.0'' = of_nat 3758096384"
  "ipv4Number ''240.0.0.0'' = of_nat 4026531840"
  by (simp_all add: ipv4Number_def number_of_digits_def digit_value_def)

lemma private_number:
  assumes n: "n < 2 ^ 32"
  shows "list_ex (\<lambda>(base, bits). inV4Range (of_nat n) base bits) PRIVATE_RANGES \<longleftrightarrow>
      n div 2 ^ 24 = 0 \<or> n div 2 ^ 24 = 10 \<or> n div 2 ^ 22 = 401 \<or> n div 2 ^ 24 = 127 \<or> n div 2 ^ 16 = 43518 \<or> n div 2 ^ 20 = 2753
      \<or> n div 2 ^ 8 = 12582912 \<or> n div 2 ^ 8 = 12582914 \<or> n div 2 ^ 16 = 49320 \<or> n div 2 ^ 17 = 25353 \<or> n div 2 ^ 8 = 12989284
      \<or> n div 2 ^ 8 = 13303921 \<or> n div 2 ^ 28 = 14 \<or> n div 2 ^ 28 = 15"
  by (simp add: PRIVATE_RANGES_def range_base [THEN inV4Range_iff [OF _ _ n, rotated 3]])

lemma shifted_eq: "y < m \<Longrightarrow> x * m + y = k \<longleftrightarrow> x = k div m \<and> y = k mod m" for x y m k :: nat
  by auto

lemma div_range: "0 < m \<Longrightarrow> b div m = k \<longleftrightarrow> k * m \<le> b \<and> b < Suc k * m" for b m k :: nat
  by (metis div_nat_eqI dividend_less_div_times div_times_less_eq_dividend mult.commute mult_Suc)

lemma private_v4:
  assumes "a \<le> 255" "b \<le> 255" "c \<le> 255" "d \<le> 255"
  shows "isPrivateAddress (dotted a b c d) \<longleftrightarrow> special_purpose a b c"
proof -
  let ?n = "((a * 256 + b) * 256 + c) * 256 + d"
  have n: "?n < 2 ^ 32" using assms by simp
  have "isPrivateAddress (dotted a b c d) \<longleftrightarrow> list_ex (\<lambda>(base, bits). inV4Range (of_nat ?n) base bits) PRIVATE_RANGES"
    by (subst isPrivateAddress.simps) (simp only: isIP_dotted [OF assms] ipv4Number_dotted [OF assms] simp_thms if_True)
  moreover have "?n div 2 ^ 24 = a" "?n div 2 ^ 22 = a * 4 + b div 64" "?n div 2 ^ 16 = a * 256 + b" "?n div 2 ^ 20 = a * 16 + b div 16"
    "?n div 2 ^ 8 = (a * 256 + b) * 256 + c" "?n div 2 ^ 17 = a * 128 + b div 2" "?n div 2 ^ 28 = a div 16"
    using assms by simp_all
  ultimately have p: "isPrivateAddress (dotted a b c d) \<longleftrightarrow> a = 0 \<or> a = 10 \<or> a * 4 + b div 64 = 401 \<or> a = 127 \<or> a * 256 + b = 43518
      \<or> a * 16 + b div 16 = 2753 \<or> (a * 256 + b) * 256 + c = 12582912 \<or> (a * 256 + b) * 256 + c = 12582914 \<or> a * 256 + b = 49320
      \<or> a * 128 + b div 2 = 25353 \<or> (a * 256 + b) * 256 + c = 12989284 \<or> (a * 256 + b) * 256 + c = 13303921 \<or> a div 16 = 14 \<or> a div 16 = 15"
    by (simp only: private_number [OF n])
  have q: "a * 4 + b div 64 = 401 \<longleftrightarrow> a = 100 \<and> 64 \<le> b \<and> b \<le> 127" "a * 16 + b div 16 = 2753 \<longleftrightarrow> a = 172 \<and> 16 \<le> b \<and> b \<le> 31"
    "a * 128 + b div 2 = 25353 \<longleftrightarrow> a = 198 \<and> (b = 18 \<or> b = 19)"
    using assms shifted_eq [of "b div 64" 4 a 401] shifted_eq [of "b div 16" 16 a 2753] shifted_eq [of "b div 2" 128 a 25353]
      div_range [of 64 b 1] div_range [of 16 b 1] div_range [of 2 b 9] by auto
  have r: "a div 16 = 14 \<or> a div 16 = 15 \<longleftrightarrow> 224 \<le> a"
    using assms div_range [of 16 a 14] div_range [of 16 a 15] by auto
  have t: "a * 256 + b = k \<longleftrightarrow> a = k div 256 \<and> b = k mod 256"
    "(a * 256 + b) * 256 + c = k \<longleftrightarrow> a = k div 256 div 256 \<and> b = k div 256 mod 256 \<and> c = k mod 256" for k
    using assms shifted_eq [of b 256 a] shifted_eq [of c 256 "a * 256 + b"] by auto
  have k: "a * 256 + b = 43518 \<longleftrightarrow> a = 169 \<and> b = 254" "a * 256 + b = 49320 \<longleftrightarrow> a = 192 \<and> b = 168"
    "(a * 256 + b) * 256 + c = 12582912 \<longleftrightarrow> a = 192 \<and> b = 0 \<and> c = 0" "(a * 256 + b) * 256 + c = 12582914 \<longleftrightarrow> a = 192 \<and> b = 0 \<and> c = 2"
    "(a * 256 + b) * 256 + c = 12989284 \<longleftrightarrow> a = 198 \<and> b = 51 \<and> c = 100" "(a * 256 + b) * 256 + c = 13303921 \<longleftrightarrow> a = 203 \<and> b = 0 \<and> c = 113"
    by (simp_all only: t) simp_all
  show ?thesis unfolding p q k r special_purpose_def ..
qed

text \<open>The mapped addresses \<open>::ffff:a.b.c.d\<close> are classified like the address they embed, and what is no address is private.\<close>

lemma dotted_chars: "x \<in> set (dotted a b c d) \<Longrightarrow> is_digit x \<or> x = CHR ''.''"
  using decimal_digits [of a] decimal_digits [of b] decimal_digits [of c] decimal_digits [of d] by (auto simp: dotted_def list_all_iff)

lemma lower_dotted: "toLowerCase (dotted a b c d) = dotted a b c d"
  unfolding toLowerCase_def by (rule map_idI) (auto simp: lower_char_def Let_def is_digit_def dest!: dotted_chars)

lemma isIP_mapped:
  assumes "a \<le> 255" "b \<le> 255" "c \<le> 255" "d \<le> 255"
  shows "isIP (''::ffff:'' @ dotted a b c d) = 6"
proof -
  let ?s = "dotted a b c d"
  have free: "x \<notin> set ?s" if "\<not> is_digit x" "x \<noteq> CHR ''.''" for x using that dotted_chars by blast
  have "\<exists>p ps. split_on (CHR ''.'') ?s = p # ps" by (simp add: split_dotted)
  then have v4: "\<not> isIPv4 (''::ffff:'' @ ?s)"
    by (auto simp: isIPv4_def octet_text_def)
  have body: "takeWhile (\<lambda>x. x \<noteq> CHR ''%'') (''::ffff:'' @ ?s) = ''::ffff:'' @ ?s" "dropWhile (\<lambda>x. x \<noteq> CHR ''%'') (''::ffff:'' @ ?s) = []"
    using free [of "CHR ''%''"] by (auto simp: takeWhile_eq_all_conv)
  have "CHR ''.'' \<in> set ?s" by (simp add: dotted_def)
  moreover have "\<not> is_hex (CHR ''.'')" by (simp add: is_hex_def lower_char_def)
  ultimately have "\<not> group_text ?s" unfolding group_text_def list_all_iff by blast
  moreover have "isIPv4 ?s" using isIP_dotted [OF assms] by (auto simp: isIP_def split: if_splits)
  moreover have "split_on (CHR '':'') (''ffff:'' @ ?s) = [''ffff'', ?s]"
    using split_on_append [of "CHR '':''" "''ffff''" ?s] split_on_free [of "CHR '':''" ?s] free [of "CHR '':''"] by simp
  moreover have "group_text ''ffff''" by (simp add: group_text_def is_hex_def lower_char_def)
  ultimately have "groups_of True (''ffff:'' @ ?s) = Some 3" by (simp add: groups_of_def)
  then have "isIPv6 (''::ffff:'' @ ?s)" unfolding isIPv6_def body by (simp add: groups_of_def)
  then show ?thesis using v4 by (simp add: isIP_def)
qed



section \<open>Which hosts a rule rule_covers\<close>

definition rule_covers :: "network_rule \<Rightarrow> string \<Rightarrow> bool" where
  "rule_covers r host \<longleftrightarrow> nr_domain r = host \<or> (\<exists>sub domain. sub \<noteq> [] \<and> nr_domain r = ''*.'' @ domain \<and> host = sub @ ''.'' @ domain)"

lemma matches_rule_covers: "matchesDomain (nr_domain r) host \<Longrightarrow> rule_covers r host"
  by (auto simp: matchesDomain_def rule_covers_def Let_def suffix_def prefix_def split: if_splits)

lemma find_rule:
  "findNetworkRule policy host port = Some r \<Longrightarrow> \<exists>rules. policy = Restricted rules \<and> r \<in> set rules \<and> port \<in> set (nr_ports r)
     \<and> rule_covers r (toLowerCase host)"
  by (cases policy) (auto simp: find_Some_iff intro!: matches_rule_covers)

end
