(* ===== verification/Egress_Proxy.thy ===== *)
theory Egress_Proxy
  imports Egress_Policy
begin

text \<open>
  The sidecar of a restricted network (\<^verbatim>\<open>packages/egress/src/proxy/proxy.ts\<close>, \<^verbatim>\<open>packages/egress/src/audit/audit.ts\<close>): every
  request of a workspace goes through a proxy that decides by the policy, connects to the address it has checked, and records
  the decision in a bounded queue that is uploaded in batches. A request is handled in parts, between which other requests
  run: the request, the answer of the name server, the end of the upstream connection. What the operations read from outside is
  their argument: the parsed URL, the addresses, the answer to an upload, the clock.
\<close>

section \<open>The audit queue\<close>

record network_event =
  ne_source_seq :: nat
  ne_occurred_at :: time
  ne_allow :: bool
  ne_transport :: string
  ne_host :: string
  ne_port :: nat
  ne_method :: "string option"
  ne_path :: "string option"
  ne_matched_rule :: "string option"
  ne_reason :: string

definition json_or_null :: "string option \<Rightarrow> json" where
  "json_or_null x = (case x of None \<Rightarrow> JNull | Some s \<Rightarrow> JStr s)"

definition event_json :: "network_event \<Rightarrow> json" where
  "event_json e = JObj
     [(''decision'', JStr (if ne_allow e then ''allow'' else ''deny'')), (''transport'', JStr (ne_transport e)), (''host'', JStr (ne_host e)),
      (''port'', JNum (int (ne_port e))), (''reason'', JStr (ne_reason e)), (''source_seq'', JNum (int (ne_source_seq e))),
      (''occurred_at'', JStr (toISOString (ne_occurred_at e))), (''method'', json_or_null (ne_method e)),
      (''path'', json_or_null (ne_path e)), (''matched_rule'', json_or_null (ne_matched_rule e))]"

text \<open>What the server accepts of an event; a batch with another event is refused as a whole.\<close>

definition event_schema :: "network_event \<Rightarrow> bool" where
  "event_schema e \<longleftrightarrow> 0 < ne_source_seq e \<and> ne_transport e \<in> {''http'', ''https''} \<and> 1 \<le> length (ne_host e) \<and> length (ne_host e) \<le> 253
     \<and> 1 \<le> ne_port e \<and> ne_port e \<le> 65535 \<and> (case ne_method e of None \<Rightarrow> True | Some m \<Rightarrow> length m \<le> 32)
     \<and> (case ne_path e of None \<Rightarrow> True | Some p \<Rightarrow> length p \<le> 2048 \<and> CHR ''?'' \<notin> set p \<and> CHR ''#'' \<notin> set p)
     \<and> (case ne_matched_rule e of None \<Rightarrow> True | Some r \<Rightarrow> length r \<le> 512) \<and> 1 \<le> length (ne_reason e) \<and> length (ne_reason e) \<le> 128"

definition MAX_EVENTS :: nat where
  "MAX_EVENTS = 1000"

definition MAX_BYTES :: nat where
  "MAX_BYTES = 4194304"

definition ADMISSION_BYTES :: nat where
  "ADMISSION_BYTES = 4096"

text \<open>\<open>aq_timer\<close> is the delay of the timer that is set; \<open>close\<close> stops the timer without clearing the field.\<close>

record audit_queue =
  aq_events :: "(network_event \<times> nat) list"
  aq_bytes :: nat
  aq_uploading :: "(network_event \<times> nat) list option"
  aq_retryMs :: int
  aq_timer :: "int option"
  aq_stopped :: bool

definition new_queue :: audit_queue where
  "new_queue = \<lparr> aq_events = [], aq_bytes = 0, aq_uploading = None, aq_retryMs = 250, aq_timer = None, aq_stopped = False \<rparr>"

definition canAccept :: "audit_queue \<Rightarrow> bool" where
  "canAccept q \<longleftrightarrow> length (aq_events q) < MAX_EVENTS \<and> aq_bytes q + ADMISSION_BYTES \<le> MAX_BYTES"

definition schedule :: "int \<Rightarrow> audit_queue \<Rightarrow> audit_queue" where
  "schedule delay q = (if aq_timer q \<noteq> None \<or> aq_uploading q \<noteq> None then q else q\<lparr>aq_timer := Some delay\<rparr>)"

definition record_event :: "network_event \<Rightarrow> audit_queue \<Rightarrow> js_error + audit_queue" where
  "record_event e q =
     (let bytes = length (stringify (event_json e)) in
      if MAX_EVENTS \<le> length (aq_events q) \<or> MAX_BYTES < aq_bytes q + bytes then Inl (PlainError ''audit buffer full'')
      else Inr (schedule 0 (q\<lparr>aq_events := aq_events q @ [(e, bytes)], aq_bytes := aq_bytes q + bytes\<rparr>)))"

definition begin_flush :: "audit_queue \<Rightarrow> audit_queue" where
  "begin_flush q = (if aq_uploading q \<noteq> None \<or> aq_events q = [] then q else q\<lparr>aq_uploading := Some (take 100 (aq_events q))\<rparr>)"

definition timer_fires :: "audit_queue \<Rightarrow> audit_queue" where
  "timer_fires q = (if aq_timer q = None \<or> aq_stopped q then q else begin_flush (q\<lparr>aq_timer := None\<rparr>))"

definition end_flush :: "bool \<Rightarrow> (network_event \<times> nat) list \<Rightarrow> audit_queue \<Rightarrow> audit_queue" where
  "end_flush ok batch q =
     (if ok then
        let q1 = q\<lparr>aq_events := drop (length batch) (aq_events q), aq_bytes := aq_bytes q - sum_list (map snd batch), aq_retryMs := 250,
                   aq_uploading := None\<rparr>
        in if aq_events q1 \<noteq> [] then schedule 0 q1 else q1
      else schedule (aq_retryMs q) (q\<lparr>aq_retryMs := min (aq_retryMs q * 2) 10000, aq_uploading := None\<rparr>))"

definition close_queue :: "audit_queue \<Rightarrow> audit_queue" where
  "close_queue q = (if aq_timer q \<noteq> None then q\<lparr>aq_stopped := True\<rparr> else q)"

section \<open>Decisions\<close>

datatype validation = Admitted network_rule string | Refused "network_rule option" string

definition validate :: "network_policy \<Rightarrow> string \<Rightarrow> nat \<Rightarrow> string list option \<Rightarrow> validation" where
  "validate policy host port answer =
     (case findNetworkRule policy host port of
        None \<Rightarrow> Refused None ''no_matching_rule''
      | Some rule \<Rightarrow>
          (case answer of
             None \<Rightarrow> Refused (Some rule) ''dns_failed''
           | Some [] \<Rightarrow> Refused (Some rule) ''dns_failed''
           | Some (a # as) \<Rightarrow>
               if \<not> nr_allowPrivate rule \<and> list_ex isPrivateAddress (a # as) then Refused (Some rule) ''private_address''
               else Admitted rule a))"

definition host_char :: "char \<Rightarrow> bool" where
  "host_char c \<longleftrightarrow> is_lower c \<or> is_digit c \<or> c = CHR ''.'' \<or> c = CHR ''-''"

definition connectTarget :: "string \<Rightarrow> (string \<times> nat) option" where
  "connectTarget v =
     (let s = toLowerCase v; host = takeWhile host_char s; rest = dropWhile host_char s
      in case rest of
           [] \<Rightarrow> None
         | c # digits \<Rightarrow>
             if c = CHR '':'' \<and> host \<noteq> [] \<and> digits \<noteq> [] \<and> length digits \<le> 5 \<and> list_all is_digit digits
                \<and> 1 \<le> number_of_digits digits \<and> number_of_digits digits \<le> 65535
             then Some (host, number_of_digits digits) else None)"

record url =
  u_protocol :: string
  u_username :: string
  u_password :: string
  u_hostname :: string
  u_port :: "nat option"
  u_pathname :: string

definition http_target :: "url option \<Rightarrow> (string \<times> nat \<times> string) option" where
  "http_target parsed =
     (case parsed of
        None \<Rightarrow> None
      | Some u \<Rightarrow>
          if u_protocol u \<noteq> ''http:'' \<or> u_username u \<noteq> [] \<or> u_password u \<noteq> [] then None
          else Some (toLowerCase (u_hostname u), case u_port u of None \<Rightarrow> 80 | Some p \<Rightarrow> p, u_pathname u))"

section \<open>The proxy\<close>

text \<open>A request that waits for the name server, a tunnel that waits for its upstream connection, and the proxy. The last four fields
  record what happened: the events recorded and those the server accepted, and the connections opened.\<close>

datatype waiting = WaitingHttp string nat string string | WaitingConnect string nat

record proxy =
  px_sequence :: nat
  px_audit :: audit_queue
  px_waiting :: "waiting list"
  px_tunnels :: "(string \<times> nat \<times> network_rule) list"
  px_recorded :: "network_event list"
  px_accepted :: "network_event list"
  px_opened :: "(string \<times> nat \<times> string) list"

definition new_proxy :: proxy where
  "new_proxy = \<lparr> px_sequence = 0, px_audit = new_queue, px_waiting = [], px_tunnels = [], px_recorded = [], px_accepted = [], px_opened = [] \<rparr>"

datatype reply = Status nat | Wait | Forward string | Tunnel string | Thrown

definition px_record ::
  "time \<Rightarrow> bool \<Rightarrow> string \<Rightarrow> string \<Rightarrow> nat \<Rightarrow> string option \<Rightarrow> string option \<Rightarrow> string option \<Rightarrow> string \<Rightarrow> reply \<Rightarrow> proxy \<Rightarrow> reply \<times> proxy" where
  "px_record now allow transport host port method path rule reason answer p =
     (let e = \<lparr> ne_source_seq = px_sequence p + 1, ne_occurred_at = now, ne_allow = allow, ne_transport = transport, ne_host = host,
                ne_port = port, ne_method = method, ne_path = path, ne_matched_rule = rule, ne_reason = reason \<rparr>;
          p1 = p\<lparr>px_sequence := px_sequence p + 1\<rparr>
      in case record_event e (px_audit p) of
           Inl _ \<Rightarrow> (Thrown, p1)
         | Inr q \<Rightarrow> (answer, p1\<lparr>px_audit := q, px_recorded := px_recorded p @ [e]\<rparr>))"

definition px_deny :: "time \<Rightarrow> string \<Rightarrow> string \<Rightarrow> nat \<Rightarrow> string \<Rightarrow> nat \<Rightarrow> proxy \<Rightarrow> reply \<times> proxy" where
  "px_deny now transport host port reason status p = px_record now False transport host port None None None reason (Status status) p"

definition http_request :: "time \<Rightarrow> string \<Rightarrow> url option \<Rightarrow> proxy \<Rightarrow> reply \<times> proxy" where
  "http_request now method parsed p =
     (if \<not> canAccept (px_audit p) then (Status 503, p)
      else case http_target parsed of
             None \<Rightarrow> px_deny now ''http'' ''invalid'' 80 ''malformed_target'' 400 p
           | Some (host, port, path) \<Rightarrow> (Wait, p\<lparr>px_waiting := px_waiting p @ [WaitingHttp host port method path]\<rparr>))"

definition connect_request :: "time \<Rightarrow> string \<Rightarrow> proxy \<Rightarrow> reply \<times> proxy" where
  "connect_request now target p =
     (if \<not> canAccept (px_audit p) then (Status 503, p)
      else case connectTarget target of
             None \<Rightarrow> px_deny now ''https'' ''invalid'' 443 ''malformed_target'' 400 p
           | Some (host, port) \<Rightarrow> (Wait, p\<lparr>px_waiting := px_waiting p @ [WaitingConnect host port]\<rparr>))"

definition resolved :: "network_policy \<Rightarrow> time \<Rightarrow> waiting \<Rightarrow> string list option \<Rightarrow> proxy \<Rightarrow> reply \<times> proxy" where
  "resolved policy now w answer p =
     (case w of
        WaitingHttp host port method path \<Rightarrow>
          (case validate policy host port answer of
             Refused _ reason \<Rightarrow> px_deny now ''http'' host port reason 403 p
           | Admitted rule address \<Rightarrow>
               px_record now True ''http'' host port (Some method) (Some path) (Some (nr_domain rule)) ''matched_rule'' (Forward address)
                 (p\<lparr>px_opened := px_opened p @ [(host, port, address)]\<rparr>))
      | WaitingConnect host port \<Rightarrow>
          (case validate policy host port answer of
             Refused _ reason \<Rightarrow> px_deny now ''https'' host port reason 403 p
           | Admitted rule address \<Rightarrow>
               (Wait, p\<lparr>px_opened := px_opened p @ [(host, port, address)], px_tunnels := px_tunnels p @ [(host, port, rule)]\<rparr>)))"

definition connected :: "time \<Rightarrow> string \<times> nat \<times> network_rule \<Rightarrow> proxy \<Rightarrow> reply \<times> proxy" where
  "connected now t p =
     (let (host, port, rule) = t
      in px_record now True ''https'' host port None None (Some (nr_domain rule)) ''matched_rule'' (Tunnel host) p)"

definition client_error :: "time \<Rightarrow> proxy \<Rightarrow> reply \<times> proxy" where
  "client_error now p =
     (if canAccept (px_audit p) then px_deny now ''https'' ''invalid'' 443 ''malformed_target'' 400 p else (Status 503, p))"

text \<open>Everything that can happen to the proxy. A request leaves the waiting list when it is resolved; a tunnel its list when it is
  connected or fails. The server accepts a batch only if each of its events is valid.\<close>

inductive proxy_step :: "network_policy \<Rightarrow> proxy \<Rightarrow> proxy \<Rightarrow> bool" for policy where
  http: "http_request now method parsed p = (r, p') \<Longrightarrow> proxy_step policy p p'"
| connect: "connect_request now target p = (r, p') \<Longrightarrow> proxy_step policy p p'"
| resolve: "px_waiting p = ws @ w # vs \<Longrightarrow> resolved policy now w answer (p\<lparr>px_waiting := ws @ vs\<rparr>) = (r, p') \<Longrightarrow> proxy_step policy p p'"
| established: "px_tunnels p = ts @ t # us \<Longrightarrow> connected now t (p\<lparr>px_tunnels := ts @ us\<rparr>) = (r, p') \<Longrightarrow> proxy_step policy p p'"
| upstream_error: "px_tunnels p = ts @ t # us \<Longrightarrow> proxy_step policy p (p\<lparr>px_tunnels := ts @ us\<rparr>)"
| malformed: "client_error now p = (r, p') \<Longrightarrow> proxy_step policy p p'"
| timer: "proxy_step policy p (p\<lparr>px_audit := timer_fires (px_audit p)\<rparr>)"
| uploaded: "aq_uploading (px_audit p) = Some batch \<Longrightarrow> list_all event_schema (map fst batch) \<Longrightarrow>
    proxy_step policy p (p\<lparr>px_audit := end_flush True batch (px_audit p), px_accepted := px_accepted p @ map fst batch\<rparr>)"
| upload_failed: "aq_uploading (px_audit p) = Some batch \<Longrightarrow> proxy_step policy p (p\<lparr>px_audit := end_flush False batch (px_audit p)\<rparr>)"
| closed: "proxy_step policy p (p\<lparr>px_audit := close_queue (px_audit p)\<rparr>)"

end
