(* ===== verification/Egress_Theorems.thy ===== *)
theory Egress_Theorems
  imports Egress_Proxy
begin

text \<open>
  What the sidecar promises: it opens no connection outside the policy, the audit log is ordered, bounded and never left without an
  upload to come, and what blocks the log.
\<close>

section \<open>The queue\<close>

definition armed :: "audit_queue \<Rightarrow> bool" where
  "armed q \<longleftrightarrow> aq_uploading q \<noteq> None \<or> aq_timer q \<noteq> None"

definition queue_ok :: "audit_queue \<Rightarrow> bool" where
  "queue_ok q \<longleftrightarrow> aq_bytes q = sum_list (map snd (aq_events q)) \<and> aq_bytes q \<le> MAX_BYTES \<and> length (aq_events q) \<le> MAX_EVENTS
     \<and> (\<forall>b. aq_uploading q = Some b \<longrightarrow> prefix b (aq_events q))
     \<and> (aq_events q \<noteq> [] \<longrightarrow> armed q) \<and> (\<exists>n. aq_retryMs q = backoff_ms 250 10000 n)"

interpretation audit_retry: backoff_policy 250 10000 "backoff_ms 250 10000"
  by unfold_locales simp_all

lemma retry_doubles: "min (backoff_ms 250 10000 n * 2) 10000 = backoff_ms 250 10000 (Suc n)"
  by (simp add: backoff_ms_def min_def)

lemma schedule_simps [simp]:
  "aq_events (schedule d q) = aq_events q" "aq_bytes (schedule d q) = aq_bytes q" "aq_uploading (schedule d q) = aq_uploading q"
  "aq_retryMs (schedule d q) = aq_retryMs q" "armed (schedule d q)"
  by (auto simp: schedule_def armed_def)

lemma record_event_ok:
  assumes "queue_ok q" and "record_event e q = Inr q'"
  shows "queue_ok q' \<and> map fst (aq_events q') = map fst (aq_events q) @ [e]"
  using assms by (auto simp: queue_ok_def record_event_def Let_def prefix_def split: if_splits option.splits)

lemma timer_fires_ok:
  assumes "queue_ok q"
  shows "queue_ok (timer_fires q)" "aq_events (timer_fires q) = aq_events q"
  using assms by (auto simp: queue_ok_def timer_fires_def begin_flush_def armed_def take_is_prefix)

lemma close_queue_ok:
  assumes "queue_ok q"
  shows "queue_ok (close_queue q)" "aq_events (close_queue q) = aq_events q"
  using assms by (auto simp: queue_ok_def close_queue_def armed_def)

lemma end_flush_ok:
  assumes "queue_ok q" and "aq_uploading q = Some batch"
  shows "queue_ok (end_flush ok batch q) \<and> aq_events q = (if ok then batch else []) @ aq_events (end_flush ok batch q)"
proof (cases ok)
  case True
  obtain rest where "aq_events q = batch @ rest" using assms by (auto simp: queue_ok_def prefix_def)
  moreover have "\<exists>n. 250 = backoff_ms 250 10000 n" by (rule exI [of _ 0]) (simp add: backoff_ms_def)
  ultimately show ?thesis using assms True by (auto simp: queue_ok_def end_flush_def Let_def)
next
  case False
  then show ?thesis using assms by (auto simp: queue_ok_def end_flush_def retry_doubles)
qed

section \<open>The proxy\<close>

definition permitted :: "network_policy \<Rightarrow> string \<times> nat \<times> string \<Rightarrow> bool" where
  "permitted policy c \<longleftrightarrow> (case c of (host, port, address) \<Rightarrow>
     \<exists>rules r. policy = Restricted rules \<and> r \<in> set rules \<and> port \<in> set (nr_ports r) \<and> rule_covers r (toLowerCase host)
       \<and> (nr_allowPrivate r \<or> \<not> isPrivateAddress address))"

definition opened_for :: "proxy \<Rightarrow> string \<Rightarrow> nat \<Rightarrow> bool" where
  "opened_for p host port \<longleftrightarrow> (\<exists>a. (host, port, a) \<in> set (px_opened p))"

definition log_ok :: "proxy \<Rightarrow> bool" where
  "log_ok p \<longleftrightarrow> px_accepted p @ map fst (aq_events (px_audit p)) = px_recorded p
     \<and> sorted_wrt (<) (map ne_source_seq (px_recorded p)) \<and> list_all (\<lambda>e. ne_source_seq e \<le> px_sequence p) (px_recorded p)
     \<and> list_all event_schema (px_accepted p) \<and> list_all (\<lambda>e. ne_allow e \<longrightarrow> opened_for p (ne_host e) (ne_port e)) (px_recorded p)
     \<and> list_all (\<lambda>(h, po, r). opened_for p h po) (px_tunnels p)"

definition proxy_inv :: "network_policy \<Rightarrow> proxy \<Rightarrow> bool" where
  "proxy_inv policy p \<longleftrightarrow> queue_ok (px_audit p) \<and> log_ok p \<and> list_all (permitted policy) (px_opened p)"

lemma validate_permitted: "validate policy host port answer = Admitted r a \<Longrightarrow> permitted policy (host, port, a)"
  by (auto simp: validate_def permitted_def split: option.splits list.splits if_splits dest!: find_rule)

lemma proxy_inv_record:
  assumes "proxy_inv policy p" and "allow \<longrightarrow> opened_for p host port"
    and "px_record now allow t host port m pa ru re ans p = (r, p')"
  shows "proxy_inv policy p'"
proof -
  define e where "e = \<lparr> ne_source_seq = px_sequence p + 1, ne_occurred_at = now, ne_allow = allow, ne_transport = t, ne_host = host,
    ne_port = port, ne_method = m, ne_path = pa, ne_matched_rule = ru, ne_reason = re \<rparr>"
  have e: "ne_source_seq e = px_sequence p + 1" "ne_allow e \<longrightarrow> opened_for p (ne_host e) (ne_port e)"
    using assms(2) by (simp_all add: e_def)
  have le: "list_all (\<lambda>e. ne_source_seq e \<le> Suc (px_sequence p)) (px_recorded p)"
    "\<forall>x \<in> set (px_recorded p). ne_source_seq x < px_sequence p + 1"
    using assms(1) by (auto simp: proxy_inv_def log_ok_def list_all_iff)
  show ?thesis
  proof (cases "record_event e (px_audit p)")
    case (Inl x)
    then have "p' = p\<lparr>px_sequence := px_sequence p + 1\<rparr>" using assms(3) by (simp add: px_record_def Let_def e_def)
    then show ?thesis using assms(1) le(1) by (simp add: proxy_inv_def log_ok_def opened_for_def)
  next
    case (Inr q)
    then have "p' = p\<lparr>px_sequence := px_sequence p + 1, px_audit := q, px_recorded := px_recorded p @ [e]\<rparr>"
      using assms(3) by (simp add: px_record_def Let_def e_def)
    moreover have "queue_ok q" "map fst (aq_events q) = map fst (aq_events (px_audit p)) @ [e]"
      using record_event_ok [OF _ Inr] assms(1) by (simp_all add: proxy_inv_def)
    ultimately show ?thesis using assms(1) le e
      by (auto simp: proxy_inv_def log_ok_def opened_for_def sorted_wrt_append)
  qed
qed

lemma proxy_inv_deny:
  "proxy_inv policy p \<Longrightarrow> px_deny now t host port re st p = (r, p') \<Longrightarrow> proxy_inv policy p'"
  unfolding px_deny_def by (rule proxy_inv_record [where allow = False]) simp_all

lemma proxy_inv_update:
  assumes "proxy_inv policy p"
  shows "proxy_inv policy (p\<lparr>px_waiting := ws\<rparr>)" "set ts \<subseteq> set (px_tunnels p) \<Longrightarrow> proxy_inv policy (p\<lparr>px_tunnels := ts\<rparr>)"
    "queue_ok q \<Longrightarrow> aq_events q = aq_events (px_audit p) \<Longrightarrow> proxy_inv policy (p\<lparr>px_audit := q\<rparr>)"
  using assms by (auto simp: proxy_inv_def log_ok_def opened_for_def list_all_iff)

lemma proxy_inv_open:
  assumes "proxy_inv policy p" and "permitted policy (host, port, a)"
  shows "proxy_inv policy (p\<lparr>px_opened := px_opened p @ [(host, port, a)]\<rparr>)"
    "proxy_inv policy (p\<lparr>px_opened := px_opened p @ [(host, port, a)], px_tunnels := px_tunnels p @ [(host, port, rule)]\<rparr>)"
proof -
  let ?p = "p\<lparr>px_opened := px_opened p @ [(host, port, a)]\<rparr>"
  have o: "opened_for p h po \<Longrightarrow> opened_for ?p h po" for h po by (auto simp: opened_for_def)
  have "log_ok ?p" using assms(1) o by (auto simp: proxy_inv_def log_ok_def list_all_iff)
  then show 1: "proxy_inv policy ?p" using assms by (simp add: proxy_inv_def)
  have "opened_for ?p host port" by (auto simp: opened_for_def)
  then show "proxy_inv policy (p\<lparr>px_opened := px_opened p @ [(host, port, a)], px_tunnels := px_tunnels p @ [(host, port, rule)]\<rparr>)"
    using 1 by (auto simp: proxy_inv_def log_ok_def list_all_iff opened_for_def)
qed

lemma proxy_inv_resolved:
  assumes inv: "proxy_inv policy p" and res: "resolved policy now w answer p = (r, p')"
  shows "proxy_inv policy p'"
proof (cases w)
  case (WaitingHttp host port verb path)
  show ?thesis
  proof (cases "validate policy host port answer")
    case (Admitted rule a)
    note o = proxy_inv_open(1) [OF inv validate_permitted [OF Admitted]]
    show ?thesis
      by (rule proxy_inv_record [OF o, where allow = True and host = host and port = port])
        (use res WaitingHttp Admitted in \<open>auto simp: resolved_def opened_for_def\<close>)
  qed (use res WaitingHttp inv in \<open>auto simp: resolved_def intro: proxy_inv_deny\<close>)
next
  case (WaitingConnect host port)
  show ?thesis
  proof (cases "validate policy host port answer")
    case (Admitted rule a)
    then show ?thesis using res WaitingConnect proxy_inv_open(2) [OF inv validate_permitted [OF Admitted]] by (auto simp: resolved_def)
  qed (use res WaitingConnect inv in \<open>auto simp: resolved_def intro: proxy_inv_deny\<close>)
qed

lemma proxy_inv_uploaded:
  assumes "proxy_inv policy p" and "aq_uploading (px_audit p) = Some batch" and "list_all event_schema (map fst batch)"
  shows "proxy_inv policy (p\<lparr>px_audit := end_flush True batch (px_audit p), px_accepted := px_accepted p @ map fst batch\<rparr>)"
proof -
  have e: "queue_ok (end_flush True batch (px_audit p))" "aq_events (px_audit p) = batch @ aq_events (end_flush True batch (px_audit p))"
    using end_flush_ok [of "px_audit p" batch True] assms by (simp_all add: proxy_inv_def)
  have "map fst (aq_events (px_audit p)) = map fst batch @ map fst (aq_events (end_flush True batch (px_audit p)))"
    by (subst e(2)) simp
  then show ?thesis using assms e(1) by (auto simp: proxy_inv_def log_ok_def opened_for_def)
qed

interpretation egress: invariant_system "proxy_step policy" "proxy_inv policy" for policy
proof unfold_locales
  show "proxy_inv policy p'" if inv: "proxy_inv policy p" and step: "proxy_step policy p p'" for p p'
    using step
  proof cases
    case (http now verb parsed r)
    then show ?thesis using inv
      by (auto simp: http_request_def intro: proxy_inv_deny proxy_inv_update(1) split: if_splits option.splits)
  next
    case (connect now target r)
    then show ?thesis using inv
      by (auto simp: connect_request_def intro: proxy_inv_deny proxy_inv_update(1) split: if_splits option.splits)
  next
    case (resolve ws w vs now answer r)
    then show ?thesis using proxy_inv_resolved [OF proxy_inv_update(1) [OF inv]] by blast
  next
    case (established ts t us now r)
    obtain host port rule where t: "t = (host, port, rule)" by (cases t)
    have "opened_for (p\<lparr>px_tunnels := ts @ us\<rparr>) host port" using inv established t by (auto simp: proxy_inv_def log_ok_def opened_for_def)
    moreover have "proxy_inv policy (p\<lparr>px_tunnels := ts @ us\<rparr>)" using proxy_inv_update(2) [OF inv, of "ts @ us"] established by auto
    ultimately show ?thesis using established(2) t proxy_inv_record [where allow = True and host = host and port = port]
      by (simp add: connected_def)
  next
    case (upstream_error ts t us)
    then show ?thesis using proxy_inv_update(2) [OF inv, of "ts @ us"] by auto
  next
    case (malformed now r)
    then show ?thesis using inv by (auto simp: client_error_def intro: proxy_inv_deny split: if_splits)
  next
    case timer
    then show ?thesis using proxy_inv_update(3) [OF inv] timer_fires_ok [of "px_audit p"] inv by (simp add: proxy_inv_def)
  next
    case (uploaded batch)
    then show ?thesis using proxy_inv_uploaded [OF inv] by simp
  next
    case (upload_failed batch)
    then show ?thesis using proxy_inv_update(3) [OF inv] end_flush_ok [of "px_audit p" batch False] inv by (simp add: proxy_inv_def)
  next
    case closed
    then show ?thesis using proxy_inv_update(3) [OF inv] close_queue_ok [of "px_audit p"] inv by (simp add: proxy_inv_def)
  qed
qed

lemma proxy_inv_new: "proxy_inv policy new_proxy"
  by (auto simp: proxy_inv_def log_ok_def queue_ok_def new_proxy_def new_queue_def backoff_ms_def intro!: exI [of _ 0])

text \<open>
  C37. The proxy opens no connection outside the policy: in every run, with any answers of the name server and any interleaving of
  requests, each connection goes to a port that a rule lists and a host that the rule names, or has as a proper subdomain of its
  wildcard, and unless the rule allows private addresses the address it connects to is not private. A policy that is not
  restricted opens nothing.
\<close>
theorem egress_stays_within_policy:
  assumes "reaches (proxy_step policy) new_proxy p" and "(host, port, address) \<in> set (px_opened p)"
  shows "\<exists>rules r. policy = Restricted rules \<and> r \<in> set rules \<and> port \<in> set (nr_ports r)
    \<and> (nr_domain r = toLowerCase host \<or>
       (\<exists>sub domain. sub \<noteq> [] \<and> nr_domain r = ''*.'' @ domain \<and> toLowerCase host = sub @ ''.'' @ domain))
    \<and> (nr_allowPrivate r \<or> \<not> isPrivateAddress address)"
proof -
  have "proxy_inv policy p" by (rule egress.reaches_inv [OF assms(1) proxy_inv_new])
  then have "permitted policy (host, port, address)" using assms(2) by (auto simp: proxy_inv_def list_all_iff)
  then show ?thesis unfolding permitted_def rule_covers_def by simp
qed


section \<open>What blocks the log\<close>

lemma proxy_recorded_prefix: "proxy_step policy p p' \<Longrightarrow> prefix (px_recorded p) (px_recorded p')"
proof -
  have r: "prefix (px_recorded p) (px_recorded p')" if "px_record now al t h po m pa ru re ans p = (r, p')" for now al t h po m pa ru re ans r p p'
    using that by (auto simp: px_record_def Let_def split: sum.splits)
  have d: "prefix (px_recorded p) (px_recorded p')" if "px_deny now t h po re st p = (r, p')" for now t h po re st r p p'
    using that r by (auto simp: px_deny_def)
  show "proxy_step policy p p' \<Longrightarrow> prefix (px_recorded p) (px_recorded p')"
  proof (induction rule: proxy_step.induct)
    case (resolve p ws w vs now answer rep p')
    then show ?case by (cases w) (auto simp: resolved_def dest!: r d split: validation.splits)
  next
    case (established p ts t us now rep p')
    then show ?case by (cases t) (auto simp: connected_def dest!: r)
  qed (auto simp: http_request_def connect_request_def client_error_def dest!: d split: if_splits option.splits)
qed

lemma recorded_prefix: "reaches (proxy_step policy) p p' \<Longrightarrow> prefix (px_recorded p) (px_recorded p')"
proof (induction rule: reaches.induct)
  case (snoc s t u)
  then show ?case using proxy_recorded_prefix prefix_order.trans by blast
qed simp

text \<open>
  C39. An event that the server's schema refuses blocks the log for good: once a CONNECT request for a host longer than 253
  bytes has been refused and recorded, no event recorded after that moment is ever acknowledged, whatever happens later. The proxy
  accepts such targets and does not bound the host it records.
\<close>
theorem oversized_host_blocks_the_log:
  assumes "reaches (proxy_step policy) new_proxy p" and "px_waiting p = ws @ WaitingConnect host port # vs"
    and "resolved policy now (WaitingConnect host port) answer (p\<lparr>px_waiting := ws @ vs\<rparr>) = (Status 403, p1)"
    and "253 < length host" and "reaches (proxy_step policy) p1 p2"
  shows "prefix (px_accepted p2) (px_recorded p) \<and> prefix (px_recorded p1) (px_recorded p2) \<and> px_recorded p1 \<noteq> px_recorded p"
proof -
  have step: "proxy_step policy p p1" using assms(2,3) by (rule proxy_step.resolve)
  have run: "reaches (proxy_step policy) new_proxy p2" using reaches_trans [OF assms(5) reaches.snoc [OF assms(1) step]] .
  obtain e where e: "px_recorded p1 = px_recorded p @ [e]" "ne_host e = host"
    using assms(3) by (auto simp: resolved_def px_deny_def px_record_def Let_def split: validation.splits sum.splits)
  then have bad: "\<not> event_schema e" using assms(4) by (simp add: event_schema_def)
  obtain zs where z: "px_recorded p2 = px_recorded p @ e # zs" using recorded_prefix [OF assms(5)] e(1) by (auto simp: prefix_def)
  have "log_ok p2" using egress.reaches_inv [OF run proxy_inv_new] by (simp add: proxy_inv_def)
  then have a: "px_accepted p2 @ map fst (aq_events (px_audit p2)) = px_recorded p @ e # zs" "e \<notin> set (px_accepted p2)"
    using z bad by (auto simp: log_ok_def list_all_iff)
  then have "prefix (px_accepted p2) (px_recorded p)"
    by (auto simp: append_eq_append_conv2 append_eq_Cons_conv) (metis prefixI)
  then show ?thesis using e(1) recorded_prefix [OF assms(5)] by simp
qed

section \<open>Short runs\<close>

definition ex_policy :: network_policy where
  "ex_policy = Restricted [\<lparr> nr_domain = ''*.example.org'', nr_ports = [443], nr_allowPrivate = False \<rparr>]"

definition ex_address :: string where
  "ex_address = dotted 93 184 216 34"

definition ex_asked :: proxy where
  "ex_asked = new_proxy\<lparr>px_waiting := [WaitingConnect ''api.example.org'' 443]\<rparr>"

definition ex_opened :: proxy where
  "ex_opened = snd (resolved ex_policy 0 (WaitingConnect ''api.example.org'' 443) (Some [ex_address]) new_proxy)"

lemma ex_new: "canAccept (px_audit new_proxy)" "new_proxy\<lparr>px_waiting := []\<rparr> = new_proxy"
  by (simp_all add: new_proxy_def new_queue_def canAccept_def MAX_EVENTS_def MAX_BYTES_def ADMISSION_BYTES_def)

lemma ex_opened_run: "reaches (proxy_step ex_policy) new_proxy ex_opened"
proof -
  have "connectTarget ''api.example.org:443'' = Some (''api.example.org'', 443)"
    by (simp add: connectTarget_def toLowerCase_def lower_char_def host_char_def is_lower_def is_digit_def number_of_digits_def digit_value_def)
  then have 1: "proxy_step ex_policy new_proxy ex_asked"
    using ex_new(1) by (intro proxy_step.connect [where target = "''api.example.org:443''"])
      (simp add: connect_request_def ex_asked_def, simp add: new_proxy_def)
  have 2: "proxy_step ex_policy ex_asked ex_opened"
    by (rule proxy_step.resolve [where ws = "[]" and vs = "[]" and w = "WaitingConnect ''api.example.org'' 443" and now = 0 and answer = "Some [ex_address]"
          and r = "fst (resolved ex_policy 0 (WaitingConnect ''api.example.org'' 443) (Some [ex_address]) new_proxy)"])
      (simp_all add: ex_asked_def ex_opened_def ex_new)
  show ?thesis using reaches_one [of "proxy_step ex_policy", OF 1] 2 by (rule reaches.snoc)
qed

lemma ex_opened_fields: "px_opened ex_opened = [(''api.example.org'', 443, ex_address)]" "px_recorded ex_opened = []"
proof -
  have "\<not> isPrivateAddress ex_address" by (simp add: ex_address_def private_v4 special_purpose_def)
  moreover have "findNetworkRule ex_policy ''api.example.org'' 443 = Some \<lparr> nr_domain = ''*.example.org'', nr_ports = [443], nr_allowPrivate = False \<rparr>"
    by (simp add: ex_policy_def matchesDomain_def toLowerCase_def lower_char_def suffix_to_prefix)
  ultimately have "validate ex_policy ''api.example.org'' 443 (Some [ex_address])
      = Admitted \<lparr> nr_domain = ''*.example.org'', nr_ports = [443], nr_allowPrivate = False \<rparr> ex_address"
    by (simp add: validate_def)
  then show "px_opened ex_opened = [(''api.example.org'', 443, ex_address)]" "px_recorded ex_opened = []"
    by (simp_all add: ex_opened_def resolved_def new_proxy_def)
qed

theorem egress_stays_within_policy_witness:
  "(''api.example.org'', 443, ex_address) \<in> set (px_opened ex_opened) \<and> (\<exists>rules r. ex_policy = Restricted rules \<and> r \<in> set rules \<and> 443 \<in> set (nr_ports r))"
  using egress_stays_within_policy [OF ex_opened_run, of "''api.example.org''" 443 ex_address] ex_opened_fields by auto

text \<open>A CONNECT to a host of 254 letters is refused and recorded.\<close>

definition ex_host :: string where
  "ex_host = replicate 254 (CHR ''a'')"

definition ex_long_asked :: proxy where
  "ex_long_asked = new_proxy\<lparr>px_waiting := [WaitingConnect ex_host 443]\<rparr>"

definition ex_blocked :: proxy where
  "ex_blocked = snd (resolved (Restricted []) 0 (WaitingConnect ex_host 443) None new_proxy)"

lemma ex_long_run: "reaches (proxy_step (Restricted [])) new_proxy ex_long_asked"
proof -
  have lower: "toLowerCase (ex_host @ '':443'') = ex_host @ '':443''"
    by (simp add: ex_host_def toLowerCase_def lower_char_def)
  have hc: "host_char (CHR ''a'')" "\<not> host_char (CHR '':'')" by (simp_all add: host_char_def is_lower_def is_digit_def)
  have "takeWhile host_char (ex_host @ '':443'') = ex_host" "dropWhile host_char (ex_host @ '':443'') = '':443''" "ex_host \<noteq> []"
    using hc by (simp_all add: ex_host_def takeWhile_append dropWhile_append)
  then have "connectTarget (ex_host @ '':443'') = Some (ex_host, 443)"
    unfolding connectTarget_def lower by (simp add: is_digit_def number_of_digits_def digit_value_def)
  then show ?thesis
    using ex_new(1) by (intro reaches_one proxy_step.connect [where target = "ex_host @ '':443''"])
      (simp add: connect_request_def ex_long_asked_def, simp add: new_proxy_def)
qed

lemma quote_length: "length (quote s) \<le> 6 * length s + 2"
proof -
  have "length (escape_char c) \<le> 6" for c by (simp add: escape_char_def Let_def)
  then have "length (concat (map escape_char s)) \<le> 6 * length s"
    by (induction s) (simp_all add: add_mono)
  then show ?thesis by (simp add: quote_def)
qed

lemma decimal_length: "n < 10 ^ w \<Longrightarrow> 0 < w \<Longrightarrow> length (decimal n) \<le> w"
proof (induction w arbitrary: n)
  case (Suc w)
  show ?case
  proof (cases "n < 10")
    case False
    then have "0 < w" using Suc.prems(1) by (cases w) simp_all
    then show ?thesis using Suc.IH [of "n div 10"] Suc.prems(1) False by (subst decimal.simps) (simp add: div_less_iff_less_mult)
  qed (subst decimal.simps, simp)
qed simp

lemma padded_length: "n < 10 ^ w \<Longrightarrow> 0 < w \<Longrightarrow> length (padded w (int n)) = w"
  using decimal_length [of n w] by (simp add: padded_def Let_def)

lemma ex_civil: "civil_of_days 0 = (1970, 1, 1)"
  by code_simp

lemma ex_iso: "length (toISOString 0) = 24"
  using padded_length [of 1970 4] padded_length [of 1 2] padded_length [of 0 2] padded_length [of 0 3]
  by (simp add: toISOString_def ex_civil iso_year_def)

definition ex_net_event :: network_event where
  "ex_net_event = \<lparr> ne_source_seq = 1, ne_occurred_at = 0, ne_allow = False, ne_transport = ''https'', ne_host = ex_host, ne_port = 443,
     ne_method = None, ne_path = None, ne_matched_rule = None, ne_reason = ''no_matching_rule'' \<rparr>"

lemma quote_bound: "6 * length s + 2 \<le> n \<Longrightarrow> length (quote s) \<le> n"
  using quote_length order.trans by blast

lemma ex_numbers: "length (show_int 443) \<le> 3" "length (show_int 1) \<le> 1"
  using decimal_length [of 443 3] decimal_length [of 1 1] by (simp_all add: show_int_def)

lemma ex_texts: "length (quote ex_host) \<le> 1526" "length (quote (toISOString 0)) \<le> 146"
  by (rule quote_bound, simp add: ex_host_def ex_iso)+

lemma ex_net_event_text: "event_json ex_net_event = JObj
     [(''decision'', JStr ''deny''), (''transport'', JStr ''https''), (''host'', JStr ex_host), (''port'', JNum 443),
      (''reason'', JStr ''no_matching_rule''), (''source_seq'', JNum 1), (''occurred_at'', JStr (toISOString 0)), (''method'', JNull),
      (''path'', JNull), (''matched_rule'', JNull)]"
  by (simp add: ex_net_event_def event_json_def json_or_null_def)

lemma ex_net_event_size: "length (stringify (event_json ex_net_event)) \<le> 4000"
proof -
  let ?q = "\<lambda>s. length (quote s)"
  have 1: "length (stringify (event_json ex_net_event)) = ?q ''decision'' + ?q ''deny'' + ?q ''transport'' + ?q ''https'' + ?q ''host'' + ?q ex_host
      + ?q ''port'' + length (show_int 443) + ?q ''reason'' + ?q ''no_matching_rule'' + ?q ''source_seq'' + length (show_int 1)
      + ?q ''occurred_at'' + ?q (toISOString 0) + ?q ''method'' + ?q ''path'' + ?q ''matched_rule'' + 33"
    unfolding ex_net_event_text by simp
  have 2: "?q ''decision'' \<le> 50" "?q ''deny'' \<le> 26" "?q ''transport'' \<le> 56" "?q ''https'' \<le> 32" "?q ''host'' \<le> 26" "?q ''port'' \<le> 26"
    "?q ''reason'' \<le> 38" "?q ''no_matching_rule'' \<le> 98" "?q ''source_seq'' \<le> 62" "?q ''occurred_at'' \<le> 68" "?q ''method'' \<le> 38"
    "?q ''path'' \<le> 26" "?q ''matched_rule'' \<le> 74"
    by (rule quote_bound, simp)+
  show ?thesis using 1 2 ex_numbers ex_texts by linarith
qed

lemma ex_net_event_recorded: "\<exists>q. record_event ex_net_event new_queue = Inr q"
  using ex_net_event_size by (simp add: record_event_def new_queue_def MAX_EVENTS_def MAX_BYTES_def Let_def)

lemma ex_blocked_eq: "\<exists>q. ex_blocked = new_proxy\<lparr>px_sequence := 1, px_audit := q, px_recorded := [ex_net_event]\<rparr>"
  "resolved (Restricted []) 0 (WaitingConnect ex_host 443) None (ex_long_asked\<lparr>px_waiting := [] @ []\<rparr>) = (Status 403, ex_blocked)"
proof -
  obtain q where "record_event ex_net_event new_queue = Inr q" using ex_net_event_recorded by blast
  then have "resolved (Restricted []) 0 (WaitingConnect ex_host 443) None new_proxy
      = (Status 403, new_proxy\<lparr>px_sequence := 1, px_audit := q, px_recorded := [ex_net_event]\<rparr>)"
    by (simp add: resolved_def validate_def px_deny_def px_record_def Let_def new_proxy_def ex_net_event_def)
  then show "\<exists>q. ex_blocked = new_proxy\<lparr>px_sequence := 1, px_audit := q, px_recorded := [ex_net_event]\<rparr>"
    "resolved (Restricted []) 0 (WaitingConnect ex_host 443) None (ex_long_asked\<lparr>px_waiting := [] @ []\<rparr>) = (Status 403, ex_blocked)"
    by (auto simp: ex_blocked_def ex_long_asked_def ex_new)
qed

theorem oversized_host_blocks_the_log_witness:
  "px_recorded ex_blocked \<noteq> [] \<and> px_accepted ex_blocked = []"
proof -
  have "px_waiting ex_long_asked = [] @ WaitingConnect ex_host 443 # []" by (simp add: ex_long_asked_def)
  moreover have "253 < length ex_host" by (simp add: ex_host_def)
  ultimately show ?thesis
    using oversized_host_blocks_the_log [OF ex_long_run _ ex_blocked_eq(2) _ reaches.refl] by (simp add: ex_long_asked_def new_proxy_def)
qed

lemma ex_blocked_recorded: "length (px_recorded ex_blocked) = 1"
proof -
  obtain q where "ex_blocked = new_proxy\<lparr>px_sequence := 1, px_audit := q, px_recorded := [ex_net_event]\<rparr>" using ex_blocked_eq(1) by blast
  then have "px_recorded ex_blocked = px_recorded (new_proxy\<lparr>px_sequence := 1, px_audit := q, px_recorded := [ex_net_event]\<rparr>)" by (rule arg_cong)
  then show ?thesis by simp
qed


end
