(* ===== verification/Scheduler_Base.thy ===== *)
theory Scheduler_Base
  imports Workspace_Store
begin

text \<open>
  What the scheduler works with (\<^verbatim>\<open>packages/runtime-core/src/scheduler/scheduler-base.ts\<close>,
  \<^verbatim>\<open>provider-termination.ts\<close>, \<^verbatim>\<open>admission-feedback.ts\<close>): asynchronous operations that read and change the workspace store, ask the driver and
  may throw. An operation is a function on the state of the scheduler; an exception keeps the changes made before it. Every call to something outside has a
  number, and what it returns is a function of that number, so that repeated calls may answer differently. Before each
  transaction of the scheduler other processes may have changed the store: \<open>dp_others\<close> is what they did.

  The configuration modelled has no warm pool and no transfer runtime; a storage driver, a launch policy, a lease service and a
  preserve policy are optional. The text of failure logs and the qualification of an installed workload
  (\<^verbatim>\<open>waiting-runtime.ts\<close> up to its registration) are answers from outside. Metrics and error reports are left out; calls of the connection hub are remembered like those of the driver.
  An error of the model has no class, so whether it is a \<open>ProviderNotSubmittedError\<close> is an argument, \<open>dp_notSubmitted\<close>.
\<close>

section \<open>Operations that may throw\<close>

datatype driver_call = CallCreate ident | CallStop json | CallRemove json | CallPurge ident | CallRevoke ident | CallDeleteStorage json
  | CallShutdown ident reason_code | CallSignal ident string | CallClose ident

record scheduler =
  sc_store :: store
  sc_last :: "ident option"
  sc_retries :: "ident \<rightharpoonup> nat \<times> time"
  sc_calls :: nat
  sc_trace :: "driver_call list"

type_synonym 'a sched = "scheduler \<Rightarrow> (js_error + 'a) \<times> scheduler"

definition returnS :: "'a \<Rightarrow> 'a sched" where
  "returnS a = (\<lambda>s. (Inr a, s))"

definition throwS :: "js_error \<Rightarrow> 'a sched" where
  "throwS e = (\<lambda>s. (Inl e, s))"

definition bindS :: "'a sched \<Rightarrow> ('a \<Rightarrow> 'b sched) \<Rightarrow> 'b sched" where
  "bindS m k = (\<lambda>s. case m s of (Inl e, t) \<Rightarrow> (Inl e, t) | (Inr a, t) \<Rightarrow> k a t)"

definition thenS :: "'a sched \<Rightarrow> 'b sched \<Rightarrow> 'b sched" where
  "thenS m k = bindS m (\<lambda>_. k)"

text \<open>\<open>try\<close> and \<open>catch\<close>: the error as a value.\<close>

definition attemptS :: "'a sched \<Rightarrow> (js_error + 'a) sched" where
  "attemptS m = (\<lambda>s. case m s of (r, t) \<Rightarrow> (Inr r, t))"

definition catchS :: "'a sched \<Rightarrow> (js_error \<Rightarrow> 'a sched) \<Rightarrow> 'a sched" where
  "catchS m h = (\<lambda>s. case m s of (Inl e, t) \<Rightarrow> h e t | (Inr a, t) \<Rightarrow> (Inr a, t))"

definition liftE :: "js_error + 'a \<Rightarrow> 'a sched" where
  "liftE r = (\<lambda>s. (r, s))"

definition whenS :: "bool \<Rightarrow> unit sched \<Rightarrow> unit sched" where
  "whenS c m = (if c then m else returnS ())"

fun eachS :: "('x \<Rightarrow> unit sched) \<Rightarrow> 'x list \<Rightarrow> unit sched" where
  "eachS f [] = returnS ()"
| "eachS f (x # xs) = thenS (f x) (eachS f xs)"

section \<open>The world of the scheduler\<close>

record observed_provider =
  ob_exists :: bool
  ob_running :: bool
  ob_containerIdentity :: "string option"
  ob_refused :: bool

record storage_driver =
  sv_kind :: string
  sv_allocate :: "nat \<Rightarrow> ident \<Rightarrow> workspace_row \<Rightarrow> js_error + json"
  sv_clone :: "nat \<Rightarrow> json \<Rightarrow> json \<Rightarrow> json \<Rightarrow> js_error + unit"
  sv_delete :: "nat \<Rightarrow> json \<Rightarrow> js_error + unit"
  sv_mounts :: "nat \<Rightarrow> json \<Rightarrow> js_error + json list"

record scheduler_deps =
  dp_others :: "nat \<Rightarrow> store \<Rightarrow> store"
  dp_fails :: "nat \<Rightarrow> js_error option"
  dp_now :: clock
  dp_uuids :: "nat \<Rightarrow> uuids"
  dp_uuid :: "nat \<Rightarrow> ident"
  dp_secret :: "nat \<Rightarrow> string \<times> bytes"
  dp_serverUrl :: string
  dp_limits :: capacity_limits
  dp_maxQueueAgeMs :: int
  dp_maxLaunchAttempts :: nat
  dp_fenced :: "nat \<Rightarrow> bool"
  dp_authorize :: "(nat \<Rightarrow> workspace_row \<Rightarrow> js_error + admission_decision) option"
  dp_revoke :: "(nat \<Rightarrow> ident \<Rightarrow> js_error + unit) option"
  dp_preserve :: "(nat \<Rightarrow> workspace_row \<Rightarrow> string \<Rightarrow> js_error + bool) option"
  dp_isConnected :: "nat \<Rightarrow> ident \<Rightarrow> bool"
  dp_kind :: string
  dp_create :: "nat \<Rightarrow> workspace_row \<Rightarrow> json \<Rightarrow> json list \<Rightarrow> js_error + json"
  dp_inspect :: "nat \<Rightarrow> json \<Rightarrow> js_error + observed_provider"
  dp_stop :: "nat \<Rightarrow> json \<Rightarrow> int \<Rightarrow> js_error + unit"
  dp_remove :: "nat \<Rightarrow> json \<Rightarrow> js_error + unit"
  dp_evidence :: "(nat \<Rightarrow> json \<Rightarrow> js_error + json option) option"
  dp_purgeInput :: "nat \<Rightarrow> ident \<Rightarrow> js_error + unit"
  dp_uncommitted :: "(nat \<Rightarrow> workspace_row \<Rightarrow> time \<Rightarrow> js_error + json option) option"
  dp_notSubmitted :: "js_error \<Rightarrow> bool"
  dp_list :: "nat \<Rightarrow> js_error + (ident \<times> string \<times> json) list"
  dp_storage :: "storage_driver option"
  dp_qualify :: "nat \<Rightarrow> workspace_row \<Rightarrow> js_error + runtime_registration"
  dp_appendLog :: "nat \<Rightarrow> ident \<Rightarrow> js_error \<Rightarrow> js_error + unit"
  dp_logTail :: "nat \<Rightarrow> ident \<Rightarrow> js_error + (string \<times> bool \<times> nat option)"

text \<open>A transaction, a question to the outside, and a call of the driver that is remembered when it returns.\<close>

definition tx :: "scheduler_deps \<Rightarrow> (nat \<Rightarrow> store \<Rightarrow> js_error + ('a \<times> store)) \<Rightarrow> 'a sched" where
  "tx dp f = (\<lambda>s.
     let n = sc_calls s; d = dp_others dp n (sc_store s); s1 = s\<lparr>sc_calls := n + 1, sc_store := d\<rparr>
     in case dp_fails dp n of
          Some e \<Rightarrow> (Inl e, s1)
        | None \<Rightarrow> (case f n d of Inl e \<Rightarrow> (Inl e, s1) | Inr (a, d') \<Rightarrow> (Inr a, s1\<lparr>sc_store := d'\<rparr>)))"

definition readS :: "scheduler_deps \<Rightarrow> (store \<Rightarrow> 'a) \<Rightarrow> 'a sched" where
  "readS dp g = tx dp (\<lambda>n d. Inr (g d, d))"

definition writeS :: "scheduler_deps \<Rightarrow> (store \<Rightarrow> store) \<Rightarrow> unit sched" where
  "writeS dp g = tx dp (\<lambda>n d. Inr ((), g d))"

definition askE :: "(nat \<Rightarrow> js_error + 'a) \<Rightarrow> 'a sched" where
  "askE g = (\<lambda>s. (g (sc_calls s), s\<lparr>sc_calls := sc_calls s + 1\<rparr>))"

definition ask :: "(nat \<Rightarrow> 'a) \<Rightarrow> 'a sched" where
  "ask g = askE (\<lambda>n. Inr (g n))"

definition drive :: "driver_call \<Rightarrow> (nat \<Rightarrow> js_error + 'a) \<Rightarrow> 'a sched" where
  "drive c g = bindS (askE g) (\<lambda>a s. (Inr a, s\<lparr>sc_trace := sc_trace s @ [c]\<rparr>))"

definition transitionS :: "scheduler_deps \<Rightarrow> ident \<Rightarrow> transition_request \<Rightarrow> workspace_row option sched" where
  "transitionS dp i req = tx dp (\<lambda>n d. transitionWorkspace (dp_uuids dp n) d i req)"

definition timeoutMs :: "workspace_row \<Rightarrow> (timeouts \<Rightarrow> string) \<Rightarrow> js_error + int" where
  "timeoutMs row key = duration_ms (key (sp_timeouts (ts_spec (ws_templateSnapshot row))))"

definition graceSeconds :: "workspace_row \<Rightarrow> js_error + int" where
  "graceSeconds row = bindE (timeoutMs row to_terminateGrace) (\<lambda>ms. Inr (max 1 ((ms + 999) div 1000)))"

section \<open>Storage, restores and failure logs\<close>

definition no_storage_patch :: storage_patch where
  "no_storage_patch = \<lparr> sq_providerKind = None, sq_providerRef = None, sq_state = None, sq_logicalBytes = None, sq_fileCount = None,
     sq_retainedUntil = None, sq_deletedAt = None, sq_lastErrorCode = None \<rparr>"

definition has_keys :: "json \<Rightarrow> bool" where
  "has_keys v = (case v of JObj ps \<Rightarrow> ps \<noteq> [] | _ \<Rightarrow> False)"

definition cleanupWorkspaceStorage :: "scheduler_deps \<Rightarrow> workspace_row \<Rightarrow> unit sched" where
  "cleanupWorkspaceStorage dp row =
     (case dp_storage dp of
        None \<Rightarrow> returnS ()
      | Some sv \<Rightarrow>
          bindS (readS dp (\<lambda>d. getWorkspaceStorage d (ws_id row))) (\<lambda>found.
          case found of
            None \<Rightarrow> returnS ()
          | Some st \<Rightarrow>
              if st_state st \<in> {StRetained, StDeleted} then returnS ()
              else
                catchS
                  (thenS (whenS (has_keys (st_providerRef st)) (drive (CallDeleteStorage (st_providerRef st)) (\<lambda>n. sv_delete sv n (st_providerRef st))))
                     (bindS (ask (dp_now dp)) (\<lambda>at.
                        writeS dp (\<lambda>d. updateWorkspaceStorage d (st_id st)
                          (no_storage_patch\<lparr>sq_state := Some StDeleted, sq_deletedAt := Some (Some at)\<rparr>) at))))
                  (\<lambda>e. bindS (ask (dp_now dp)) (\<lambda>at.
                        writeS dp (\<lambda>d. updateWorkspaceStorage d (st_id st)
                          (no_storage_patch\<lparr>sq_lastErrorCode := Some (Some ''storage_cleanup_failed'')\<rparr>) at)))))"

definition finishRestoreOperation :: "scheduler_deps \<Rightarrow> workspace_row \<Rightarrow> operation_state \<Rightarrow> string option \<Rightarrow> unit sched" where
  "finishRestoreOperation dp row outcome reason =
     bindS (readS dp (\<lambda>d. List.find (\<lambda>p. op_kind p = OpRestore \<and> op_resultWorkspaceId p = Some (ws_id row)) (listIncompleteOperations d))) (\<lambda>found.
     case found of
       None \<Rightarrow> returnS ()
     | Some p \<Rightarrow>
         bindS (ask (dp_now dp)) (\<lambda>at.
           writeS dp (\<lambda>d. updateOperation d (op_id p)
             \<lparr> oq_state = Some outcome, oq_checkpointId = None, oq_resultWorkspaceId = None, oq_reasonCode = Some reason,
               oq_attemptCount = Some (op_attemptCount p + 1), oq_completedAt = Some (Some at) \<rparr> at)))"

definition log_patch :: "string \<times> bool \<times> nat option \<Rightarrow> workspace_patch \<Rightarrow> workspace_patch" where
  "log_patch tail p = (let (text', truncated, sq) = tail
     in p\<lparr>pt_failureLogTail := Some (Some text'), pt_failureLogTailTruncated := Some truncated, pt_failureLastLogSeq := Some sq\<rparr>)"

definition captureLaunchFailure :: "scheduler_deps \<Rightarrow> ident \<Rightarrow> js_error \<Rightarrow> workspace_patch \<Rightarrow> workspace_patch sched" where
  "captureLaunchFailure dp i e p =
     catchS (thenS (askE (\<lambda>n. dp_appendLog dp n i e)) (bindS (askE (\<lambda>n. dp_logTail dp n i)) (\<lambda>tail. returnS (log_patch tail p))))
       (\<lambda>_. returnS p)"

section \<open>Stopping a provider\<close>

definition field :: "string \<Rightarrow> json option \<Rightarrow> json" where
  "field k r = or_else (Option.bind r (own k)) JUndefined"

fun truthy :: "json \<Rightarrow> bool" where
  "truthy JNull = False"
| "truthy JUndefined = False"
| "truthy (JBool b) = b"
| "truthy (JNum n) = (n \<noteq> 0)"
| "truthy (JStr s) = (s \<noteq> [])"
| "truthy _ = True"

definition receipt :: "json option \<Rightarrow> json option" where
  "receipt r = Option.bind r (own_path [''terminationEvidence'', ''neverAdmitted''])"

definition sameAdmission :: "json option \<Rightarrow> string option \<Rightarrow> json option \<Rightarrow> bool" where
  "sameAdmission current kind expected =
     (if kind \<noteq> Some ''kubernetes'' then True
      else
        let uid = field ''jobUid'' expected in
        if (case uid of JStr s \<Rightarrow> s \<noteq> [] | _ \<Rightarrow> False) then field ''jobUid'' current = uid
        else if uid \<noteq> JUndefined \<or> field ''jobUid'' current \<noteq> JUndefined then False
        else
          let actual = receipt current; target = receipt expected
          in truthy (field ''inputUid'' target) \<and> truthy (field ''workspaceId'' target) \<and> truthy (field ''templateDigest'' target)
             \<and> field ''inputUid'' actual = field ''inputUid'' target \<and> field ''workspaceId'' actual = field ''workspaceId'' target
             \<and> field ''templateDigest'' actual = field ''templateDigest'' target)"

definition sameProvider :: "workspace_row option \<Rightarrow> string option \<Rightarrow> json option \<Rightarrow> bool" where
  "sameProvider current kind expected =
     (case current of
        None \<Rightarrow> False
      | Some row \<Rightarrow>
          ws_providerKind row = kind
          \<and> list_all (\<lambda>k. field k (ws_providerRef row) = field k expected) [''id'', ''kind'', ''namespace'', ''jobUid'', ''poolRuntimeId'']
          \<and> sameAdmission (ws_providerRef row) kind expected)"

fun put_field :: "string \<times> json \<Rightarrow> (string \<times> json) list \<Rightarrow> (string \<times> json) list" where
  "put_field (k, v) ps = (if k \<in> fst ` set ps then map (\<lambda>p. if fst p = k then (k, v) else p) ps else ps @ [(k, v)])"

text \<open>\<open>{ ...a, ...b }\<close>\<close>

definition spread :: "(string \<times> json) list \<Rightarrow> json \<Rightarrow> json" where
  "spread base v = JObj (case v of JObj ps \<Rightarrow> foldl (\<lambda>m p. put_field p m) base ps | _ \<Rightarrow> base)"

definition provider_ref :: "string option \<Rightarrow> json \<Rightarrow> json" where
  "provider_ref kind r = spread [(''kind'', JStr (or_else kind [])), (''id'', JStr [])] r"

definition with_evidence :: "json \<Rightarrow> json \<Rightarrow> json" where
  "with_evidence r evidence = spread (case r of JObj ps \<Rightarrow> ps | _ \<Rightarrow> []) (JObj [(''terminationEvidence'', evidence)])"

definition stopWorkspaceProvider :: "scheduler_deps \<Rightarrow> ident \<Rightarrow> string option \<Rightarrow> json option \<Rightarrow> int \<Rightarrow> time \<Rightarrow> unit sched" where
  "stopWorkspaceProvider dp i kind expected grace at =
     (case expected of
        None \<Rightarrow> returnS ()
      | Some r \<Rightarrow>
          let ref = provider_ref kind r in
          bindS (catchS
            (thenS (drive (CallStop ref) (\<lambda>n. dp_stop dp n ref grace))
               (case dp_evidence dp of None \<Rightarrow> returnS None | Some ev \<Rightarrow> askE (\<lambda>n. ev n ref)))
            (\<lambda>e. bindS (readS dp (\<lambda>d. getWorkspace d i)) (\<lambda>current.
               if \<not> sameProvider current kind expected \<or> \<not> truthy (field ''terminationEvidence'' (Option.bind current ws_providerRef))
               then throwS e else returnS None))) (\<lambda>evidence.
          thenS (case evidence of
                   None \<Rightarrow> returnS ()
                 | Some ev \<Rightarrow>
                     bindS (readS dp (\<lambda>d. getWorkspace d i)) (\<lambda>current.
                     case Option.bind current ws_providerRef of
                       None \<Rightarrow> throwS (PlainError ''Termination provider changed'')
                     | Some stored \<Rightarrow>
                         if \<not> sameProvider current kind expected then throwS (PlainError ''Termination provider changed'')
                         else writeS dp (\<lambda>d. updateWorkspace d i (no_patch\<lparr>pt_providerRef := Some (Some (with_evidence stored ev))\<rparr>) at)))
            (drive (CallRemove ref) (\<lambda>n. dp_remove dp n ref))))"

definition commitProvider :: "scheduler_deps \<Rightarrow> ident \<Rightarrow> json \<Rightarrow> unit sched" where
  "commitProvider dp i ref =
     bindS (ask (dp_now dp)) (\<lambda>at.
       writeS dp (\<lambda>d. updateWorkspace d i (no_patch\<lparr>pt_providerKind := Some (Some (dp_kind dp)), pt_providerRef := Some (Some ref)\<rparr>) at))"

definition stopUncommitted :: "scheduler_deps \<Rightarrow> ident \<Rightarrow> json \<Rightarrow> int \<Rightarrow> unit sched" where
  "stopUncommitted dp i ref grace =
     thenS (commitProvider dp i ref)
       (bindS (ask (dp_now dp)) (\<lambda>at. stopWorkspaceProvider dp i (Some (dp_kind dp)) (Some ref) grace at))"

definition cleanupUncommittedProvider :: "scheduler_deps \<Rightarrow> workspace_row \<Rightarrow> int \<Rightarrow> time \<Rightarrow> unit sched" where
  "cleanupUncommittedProvider dp row grace at =
     bindS (readS dp (\<lambda>d. getWorkspace d (ws_id row))) (\<lambda>current.
     thenS (case Option.bind current ws_providerRef of
              Some ref \<Rightarrow>
                bindS (ask (dp_now dp)) (\<lambda>now.
                  stopWorkspaceProvider dp (ws_id row) (Option.bind current ws_providerKind) (Some ref) grace now)
            | None \<Rightarrow>
                (case dp_uncommitted dp of
                   Some find' \<Rightarrow>
                     bindS (askE (\<lambda>n. find' n row at)) (\<lambda>found.
                       case found of None \<Rightarrow> returnS () | Some ref \<Rightarrow> stopUncommitted dp (ws_id row) ref grace)
                 | None \<Rightarrow>
                     if dp_kind dp = ''kubernetes'' then throwS (PlainError ''Kubernetes admission proof is unavailable'')
                     else bindS (askE (dp_list dp)) (eachS (\<lambda>(w, digest, ref).
                       if w \<noteq> ws_id row then returnS ()
                       else if digest \<noteq> ws_templateDigest row then throwS (PlainError ''Uncommitted provider template mismatch'')
                       else stopUncommitted dp (ws_id row) ref grace))))
       (drive (CallPurge (ws_id row)) (\<lambda>n. dp_purgeInput dp n (ws_id row))))"

section \<open>Reasons to wait\<close>

definition capacityReason :: "workspace_row \<Rightarrow> active_counts \<Rightarrow> capacity_limits \<Rightarrow> reason_code option" where
  "capacityReason row counts limits =
     (if cl_global limits \<le> ac_global counts then Some AdmissionGlobalCapacity
      else if cl_perPrincipal limits \<le> count_for (ac_byPrincipal counts) (ws_principalId row) then Some AdmissionPrincipalCapacity
      else if template_limit limits (ws_templateName row) \<le> count_for (ac_byTemplate counts) (ws_templateName row)
      then Some AdmissionTemplateCapacity
      else None)"

definition stale_reason :: "workspace_row \<Rightarrow> reason_code option \<Rightarrow> bool" where
  "stale_reason row reason \<longleftrightarrow> ws_reasonCode row \<noteq> reason
     \<and> (reason \<noteq> None \<or> ws_reasonCode row \<in> Some ` {AdmissionGlobalCapacity, AdmissionPrincipalCapacity, AdmissionTemplateCapacity})"

definition recordAdmissionReason :: "scheduler_deps \<Rightarrow> ident \<Rightarrow> reason_code option \<Rightarrow> unit sched" where
  "recordAdmissionReason dp i reason =
     bindS (ask (dp_now dp)) (\<lambda>at. writeS dp (\<lambda>d. setQueuedAdmissionReason d i reason at))"

definition recordCapacityReasons :: "scheduler_deps \<Rightarrow> active_counts \<Rightarrow> admission_snapshot option \<Rightarrow> bool sched" where
  "recordCapacityReasons dp counts snapshot =
     bindS (case snapshot of
              Some sn \<Rightarrow>
                if as_queuedCount sn = length (as_queued sn) then returnS (as_queued sn)
                else readS dp (\<lambda>d. filter (\<lambda>r. ws_state r = Queued) (listNonterminal d))
            | None \<Rightarrow> readS dp (\<lambda>d. filter (\<lambda>r. ws_state r = Queued) (listNonterminal d))) (\<lambda>queued.
     let stale = filter (\<lambda>row. stale_reason row (capacityReason row counts (dp_limits dp))) queued
     in thenS (eachS (\<lambda>row. recordAdmissionReason dp (ws_id row) (capacityReason row counts (dp_limits dp))) stale)
          (returnS (stale \<noteq> [])))"

end
