(* ===== verification/Scheduler.thy ===== *)
theory Scheduler
  imports Scheduler_Base
begin

text \<open>
  The scheduler (\<^verbatim>\<open>packages/runtime-core/src/scheduler/\<close>): admission of queued workspaces in turn of their principals
  (\<^verbatim>\<open>scheduler-admission.ts\<close>), their end (\<^verbatim>\<open>scheduler-lifecycle.ts\<close>), the sweep that enforces deadlines (\<^verbatim>\<open>scheduler-sweep.ts\<close>) and the tick
  that runs both (\<^verbatim>\<open>scheduler.ts\<close>). A finalizer that the code starts without waiting for it runs here to its end, its error dropped. The loop of
  \<open>admit\<close> takes its number of rounds as an argument; its result tells whether it returned within them.
\<close>

section \<open>Admission\<close>

definition groupQueuedByPrincipal :: "workspace_row list \<Rightarrow> (ident \<times> workspace_row list) list" where
  "groupQueuedByPrincipal queued =
     map (\<lambda>p. (p, filter (\<lambda>r. ws_principalId r = p) queued)) (dedup (map ws_principalId queued))"

definition index_of :: "'a \<Rightarrow> 'a list \<Rightarrow> nat" where
  "index_of x xs = length (takeWhile (\<lambda>y. y \<noteq> x) xs)"

definition start_index :: "ident option \<Rightarrow> ident list \<Rightarrow> nat" where
  "start_index last' principals =
     (case last' of
        None \<Rightarrow> 0
      | Some p \<Rightarrow> if p = [] \<or> p \<notin> set principals then 0 else (index_of p principals + 1) mod length principals)"

definition principalRotation :: "ident option \<Rightarrow> ident list \<Rightarrow> ident list" where
  "principalRotation last' principals = drop (start_index last' principals) principals @ take (start_index last' principals) principals"

definition canAdmit :: "scheduler_deps \<Rightarrow> workspace_row \<Rightarrow> active_counts \<Rightarrow> bool" where
  "canAdmit dp row counts \<longleftrightarrow> capacityReason row counts (dp_limits dp) = None"

definition bump_counts :: "workspace_row \<Rightarrow> active_counts \<Rightarrow> active_counts" where
  "bump_counts row counts = \<lparr> ac_global = ac_global counts + 1, ac_byPrincipal = bump (ws_principalId row) 1 (ac_byPrincipal counts),
     ac_byTemplate = bump (ws_templateName row) 1 (ac_byTemplate counts) \<rparr>"

definition recordAdmission :: "workspace_row \<Rightarrow> active_counts \<Rightarrow> active_counts sched" where
  "recordAdmission row counts = (\<lambda>s. (Inr (bump_counts row counts), s\<lparr>sc_last := Some (ws_principalId row)\<rparr>))"

definition authorized :: "scheduler_deps \<Rightarrow> workspace_row \<Rightarrow> bool sched" where
  "authorized dp row =
     (case dp_authorize dp of
        None \<Rightarrow> returnS True
      | Some policy \<Rightarrow>
          catchS
            (bindS (askE (\<lambda>n. policy n row)) (\<lambda>decision.
              case decision of
                Allowed \<Rightarrow> returnS True
              | Denied \<Rightarrow> thenS (recordAdmissionReason dp (ws_id row) (Some AdmissionDenied)) (returnS False)
              | DeniedFor reason \<Rightarrow> thenS (recordAdmissionReason dp (ws_id row) (Some reason)) (returnS False)))
            (\<lambda>_. thenS (recordAdmissionReason dp (ws_id row) (Some AdmissionUnavailable)) (returnS False)))"

definition provider_input :: "scheduler_deps \<Rightarrow> workspace_row \<Rightarrow> string \<Rightarrow> json" where
  "provider_input dp row secret = JObj (
     [(''workspace_id'', JStr (ws_id row)), (''server_url'', JStr (dp_serverUrl dp)), (''registration_secret'', JStr secret),
      (''template_digest'', JStr (ws_templateDigest row)), (''template_name'', JStr (ws_templateName row)),
      (''template_version'', JStr (ws_templateVersion row)), (''launch_mode'', JStr (ws_launchMode row))]
     @ (case ws_sourceDescriptor row of
          None \<Rightarrow> []
        | Some src \<Rightarrow> [(''source'', JObj [(''repository'', JStr (sd_repository src)), (''revision'', JStr (sd_revision src))])])
     @ (case (ws_restoredFromCheckpointId row, ws_originWorkspaceId row) of
          (Some c, Some w) \<Rightarrow> [(''restore'', JObj [(''checkpoint_id'', JStr c), (''origin_workspace_id'', JStr w)])]
        | _ \<Rightarrow> [])
     @ (case ws_launchInput row of None \<Rightarrow> [] | Some v \<Rightarrow> [(''launch_input'', v)]))"

definition new_storage :: "scheduler_deps \<Rightarrow> storage_driver \<Rightarrow> workspace_row \<Rightarrow> ident \<Rightarrow> time \<Rightarrow> storage_row" where
  "new_storage dp sv row i at = \<lparr> st_id = i, st_workspaceId = ws_id row, st_principalId = ws_principalId row, st_providerKind = sv_kind sv,
     st_providerRef = JObj [], st_state = StAllocating, st_mountManifest = sp_mounts (ts_spec (ws_templateSnapshot row)),
     st_logicalBytes = None, st_fileCount = None, st_retainedUntil = None, st_createdAt = at, st_updatedAt = at, st_deletedAt = None,
     st_lastErrorCode = None \<rparr>"

definition allocate_storage :: "scheduler_deps \<Rightarrow> storage_driver \<Rightarrow> workspace_row \<Rightarrow> storage_row \<Rightarrow> (json \<times> storage_state) sched" where
  "allocate_storage dp sv row st =
     (if has_keys (st_providerRef st) then returnS (st_providerRef st, st_state st)
      else
        bindS (askE (\<lambda>n. sv_allocate sv n (st_id st) row)) (\<lambda>ref.
        let new_state = (if ws_restoredFromCheckpointId row \<noteq> None then StRestoring else StReady) in
        bindS (ask (dp_now dp)) (\<lambda>at.
        thenS (writeS dp (\<lambda>d. updateWorkspaceStorage d (st_id st)
                 (no_storage_patch\<lparr>sq_providerRef := Some ref, sq_providerKind := Some (sv_kind sv), sq_state := Some new_state\<rparr>) at))
          (returnS (ref, new_state)))))"

definition restore_storage :: "scheduler_deps \<Rightarrow> storage_driver \<Rightarrow> workspace_row \<Rightarrow> ident \<Rightarrow> json \<Rightarrow> storage_state \<Rightarrow> unit sched" where
  "restore_storage dp sv row st_id' ref state =
     (case ws_restoredFromCheckpointId row of
        None \<Rightarrow> returnS ()
      | Some c \<Rightarrow>
          if state = StReady then returnS ()
          else
            bindS (readS dp (\<lambda>d. row_by cr_id c (checkpoints d))) (\<lambda>found.
            case found of
              Some ck \<Rightarrow>
                (case (cr_state ck, cr_providerRef ck, cr_manifest ck) of
                   (CkReady, Some src, Some manifest) \<Rightarrow>
                     thenS (askE (\<lambda>n. sv_clone sv n src ref manifest))
                       (bindS (ask (dp_now dp)) (\<lambda>at.
                          writeS dp (\<lambda>d. updateWorkspaceStorage d st_id' (no_storage_patch\<lparr>sq_state := Some StReady\<rparr>) at)))
                 | _ \<Rightarrow> throwS (PlainError ''checkpoint.not_ready''))
            | None \<Rightarrow> throwS (PlainError ''checkpoint.not_ready'')))"

definition prepareStorage :: "scheduler_deps \<Rightarrow> workspace_row \<Rightarrow> json list sched" where
  "prepareStorage dp row =
     (if sp_mounts (ts_spec (ws_templateSnapshot row)) = [] then returnS []
      else case dp_storage dp of
             None \<Rightarrow> throwS (PlainError ''workspace.persistence_not_enabled: no storage driver configured'')
           | Some sv \<Rightarrow>
               bindS (readS dp (\<lambda>d. getWorkspaceStorage d (ws_id row))) (\<lambda>found.
               bindS (case found of
                        Some st \<Rightarrow> returnS st
                      | None \<Rightarrow>
                          bindS (ask (dp_now dp)) (\<lambda>at.
                          bindS (ask (dp_uuid dp)) (\<lambda>i. tx dp (\<lambda>n d. insertWorkspaceStorage d (new_storage dp sv row i at))))) (\<lambda>st.
               bindS (allocate_storage dp sv row st) (\<lambda>(ref, state).
               thenS (restore_storage dp sv row (st_id st) ref state)
                 (thenS (whenS (ws_restoredFromCheckpointId row \<noteq> None) (finishRestoreOperation dp row OpSucceeded None))
                    (askE (\<lambda>n. sv_mounts sv n ref)))))))"

definition resolveRuntimeSecrets :: "scheduler_deps \<Rightarrow> workspace_row \<Rightarrow> unit sched" where
  "resolveRuntimeSecrets dp row =
     (let spec = ts_spec (ws_templateSnapshot row) in
      if list_ex (list_ex (\<lambda>(k, v). take 10 v = ''secretRef:'')) (sp_setupEnvs spec)
      then throwS (PlainError ''secret.unavailable: setup environment credentials are not supported'')
      else if runtimeCredentialReferences spec \<noteq> [] \<and> dp_revoke dp = None
      then throwS (PlainError ''secret.unavailable: no runtime issuer configured'')
      else returnS ())"

definition prepareRuntime :: "scheduler_deps \<Rightarrow> workspace_row \<Rightarrow> unit sched" where
  "prepareRuntime dp row =
     (case (ts_manifest (ws_templateSnapshot row), ws_providerRef row) of
        (None, _) \<Rightarrow> returnS ()
      | (Some _, None) \<Rightarrow> throwS (PlainError ''Waiting runtime template or provider mismatch'')
      | (Some _, Some ref) \<Rightarrow>
          bindS (askE (\<lambda>n. dp_qualify dp n row)) (\<lambda>runtime.
          bindS (tx dp (\<lambda>n d. Inr (bindWorkspaceRuntime d (ws_id row) runtime ref))) (\<lambda>bound.
            if bound then returnS () else throwS (PlainError ''Runtime registration changed''))))"

definition start_provider :: "scheduler_deps \<Rightarrow> workspace_row \<Rightarrow> json \<Rightarrow> json list \<Rightarrow> unit sched" where
  "start_provider dp row input mounts =
     bindS (drive (CallCreate (ws_id row)) (\<lambda>n. dp_create dp n row input mounts)) (\<lambda>ref.
     thenS (commitProvider dp (ws_id row) ref)
       (prepareRuntime dp (row\<lparr>ws_providerKind := Some (dp_kind dp), ws_providerRef := Some ref\<rparr>)))"

definition cleanupFailedLaunch :: "scheduler_deps \<Rightarrow> workspace_row \<Rightarrow> bool \<Rightarrow> js_error \<Rightarrow> bool sched" where
  "cleanupFailedLaunch dp row started e =
     (if \<not> started \<or> dp_notSubmitted dp e then returnS True
      else
        catchS
          (bindS (liftE (graceSeconds row)) (\<lambda>grace.
           bindS (ask (dp_now dp)) (\<lambda>at.
             thenS (cleanupUncommittedProvider dp row grace at) (returnS True))))
          (\<lambda>_. returnS False))"

definition launch_failed :: "scheduler_deps \<Rightarrow> workspace_row \<Rightarrow> bool \<Rightarrow> js_error \<Rightarrow> bool sched" where
  "launch_failed dp claimed started e =
     bindS (ask (dp_now dp)) (\<lambda>at.
     bindS (cleanupFailedLaunch dp claimed started e) (\<lambda>clean.
     if \<not> clean then returnS False
     else if ws_launchAttempts claimed < dp_maxLaunchAttempts dp then
       thenS (transitionS dp (ws_id claimed) (request [Provisioning] Queued None at
         (no_patch\<lparr>pt_providerKind := Some None, pt_providerRef := Some None, pt_registrationDigest := Some None,
            pt_registrationExpiresAt := Some None\<rparr>))) (returnS False)
     else
       bindS (captureLaunchFailure dp (ws_id claimed) e (no_patch\<lparr>pt_launchInput := Some None, pt_registrationDigest := Some None\<rparr>)) (\<lambda>patch.
       thenS (transitionS dp (ws_id claimed) (request [Provisioning] Failed (Some (Some LaunchFailed)) at patch))
         (thenS (cleanupWorkspaceStorage dp claimed)
            (thenS (finishRestoreOperation dp claimed OpFailed (Some ''restore_failed'')) (returnS False))))))"

definition launch :: "scheduler_deps \<Rightarrow> workspace_row \<Rightarrow> bool sched" where
  "launch dp row =
     bindS (authorized dp row) (\<lambda>ok.
     if \<not> ok then returnS False
     else
       bindS (ask (dp_fenced dp)) (\<lambda>fenced'.
       if fenced' then returnS False
       else
         bindS (ask (dp_now dp)) (\<lambda>now.
         bindS (ask (dp_secret dp)) (\<lambda>(secret, digest).
         bindS (liftE (timeoutMs row to_start)) (\<lambda>start.
         bindS (tx dp (\<lambda>n d. claimWorkspaceAdmission (dp_uuids dp n) d
           \<lparr> cm_workspaceId = ws_id row, cm_at = now, cm_registrationDigest = digest, cm_registrationExpiresAt = now + start,
             cm_limits = dp_limits dp \<rparr>)) (\<lambda>claim.
         case claim of
           None \<Rightarrow> returnS False
         | Some claimed \<Rightarrow>
             bindS (attemptS (bindS (prepareStorage dp claimed) (\<lambda>mounts. thenS (resolveRuntimeSecrets dp claimed) (returnS mounts)))) (\<lambda>prepared.
             case prepared of
               Inl e \<Rightarrow> launch_failed dp claimed False e
             | Inr mounts \<Rightarrow>
                 bindS (attemptS (start_provider dp claimed (provider_input dp row secret) mounts)) (\<lambda>started.
                 case started of
                   Inl e \<Rightarrow> launch_failed dp claimed True e
                 | Inr _ \<Rightarrow> returnS True))))))))"

fun admitRound ::
  "scheduler_deps \<Rightarrow> (ident \<times> workspace_row list) list \<Rightarrow> ident list \<Rightarrow> active_counts \<Rightarrow> bool \<Rightarrow> (bool \<times> active_counts) sched" where
  "admitRound dp byPrincipal [] counts progressed = returnS (progressed, counts)"
| "admitRound dp byPrincipal (p # rotation) counts progressed =
     bindS (ask (dp_fenced dp)) (\<lambda>fenced'.
     if fenced' \<or> cl_global (dp_limits dp) \<le> ac_global counts then returnS (progressed, counts)
     else case map_of byPrincipal p of
            Some (row # _) \<Rightarrow>
              if \<not> canAdmit dp row counts then admitRound dp byPrincipal rotation counts progressed
              else
                bindS (launch dp row) (\<lambda>ok.
                if ok then bindS (recordAdmission row counts) (\<lambda>counts'. admitRound dp byPrincipal rotation counts' True)
                else admitRound dp byPrincipal rotation counts progressed)
          | _ \<Rightarrow> admitRound dp byPrincipal rotation counts progressed)"

fun admit :: "nat \<Rightarrow> scheduler_deps \<Rightarrow> bool sched" where
  "admit 0 dp = returnS False"
| "admit (Suc rounds) dp =
     bindS (ask (dp_fenced dp)) (\<lambda>fenced'.
     if fenced' then returnS True
     else
       bindS (attemptS (readS dp readAdmissionSnapshot)) (\<lambda>taken.
       case taken of
         Inl _ \<Rightarrow> returnS True
       | Inr first \<Rightarrow>
           if as_queuedCount first = 0 then returnS True
           else
             bindS (recordCapacityReasons dp (as_counts first) (Some first)) (\<lambda>changed.
             bindS (if changed then readS dp readAdmissionSnapshot else returnS first) (\<lambda>snapshot.
             let limit = cl_global (dp_limits dp); byPrincipal = groupQueuedByPrincipal (as_queued snapshot) in
             if limit \<le> ac_global (as_counts snapshot) \<or> as_queued snapshot = [] then returnS True
             else
               bindS (\<lambda>s. (Inr (principalRotation (sc_last s) (map fst byPrincipal)), s)) (\<lambda>rotation.
               bindS (admitRound dp byPrincipal rotation (as_counts snapshot) False) (\<lambda>(progressed, counts).
               if \<not> progressed \<or> ac_global counts - ac_global (as_counts snapshot) = as_queuedCount snapshot then returnS True
               else
                 thenS (recordCapacityReasons dp counts None)
                   (if limit \<le> ac_global counts then returnS True else admit rounds dp)))))))"

section \<open>The end of a workspace\<close>

definition CLEANUP_RETRY_BASE_MS :: int where
  "CLEANUP_RETRY_BASE_MS = 2000"

definition CLEANUP_RETRY_MAX_MS :: int where
  "CLEANUP_RETRY_MAX_MS = 300000"

definition cleanupRetryDue :: "ident \<Rightarrow> time \<Rightarrow> scheduler \<Rightarrow> bool" where
  "cleanupRetryDue i now s \<longleftrightarrow> (case sc_retries s i of None \<Rightarrow> 0 | Some (failures, dueAt) \<Rightarrow> dueAt) \<le> now"

definition retry_delay :: "nat \<Rightarrow> int" where
  "retry_delay failures = min (CLEANUP_RETRY_BASE_MS * 2 ^ (failures - 1)) CLEANUP_RETRY_MAX_MS"

definition note_failure :: "scheduler_deps \<Rightarrow> ident \<Rightarrow> unit sched" where
  "note_failure dp i =
     bindS (ask (dp_now dp)) (\<lambda>now s.
       let failures = (case sc_retries s i of None \<Rightarrow> 0 | Some (k, _) \<Rightarrow> k) + 1
       in (Inr (), s\<lparr>sc_retries := (sc_retries s)(i \<mapsto> (failures, now + retry_delay failures))\<rparr>))"

definition cleanup_provider :: "scheduler_deps \<Rightarrow> workspace_row \<Rightarrow> time \<Rightarrow> unit sched" where
  "cleanup_provider dp row at =
     thenS (case dp_revoke dp of None \<Rightarrow> returnS () | Some rv \<Rightarrow> drive (CallRevoke (ws_id row)) (\<lambda>n. rv n (ws_id row)))
       (bindS (liftE (graceSeconds row)) (\<lambda>grace.
        if ws_providerRef row \<noteq> None then
          thenS (stopWorkspaceProvider dp (ws_id row) (ws_providerKind row) (ws_providerRef row) grace at)
            (drive (CallPurge (ws_id row)) (\<lambda>n. dp_purgeInput dp n (ws_id row)))
        else cleanupUncommittedProvider dp row grace at))"

definition retain_storage :: "scheduler_deps \<Rightarrow> workspace_row \<Rightarrow> time \<Rightarrow> unit sched" where
  "retain_storage dp row at =
     bindS (readS dp (\<lambda>d. getWorkspaceStorage d (ws_id row))) (\<lambda>found.
     case found of
       None \<Rightarrow> returnS ()
     | Some st \<Rightarrow>
         if st_state st \<in> {StRetained, StDeleted} then returnS ()
         else
           bindS (liftE (duration_ms (ck_retention (sp_checkpoint (ts_spec (ws_templateSnapshot row)))))) (\<lambda>ms.
             writeS dp (\<lambda>d. updateWorkspaceStorage d (st_id st)
               (no_storage_patch\<lparr>sq_state := Some StRetained, sq_retainedUntil := Some (Some (at + ms))\<rparr>) at)))"

definition finalize :: "scheduler_deps \<Rightarrow> workspace_row \<Rightarrow> workspace_state \<Rightarrow> reason_code option \<Rightarrow> time \<Rightarrow> unit sched" where
  "finalize dp row terminalState reason at =
     bindS (attemptS (cleanup_provider dp row at)) (\<lambda>cleaned.
     case cleaned of
       Inl _ \<Rightarrow>
         thenS (note_failure dp (ws_id row))
           (thenS (transitionS dp (ws_id row) (request [Provisioning, Connected, Ready] Terminating (Some reason) at
              (no_patch\<lparr>pt_terminalIntent := Some (Some terminalState), pt_registrationDigest := Some None\<rparr>))) (returnS ()))
     | Inr _ \<Rightarrow>
         thenS (\<lambda>s. (Inr (), s\<lparr>sc_retries := (sc_retries s)(ws_id row := None)\<rparr>))
         (thenS (case ws_runtimeRegistration row of
                   None \<Rightarrow> returnS ()
                 | Some rt \<Rightarrow> writeS dp (\<lambda>d. endWorkspaceRuntime d (ws_id row) (rr_incarnationId rt) at))
         (thenS (if terminalState = Failed \<and> ck_onFailure (sp_checkpoint (ts_spec (ws_templateSnapshot row))) = ''retain-for-recovery''
                 then retain_storage dp row at else cleanupWorkspaceStorage dp row)
         (bindS (if terminalState = Failed
                 then catchS (bindS (askE (\<lambda>n. dp_logTail dp n (ws_id row))) (\<lambda>tail.
                        returnS (log_patch tail (no_patch\<lparr>pt_launchInput := Some None, pt_registrationDigest := Some None\<rparr>))))
                      (\<lambda>_. returnS (no_patch\<lparr>pt_launchInput := Some None, pt_registrationDigest := Some None\<rparr>))
                 else returnS (no_patch\<lparr>pt_launchInput := Some None, pt_registrationDigest := Some None\<rparr>)) (\<lambda>patch.
          thenS (drive (CallClose (ws_id row)) (\<lambda>_. Inr ()))
          (thenS (transitionS dp (ws_id row)
            (request [Queued, Provisioning, Connected, Ready, Terminating] terminalState (Some reason) at patch)) (returnS ())))))))"

definition beginTermination :: "scheduler_deps \<Rightarrow> workspace_row \<Rightarrow> workspace_state \<Rightarrow> reason_code \<Rightarrow> time \<Rightarrow> workspace_row option sched" where
  "beginTermination dp row terminalState reason at =
     bindS (transitionS dp (ws_id row) (request [Provisioning, Connected, Ready, Preserving] Terminating (Some (Some reason)) at
       (no_patch\<lparr>pt_terminalIntent := Some (Some terminalState)\<rparr>))) (\<lambda>updated.
     case updated of
       None \<Rightarrow> returnS None
     | Some row' \<Rightarrow>
         bindS (ask (\<lambda>n. dp_isConnected dp n (ws_id row))) (\<lambda>connected'.
         thenS (whenS connected' (thenS (drive (CallShutdown (ws_id row) reason) (\<lambda>_. Inr ())) (drive (CallSignal (ws_id row) ''TERM'') (\<lambda>_. Inr ()))))
           (if ws_providerRef row' \<noteq> None then
              bindS (ask (dp_now dp)) (\<lambda>now.
                thenS (attemptS (finalize dp row' terminalState (Some reason) now)) (returnS updated))
            else thenS (finalize dp row' terminalState (Some reason) at) (returnS updated))))"

definition requestPolicyPreserve :: "scheduler_deps \<Rightarrow> workspace_row \<Rightarrow> string \<Rightarrow> bool sched" where
  "requestPolicyPreserve dp row trigger =
     (if sp_mounts (ts_spec (ws_templateSnapshot row)) = [] then returnS False
      else case dp_preserve dp of
             None \<Rightarrow> returnS False
           | Some policy \<Rightarrow> catchS (askE (\<lambda>n. policy n row trigger)) (\<lambda>_. returnS False))"

definition preserve_if :: "scheduler_deps \<Rightarrow> bool \<Rightarrow> workspace_row \<Rightarrow> string \<Rightarrow> bool sched" where
  "preserve_if dp c row trigger = (if c then requestPolicyPreserve dp row trigger else returnS False)"

definition fail :: "scheduler_deps \<Rightarrow> workspace_row \<Rightarrow> reason_code \<Rightarrow> time \<Rightarrow> unit sched" where
  "fail dp row reason at =
     bindS (preserve_if dp (ck_onFailure (sp_checkpoint (ts_spec (ws_templateSnapshot row))) = ''preserve'' \<and> ws_state row \<in> {Connected, Ready})
              row ''failure'') (\<lambda>preserved.
       if preserved then returnS () else finalize dp row Failed (Some reason) at)"

definition handleProcessExit :: "scheduler_deps \<Rightarrow> workspace_row \<Rightarrow> int option \<Rightarrow> time \<Rightarrow> unit sched" where
  "handleProcessExit dp row exitCode at =
     bindS (preserve_if dp (exitCode = Some 0 \<and> ck_onCleanExit (sp_checkpoint (ts_spec (ws_templateSnapshot row))) = ''preserve'')
              row ''clean_exit'') (\<lambda>preserved.
       if preserved then returnS ()
       else if exitCode \<noteq> Some 0 then fail dp row ChildExitFailure at
       else finalize dp row Succeeded (Some ChildExitSuccess) at)"

section \<open>The sweep\<close>

definition sweepQueued :: "scheduler_deps \<Rightarrow> workspace_row \<Rightarrow> time \<Rightarrow> unit sched" where
  "sweepQueued dp row now =
     (if dp_maxQueueAgeMs dp < now - ws_createdAt row
      then thenS (transitionS dp (ws_id row) (request [Queued] Expired (Some (Some QueueTimeout)) now no_patch)) (returnS ())
      else if ws_deadlineAt row \<le> now
      then thenS (transitionS dp (ws_id row) (request [Queued] Expired (Some (Some DeadlineExpired)) now no_patch)) (returnS ())
      else returnS ())"

definition terminate_unless :: "scheduler_deps \<Rightarrow> bool \<Rightarrow> workspace_row \<Rightarrow> string \<Rightarrow> reason_code \<Rightarrow> time \<Rightarrow> unit sched" where
  "terminate_unless dp c row trigger reason now =
     bindS (preserve_if dp c row trigger) (\<lambda>preserved.
       if preserved then returnS () else thenS (beginTermination dp row Expired reason now) (returnS ()))"

definition sweepActive :: "scheduler_deps \<Rightarrow> workspace_row \<Rightarrow> time \<Rightarrow> unit sched" where
  "sweepActive dp row now =
     (let policy = sp_checkpoint (ts_spec (ws_templateSnapshot row)) in
      if ws_deadlineAt row \<le> now then terminate_unless dp (ck_onDeadline policy = ''preserve'') row ''deadline'' DeadlineExpired now
      else
        bindS (case (ws_runtimeRegistration row, ws_state row, ws_lastActivityAt row) of
                 (None, Ready, Some seen) \<Rightarrow> bindS (liftE (timeoutMs row to_idle)) (\<lambda>ms. returnS (ms < now - seen))
               | _ \<Rightarrow> returnS False) (\<lambda>idle.
        if idle then terminate_unless dp (ck_onIdle policy = ''preserve'') row ''idle'' IdleExpired now
        else
          bindS (case ws_disconnectedAt row of
                   None \<Rightarrow> returnS False
                 | Some since \<Rightarrow>
                     bindS (ask (\<lambda>n. dp_isConnected dp n (ws_id row))) (\<lambda>connected'.
                       if connected' then returnS False
                       else bindS (liftE (timeoutMs row to_disconnectGrace)) (\<lambda>ms. returnS (ms < now - since)))) (\<lambda>late.
          if late then fail dp row DisconnectTimeout now else returnS ())))"

definition sweepTerminating :: "scheduler_deps \<Rightarrow> workspace_row \<Rightarrow> time \<Rightarrow> unit sched" where
  "sweepTerminating dp row now =
     bindS (liftE (timeoutMs row to_terminateGrace)) (\<lambda>grace.
     bindS (readS dp (\<lambda>d. List.find (\<lambda>h. h_toState h = Terminating) (listStateHistory d (ws_id row)))) (\<lambda>found.
     case found of
       None \<Rightarrow> returnS ()
     | Some h \<Rightarrow>
         if now - h_occurredAt h \<le> 4 * grace + 5000 then returnS ()
         else
           bindS (\<lambda>s. (Inr (cleanupRetryDue (ws_id row) now s), s)) (\<lambda>due.
             if \<not> due then returnS ()
             else finalize dp row (or_else (ws_terminalIntent row) Failed) (ws_reasonCode row) now)))"

definition sweepPreserving :: "scheduler_deps \<Rightarrow> workspace_row \<Rightarrow> time \<Rightarrow> unit sched" where
  "sweepPreserving dp row now =
     bindS (readS dp (\<lambda>d. getWorkspaceStorage d (ws_id row))) (\<lambda>found.
     case found of
       None \<Rightarrow> returnS ()
     | Some st \<Rightarrow>
         (case st_retainedUntil st of
            None \<Rightarrow> returnS ()
          | Some until \<Rightarrow>
              if st_state st \<noteq> StRetained \<or> now < until then returnS ()
              else
                bindS (readS dp listIncompleteOperations) (\<lambda>pending.
                if list_ex (\<lambda>p. op_kind p = OpPreserve \<and> op_workspaceId p = Some (ws_id row)) pending then returnS ()
                else thenS (beginTermination dp row Expired CheckpointFailed now) (returnS ()))))"

definition sweepProvisioning :: "scheduler_deps \<Rightarrow> workspace_row \<Rightarrow> time \<Rightarrow> unit sched" where
  "sweepProvisioning dp row now =
     (if (case ws_registrationExpiresAt row of None \<Rightarrow> True | Some ex \<Rightarrow> now < ex) then returnS ()
      else if ws_provisioningMode row = Some ''warm'' \<and> ws_launchAttempts row < dp_maxLaunchAttempts dp then
        thenS (case ws_providerRef row of
                 None \<Rightarrow> returnS ()
               | Some ref \<Rightarrow> thenS (drive (CallStop ref) (\<lambda>n. dp_stop dp n ref 1)) (drive (CallRemove ref) (\<lambda>n. dp_remove dp n ref)))
          (thenS (transitionS dp (ws_id row) (request [Provisioning] Queued None now
             (no_patch\<lparr>pt_providerKind := Some None, pt_providerRef := Some None, pt_provisioningMode := Some None,
                pt_registrationDigest := Some None, pt_registrationExpiresAt := Some None\<rparr>))) (returnS ()))
      else fail dp row RegistrationTimeout now)"

definition sweepRow :: "scheduler_deps \<Rightarrow> workspace_row \<Rightarrow> time \<Rightarrow> unit sched" where
  "sweepRow dp row now =
     (case ws_state row of
        Queued \<Rightarrow> sweepQueued dp row now
      | Provisioning \<Rightarrow> sweepProvisioning dp row now
      | Connected \<Rightarrow> sweepActive dp row now
      | Ready \<Rightarrow> sweepActive dp row now
      | Terminating \<Rightarrow> sweepTerminating dp row now
      | Preserving \<Rightarrow> sweepPreserving dp row now
      | _ \<Rightarrow> returnS ())"

definition observeProvider :: "scheduler_deps \<Rightarrow> workspace_row \<Rightarrow> json \<Rightarrow> time \<Rightarrow> unit sched" where
  "observeProvider dp row ref now =
     bindS (askE (\<lambda>n. dp_inspect dp n ref)) (\<lambda>observed.
     if ws_state row = Provisioning \<and> ob_refused observed then fail dp row LaunchRefused now
     else case ws_runtimeRegistration row of
            None \<Rightarrow> returnS ()
          | Some rt \<Rightarrow>
              if ws_state row \<notin> {Provisioning, Connected, Ready} then returnS ()
              else if ob_exists observed \<and> ob_running observed \<and> ob_containerIdentity observed = Some (rr_containerIdentity rt) then returnS ()
              else thenS (writeS dp (\<lambda>d. endWorkspaceRuntime d (ws_id row) (rr_incarnationId rt) now))
                     (thenS (beginTermination dp row Failed ProviderLost now) (returnS ())))"

definition sweep :: "scheduler_deps \<Rightarrow> unit sched" where
  "sweep dp =
     bindS (ask (dp_now dp)) (\<lambda>now.
     bindS (attemptS (readS dp listNonterminal)) (\<lambda>listed.
     case listed of
       Inl _ \<Rightarrow> returnS ()
     | Inr rows \<Rightarrow>
         eachS (\<lambda>row.
           thenS (attemptS
             (thenS (sweepRow dp row now)
               (bindS (if ws_runtimeRegistration row = None then returnS (Some row) else readS dp (\<lambda>d. getWorkspace d (ws_id row))) (\<lambda>current.
                case current of
                  None \<Rightarrow> returnS ()
                | Some row' \<Rightarrow>
                    (case ws_providerRef row' of None \<Rightarrow> returnS () | Some ref \<Rightarrow> observeProvider dp row' ref now)))))
             (returnS ())) rows))"

definition runTick :: "nat \<Rightarrow> scheduler_deps \<Rightarrow> bool sched" where
  "runTick rounds dp = thenS (sweep dp) (admit rounds dp)"

end
