(* ===== verification/Scheduler_Client.thy ===== *)
theory Scheduler_Client
  imports Scheduler Store_Steps
begin

text \<open>
  A relation between the states before and after an operation of the scheduler, proved once for the ways of composing operations and
  used for three relations: the store is only changed by its transactions, no operation but a launch changes the states of workspaces, and
  the driver's answers are only added to.
\<close>

section \<open>Operations that respect a relation\<close>

definition obeys :: "(scheduler \<Rightarrow> scheduler \<Rightarrow> bool) \<Rightarrow> 'a sched \<Rightarrow> bool" where
  "obeys R m \<longleftrightarrow> (\<forall>s. R s (snd (m s)))"

lemma obeysD: "obeys R m \<Longrightarrow> m s = (r, t) \<Longrightarrow> R s t"
  by (metis obeys_def snd_conv)

locale effect_relation =
  fixes R :: "scheduler \<Rightarrow> scheduler \<Rightarrow> bool"
  assumes R_refl: "R s s"
    and R_trans: "R s t \<Longrightarrow> R t u \<Longrightarrow> R s u"
    and R_calls: "R s (s\<lparr>sc_calls := n\<rparr>)"
    and R_last: "R s (s\<lparr>sc_last := p\<rparr>)"
    and R_retries: "R s (s\<lparr>sc_retries := q\<rparr>)"
    and R_trace: "R s (s\<lparr>sc_trace := sc_trace s @ cs\<rparr>)"
begin

lemma pure: "obeys R (returnS a)" "obeys R (throwS e)" "obeys R (liftE r)" "obeys R (\<lambda>s. (Inr (g s), s))"
  by (simp_all add: obeys_def returnS_def throwS_def liftE_def R_refl)

lemma bind: "obeys R m \<Longrightarrow> (\<And>a. obeys R (k a)) \<Longrightarrow> obeys R (bindS m k)"
  unfolding obeys_def bindS_def by (auto split: prod.splits sum.splits) (metis snd_conv R_trans)+

lemma sequence: "obeys R m \<Longrightarrow> obeys R k \<Longrightarrow> obeys R (thenS m k)"
  unfolding thenS_def by (rule bind)

lemma attempt: "obeys R m \<Longrightarrow> obeys R (attemptS m)"
  unfolding obeys_def attemptS_def by (auto split: prod.splits) (metis snd_conv)

lemma handle: "obeys R m \<Longrightarrow> (\<And>e. obeys R (h e)) \<Longrightarrow> obeys R (catchS m h)"
  unfolding obeys_def catchS_def by (auto split: prod.splits sum.splits) (metis snd_conv R_trans)+

lemma questions: "obeys R (askE g)" "obeys R (ask g')"
  by (simp_all add: obeys_def askE_def ask_def R_calls)

lemma driver: "obeys R (drive c g)"
  unfolding drive_def by (rule bind [OF questions(1)]) (simp add: obeys_def R_trace)

lemma bookkeeping: "obeys R (recordAdmission row counts)" "obeys R (note_failure dp i)" "obeys R (\<lambda>s. (Inr (), s\<lparr>sc_retries := (sc_retries s)(i := None)\<rparr>))"
proof -
  show "obeys R (note_failure dp i)"
    unfolding note_failure_def by (rule bind [OF questions(2)]) (simp add: obeys_def Let_def R_retries)
qed (simp_all add: obeys_def recordAdmission_def R_last R_retries)

lemma branches:
  "(c \<Longrightarrow> obeys R a) \<Longrightarrow> (\<not> c \<Longrightarrow> obeys R b) \<Longrightarrow> obeys R (if c then a else b)"
  "obeys R a \<Longrightarrow> (\<And>x. obeys R (f x)) \<Longrightarrow> obeys R (case z of None \<Rightarrow> a | Some x \<Rightarrow> f x)"
  "(\<And>e. obeys R (g e)) \<Longrightarrow> (\<And>x. obeys R (f2 x)) \<Longrightarrow> obeys R (case y of Inl e \<Rightarrow> g e | Inr x \<Rightarrow> f2 x)"
  "(\<And>x y. obeys R (h x y)) \<Longrightarrow> obeys R (case p of (x, y) \<Rightarrow> h x y)"
  "(\<And>x. obeys R (f3 x)) \<Longrightarrow> obeys R (let x = v in f3 x)"
  "obeys R a \<Longrightarrow> (\<And>x xs. obeys R (h2 x xs)) \<Longrightarrow> obeys R (case l of [] \<Rightarrow> a | x # xs \<Rightarrow> h2 x xs)"
  "obeys R m \<Longrightarrow> obeys R (whenS c m)"
  by (auto simp: whenS_def pure split: option.splits sum.splits prod.splits list.splits)

lemma each: "(\<And>x. obeys R (f x)) \<Longrightarrow> obeys R (eachS f xs)"
  by (induction xs) (simp_all add: pure sequence)

lemmas rules = pure bind sequence attempt handle questions driver bookkeeping branches each

end

section \<open>What the operations of the scheduler respect\<close>

lemma read_like_write: "snd (readS dp g s) = snd (writeS dp (\<lambda>d. d) s)"
  by (simp add: readS_def writeS_def tx_def Let_def split: option.splits)

text \<open>Everything but a launch or a transition: it is enough that a relation holds of the reads and of the writes that change no state.\<close>

locale quiet_operations = effect_relation +
  fixes dp :: scheduler_deps
  assumes silent_read: "obeys R (writeS dp (\<lambda>d. d))"
    and row_write: "obeys R (writeS dp (\<lambda>d. updateWorkspace d i p at))"
    and storage_write: "obeys R (writeS dp (\<lambda>d. updateWorkspaceStorage d i sq at))"
    and operation_write: "obeys R (writeS dp (\<lambda>d. updateOperation d i oq at))"
    and runtime_end: "obeys R (writeS dp (\<lambda>d. endWorkspaceRuntime d i inc at))"
    and reason_write: "obeys R (writeS dp (\<lambda>d. setQueuedAdmissionReason d i reason at))"
    and runtime_bind: "obeys R (tx dp (\<lambda>n d. Inr (bindWorkspaceRuntime d i rt ref)))"
    and storage_insert: "obeys R (tx dp (\<lambda>n d. insertWorkspaceStorage d st))"
begin

lemma reads: "obeys R (readS dp g)"
  using silent_read unfolding obeys_def by (simp add: read_like_write)

lemmas tx_rules = rules reads row_write storage_write operation_write runtime_end reason_write runtime_bind storage_insert

lemma op_base:
  shows "obeys R (cleanupWorkspaceStorage dp row)" "obeys R (finishRestoreOperation dp row oc re)"
    "obeys R (captureLaunchFailure dp i e p)" "obeys R (recordAdmissionReason dp i rc)"
    "obeys R (commitProvider dp i ref)"
  unfolding cleanupWorkspaceStorage_def finishRestoreOperation_def captureLaunchFailure_def recordAdmissionReason_def commitProvider_def
  by (intro tx_rules)+

lemma op_stop: "obeys R (stopWorkspaceProvider dp i kd ex grace at)"
  unfolding stopWorkspaceProvider_def by (intro tx_rules)

lemma op_cleanup:
  shows "obeys R (stopUncommitted dp i ref grace)" "obeys R (cleanupUncommittedProvider dp row grace at)"
  unfolding stopUncommitted_def cleanupUncommittedProvider_def
  by (intro tx_rules op_base op_stop)+

lemma op_reasons: "obeys R (recordCapacityReasons dp counts sn)"
  unfolding recordCapacityReasons_def by (intro tx_rules op_base)

lemma op_storage:
  shows "obeys R (allocate_storage dp sv row st)" "obeys R (restore_storage dp sv row i ref sta)"
    "obeys R (resolveRuntimeSecrets dp row)"
  unfolding allocate_storage_def restore_storage_def resolveRuntimeSecrets_def
  by (intro tx_rules; simp split: checkpoint_state.splits; intro conjI allI impI tx_rules)+

lemma op_prepare:
  shows "obeys R (prepareStorage dp row)" "obeys R (prepareRuntime dp row)" "obeys R (start_provider dp row inp ms)"
    "obeys R (authorized dp row)" "obeys R (cleanupFailedLaunch dp row st e)"
proof -
  show p: "obeys R (prepareRuntime dp row)" for row
    unfolding prepareRuntime_def by (intro tx_rules)
  show "obeys R (prepareStorage dp row)"
    unfolding prepareStorage_def by (intro tx_rules op_storage op_base)
  show "obeys R (start_provider dp row inp ms)"
    unfolding start_provider_def by (intro tx_rules op_base p)
  show "obeys R (authorized dp row)"
    unfolding authorized_def
    by (intro tx_rules; (rule op_base(4) )?; split admission_decision.split; intro conjI allI impI tx_rules op_base)
  show "obeys R (cleanupFailedLaunch dp row st e)"
    unfolding cleanupFailedLaunch_def by (intro tx_rules op_cleanup)
qed

lemma op_cleanup_provider: "obeys R (cleanup_provider dp row at)" "obeys R (retain_storage dp row at)" "obeys R (preserve_if dp c row tr)"
  unfolding cleanup_provider_def retain_storage_def preserve_if_def requestPolicyPreserve_def
  by (intro tx_rules op_stop op_cleanup)+

end

locale scheduler_operations = quiet_operations +
  assumes transitions: "obeys R (transitionS dp i req)"
    and claims: "obeys R (tx dp (\<lambda>n d. claimWorkspaceAdmission (dp_uuids dp n) d c))"
begin

lemmas all_rules = tx_rules transitions claims

lemma op_launch:
  shows "obeys R (launch_failed dp row st e)" "obeys R (launch dp row)"
proof -
  show f: "obeys R (launch_failed dp row st e)" for row st e
    unfolding launch_failed_def by (intro all_rules op_prepare op_base)
  show "obeys R (launch dp row)"
    unfolding launch_def by (intro all_rules op_prepare op_storage f)
qed

lemma op_round: "obeys R (admitRound dp g ps counts pr)"
  by (induction ps arbitrary: counts pr) (simp_all, (intro all_rules op_launch | assumption | blast)+)

lemma op_admit: "obeys R (admit n dp)"
  by (induction n) (simp_all, (intro all_rules op_reasons op_round | assumption | blast)+)

lemma op_finalize:
  shows "obeys R (finalize dp row ts re at)"
    "obeys R (beginTermination dp row ts rc at)" "obeys R (fail dp row rc at)"
proof -
  show f: "obeys R (finalize dp row ts re at)" for row ts re at
    unfolding finalize_def by (intro all_rules op_base op_cleanup_provider)
  show "obeys R (beginTermination dp row ts rc at)"
    unfolding beginTermination_def by (intro all_rules f)
  show "obeys R (fail dp row rc at)"
    unfolding fail_def by (intro all_rules f op_cleanup_provider)
qed

lemma op_sweeps:
  shows "obeys R (sweepRow dp row now)" "obeys R (observeProvider dp row ref now)"
proof -
  have t: "obeys R (terminate_unless dp c row tr re now)" for c tr re
    unfolding terminate_unless_def by (intro all_rules op_finalize op_cleanup_provider)
  have a: "obeys R (sweepActive dp row now)"
    unfolding sweepActive_def
    by (intro all_rules op_finalize op_cleanup_provider t; split workspace_state.split; intro conjI allI impI all_rules)
  have "obeys R (sweepQueued dp row now)" "obeys R (sweepProvisioning dp row now)" "obeys R (sweepTerminating dp row now)"
    "obeys R (sweepPreserving dp row now)"
    unfolding sweepQueued_def sweepProvisioning_def sweepTerminating_def sweepPreserving_def
    by (intro all_rules op_finalize op_cleanup_provider)+
  then show "obeys R (sweepRow dp row now)"
    unfolding sweepRow_def using a by (simp add: pure(1) split: workspace_state.split)
  show "obeys R (observeProvider dp row ref now)"
    unfolding observeProvider_def by (intro all_rules op_finalize op_cleanup_provider)
qed

lemma op_tick:
  shows "obeys R (runTick n dp)" "obeys R (handleProcessExit dp row code at)"
  unfolding runTick_def sweep_def handleProcessExit_def
  by (intro all_rules op_sweeps op_admit op_finalize op_cleanup_provider)+

end

section \<open>The scheduler is a client of the store\<close>

definition others_are_clients :: "scheduler_deps \<Rightarrow> bool" where
  "others_are_clients dp \<longleftrightarrow> (\<forall>n d. reaches store_step d (dp_others dp n d))"

definition stores_reach :: "scheduler_deps \<Rightarrow> scheduler \<Rightarrow> scheduler \<Rightarrow> bool" where
  "stores_reach dp s t \<longleftrightarrow> (others_are_clients dp \<longrightarrow> reaches store_step (sc_store s) (sc_store t))"

lemma client_tx:
  assumes "\<And>n d a d'. f n d = Inr (a, d') \<Longrightarrow> reaches store_step d d'"
  shows "obeys (stores_reach dp) (tx dp f)"
  unfolding obeys_def
proof
  fix s :: scheduler
  let ?n = "sc_calls s"
  have "reaches store_step (sc_store s) (sc_store (snd (tx dp f s)))" if "others_are_clients dp"
  proof -
    have o: "reaches store_step (sc_store s) (dp_others dp ?n (sc_store s))" using that by (simp add: others_are_clients_def)
    then show ?thesis
      using assms reaches_trans [OF _ o] by (auto simp: tx_def Let_def split: option.splits sum.splits)
  qed
  then show "stores_reach dp s (snd (tx dp f s))" by (simp add: stores_reach_def)
qed

lemma client_write: "(\<And>d. store_step d (g d)) \<Longrightarrow> obeys (stores_reach dp) (writeS dp g)"
  unfolding writeS_def by (rule client_tx) (auto intro: reaches_one)

interpretation client: scheduler_operations "stores_reach dp" dp for dp
proof unfold_locales
  show "obeys (stores_reach dp) (writeS dp (\<lambda>d. d))"
    unfolding writeS_def by (rule client_tx) (auto intro: reaches.refl)
  show "obeys (stores_reach dp) (tx dp (\<lambda>n d. Inr (bindWorkspaceRuntime d i rt ref)))" for i rt ref
  proof (rule client_tx)
    show "reaches store_step d d'" if "Inr (bindWorkspaceRuntime d i rt ref) = Inr (a, d')" for n d a d'
      using that reaches_one [of store_step, OF store_step.bind_runtime [of d i rt ref]] by simp
  qed
  show "obeys (stores_reach dp) (tx dp (\<lambda>n d. insertWorkspaceStorage d st))" for st
    by (rule client_tx) (auto intro: reaches_one store_step.storage_insert)
  show "obeys (stores_reach dp) (transitionS dp i req)" for i req
    unfolding transitionS_def by (rule client_tx) (auto intro: reaches_one store_step.transition)
  show "obeys (stores_reach dp) (tx dp (\<lambda>n d. claimWorkspaceAdmission (dp_uuids dp n) d c))" for c
    by (rule client_tx) (auto intro: reaches_one store_step.claim)
qed (auto simp: stores_reach_def intro: reaches.refl reaches_trans client_write store_step.intros)

end
