(* ===== verification/Scheduler_Theorems.thy ===== *)
theory Scheduler_Theorems
  imports Scheduler_Client Store_Theorems
begin

text \<open>
  What the scheduler promises: whatever the driver answers and whatever other processes do, a tick only runs transactions of the store; left alone, the
  admission loop ends; a workspace ends only after its provider is gone; and principals take turns.
\<close>

section \<open>A scheduler to evaluate on\<close>

text \<open>A driver that answers every call, no other process, and one queued workspace.\<close>

definition ex_deps :: scheduler_deps where
  "ex_deps = \<lparr> dp_others = (\<lambda>_ d. d), dp_fails = (\<lambda>_. None), dp_now = (\<lambda>n. 50 + int n), dp_uuids = (\<lambda>_. ex_uuids ''2''),
     dp_uuid = (\<lambda>_. ''st1''), dp_secret = (\<lambda>_. (''s'', [1])), dp_serverUrl = ''http://server'', dp_limits = ex_limits,
     dp_maxQueueAgeMs = 600000, dp_maxLaunchAttempts = 3, dp_fenced = (\<lambda>_. False), dp_authorize = None, dp_revoke = None,
     dp_preserve = None, dp_isConnected = (\<lambda>_ _. True), dp_kind = ''docker'',
     dp_create = (\<lambda>_ row _ _. Inr (JObj [(''id'', JStr (ws_id row))])),
     dp_inspect = (\<lambda>_ _. Inr \<lparr> ob_exists = True, ob_running = True, ob_containerIdentity = None, ob_refused = False \<rparr>),
     dp_stop = (\<lambda>_ _ _. Inr ()), dp_remove = (\<lambda>_ _. Inr ()), dp_evidence = None, dp_purgeInput = (\<lambda>_ _. Inr ()), dp_uncommitted = None,
     dp_notSubmitted = (\<lambda>_. False), dp_list = (\<lambda>_. Inr []), dp_storage = None, dp_qualify = (\<lambda>_ _. Inl (PlainError ''not qualified'')),
     dp_appendLog = (\<lambda>_ _ _. Inr ()), dp_logTail = (\<lambda>_ _. Inr ([], False, None)) \<rparr>"

definition ex_scheduler :: scheduler where
  "ex_scheduler = \<lparr> sc_store = ex_created, sc_last = None, sc_retries = Map.empty, sc_calls = 0, sc_trace = [] \<rparr>"

lemma ex_scheduler_store [simp]: "sc_store ex_scheduler = ex_created"
  by (simp add: ex_scheduler_def)

section \<open>A client of the store\<close>



section \<open>The states of the workspaces\<close>

definition undisturbed :: "scheduler_deps \<Rightarrow> bool" where
  "undisturbed dp \<longleftrightarrow> (\<forall>n d. dp_others dp n d = d)"

definition states_of :: "store \<Rightarrow> (ident \<times> workspace_state) list" where
  "states_of d = map (\<lambda>r. (ws_id r, ws_state r)) (workspaces d)"

definition same_states :: "scheduler_deps \<Rightarrow> scheduler \<Rightarrow> scheduler \<Rightarrow> bool" where
  "same_states dp s t \<longleftrightarrow> (undisturbed dp \<longrightarrow> states_of (sc_store t) = states_of (sc_store s)) \<and> (\<exists>cs. sc_trace t = sc_trace s @ cs)"

lemma undisturbed_clients: "undisturbed dp \<Longrightarrow> others_are_clients dp"
  by (simp add: undisturbed_def others_are_clients_def reaches.refl)

lemma calm_tx:
  assumes "\<And>n d a d'. f n d = Inr (a, d') \<Longrightarrow> states_of d' = states_of d"
  shows "obeys (same_states dp) (tx dp f)"
  unfolding obeys_def same_states_def tx_def using assms by (auto simp: Let_def undisturbed_def split: option.splits sum.splits)

lemma calm_write: "(\<And>d. states_of (g d) = states_of d) \<Longrightarrow> obeys (same_states dp) (writeS dp g)"
  unfolding writeS_def by (rule calm_tx) auto

lemma set_row_states:
  assumes "\<And>r. ws_id (f r) = ws_id r \<and> ws_state (f r) = ws_state r"
  shows "map (\<lambda>r. (ws_id r, ws_state r)) (set_row ws_id i f rows) = map (\<lambda>r. (ws_id r, ws_state r)) rows"
  using assms by (simp add: set_row_def update_where_def)

lemma updateWorkspace_states: "states_of (updateWorkspace d i p at) = states_of d"
  by (simp add: states_of_def updateWorkspace_def Let_def apply_patch_def purge_if_requested_def purgedContentPatch_def set_row_states)

lemma other_states:
  "states_of (updateWorkspaceStorage d i sq at) = states_of d" "states_of (updateOperation d i oq at) = states_of d"
  "states_of (endWorkspaceRuntime d i inc at) = states_of d" "states_of (setQueuedAdmissionReason d i reason at) = states_of d"
  "states_of (snd (bindWorkspaceRuntime d i rt ref)) = states_of d"
  by (auto simp: states_of_def updateWorkspaceStorage_def updateOperation_def endWorkspaceRuntime_def setQueuedAdmissionReason_def bindWorkspaceRuntime_def
      set_workspace_def lose_requests_def set_row_states Let_def split: option.splits)

lemma insert_storage_states: "insertWorkspaceStorage d st = Inr (x, d') \<Longrightarrow> states_of d' = states_of d"
  by (auto simp: insertWorkspaceStorage_def states_of_def split: if_splits option.splits)

interpretation calm: quiet_operations "same_states dp" dp for dp
proof unfold_locales
  show "same_states dp s u" if "same_states dp s t" "same_states dp t u" for s t u
    using that by (auto simp: same_states_def)
  show "obeys (same_states dp) (tx dp (\<lambda>n d. Inr (bindWorkspaceRuntime d i rt ref)))" for i rt ref
    by (rule calm_tx) (metis Inr_inject other_states(5) snd_conv)
  show "obeys (same_states dp) (tx dp (\<lambda>n d. insertWorkspaceStorage d st))" for st
    by (rule calm_tx) (rule insert_storage_states)
qed (auto simp: same_states_def intro!: calm_write updateWorkspace_states other_states)

section \<open>What a transition and a claim do to the states\<close>

definition move_state :: "ident \<Rightarrow> workspace_state \<Rightarrow> (ident \<times> workspace_state) list \<Rightarrow> (ident \<times> workspace_state) list" where
  "move_state i x = map (\<lambda>p. if fst p = i then (i, x) else p)"

lemma set_row_move:
  "ws_id row = i \<Longrightarrow> map (\<lambda>r. (ws_id r, ws_state r)) (set_row ws_id i (\<lambda>_. row) rows) = move_state i (ws_state row) (map (\<lambda>r. (ws_id r, ws_state r)) rows)"
  by (simp add: set_row_def update_where_def move_state_def)

lemma transition_states:
  assumes "transitionWorkspace u d i req = Inr (res, d')"
  shows "states_of d' = states_of d \<or> (\<exists>x. (i, x) \<in> set (states_of d) \<and> x \<in> set (rq_from req) \<and> states_of d' = move_state i (rq_to req) (states_of d))"
  using assms
proof (cases rule: transitionWorkspace_cases)
  case stay
  then show ?thesis using fence_step(3) by (auto simp: states_of_def)
next
  case (moved cur d1 row)
  have "ws_id cur = i" "cur \<in> set (workspaces d)" using row_by_SomeD [OF moved(1)] by simp_all
  moreover have "workspaces d1 = workspaces d" using prepareLeaseTransition_cases [OF moved(5)] fence_step(3) by auto
  moreover note c = commit_transition_Inr [OF moved(6)]
  moreover have "ws_state cur \<in> set (rq_from req)" using moved(2) by (simp add: permitsTransition_def)
  ultimately have "(i, ws_state cur) \<in> set (states_of d) \<and> ws_state cur \<in> set (rq_from req) \<and> states_of d' = move_state i (rq_to req) (states_of d)"
    by (auto simp: states_of_def set_row_move image_iff)
  then show ?thesis by blast
qed

lemma claim_states:
  assumes "claimWorkspaceAdmission u d c = Inr (Some row, d')"
  shows "(cm_workspaceId c, Queued) \<in> set (states_of d) \<and> ws_id row = cm_workspaceId c
    \<and> states_of d' = move_state (cm_workspaceId c) Provisioning (states_of d)"
  using assms
proof (cases rule: claimWorkspaceAdmission_cases)
  case (claimed cur)
  have "ws_id cur = cm_workspaceId c" "cur \<in> set (workspaces d)" using row_by_SomeD [OF claimed(1)] by simp_all
  moreover have "ws_id (claimed_row c cur) = ws_id cur" "ws_state (claimed_row c cur) = Provisioning" by (simp_all add: claimed_row_def)
  ultimately show ?thesis using claimed(2,7) appendTransition_Inr [OF claimed(8)]
    by (auto simp: states_of_def set_row_move image_iff intro!: bexI [of _ cur])
qed simp

definition queued_count :: "(ident \<times> workspace_state) list \<Rightarrow> nat" where
  "queued_count xs = length (filter (\<lambda>p. snd p = Queued) xs)"

lemma countQueued_states: "countQueued d = queued_count (states_of d)"
  by (simp add: countQueued_def queued_count_def states_of_def filter_map comp_def)

lemma move_ids: "map fst (move_state i x xs) = map fst xs"
  by (induction xs) (auto simp: move_state_def)

lemma claim_count: "(i, Queued) \<in> set xs \<Longrightarrow> queued_count (move_state i Provisioning xs) < queued_count xs"
proof (induction xs)
  case (Cons p xs)
  have "queued_count (move_state i Provisioning ys) \<le> queued_count ys" for ys
    by (induction ys) (auto simp: queued_count_def move_state_def)
  then show ?case using Cons by (fastforce simp: queued_count_def move_state_def less_Suc_eq_le)
qed simp

lemma move_Cons: "move_state i x (p # xs) = (if fst p = i then (i, x) else p) # move_state i x xs"
  by (simp add: move_state_def)

lemma queued_Cons: "queued_count (p # xs) = (if snd p = Queued then Suc (queued_count xs) else queued_count xs)"
  by (simp add: queued_count_def)

lemma move_absent: "i \<notin> fst ` set xs \<Longrightarrow> move_state i x xs = xs"
  by (induction xs) (auto simp: move_state_def)

lemma move_count: "distinct (map fst xs) \<Longrightarrow> queued_count (move_state i x xs) \<le> Suc (queued_count xs)"
proof (induction xs)
  case (Cons p xs)
  then show ?case by (cases "fst p = i") (auto simp: move_Cons queued_Cons move_absent)
qed (simp add: queued_count_def move_state_def)

lemma move_away_count: "x \<noteq> Queued \<Longrightarrow> queued_count (move_state i x xs) \<le> queued_count xs"
  by (induction xs) (auto simp: queued_count_def move_state_def)

section \<open>The admission loop ends\<close>

text \<open>The number of queued workspaces changes by at most what the result of the operation says.\<close>

definition changes :: "scheduler_deps \<Rightarrow> (js_error + 'a \<Rightarrow> int) \<Rightarrow> 'a sched \<Rightarrow> bool" where
  "changes dp f m \<longleftrightarrow> (\<forall>s r t. m s = (r, t) \<longrightarrow> undisturbed dp \<longrightarrow> distinct (map fst (states_of (sc_store s))) \<longrightarrow>
     distinct (map fst (states_of (sc_store t))) \<and> int (queued_count (states_of (sc_store t))) \<le> int (queued_count (states_of (sc_store s))) + f r)"

lemma changesD:
  assumes "changes dp f m" and "m s = (r, t)" and "undisturbed dp" and "distinct (map fst (states_of (sc_store s)))"
  shows "distinct (map fst (states_of (sc_store t)))" "int (queued_count (states_of (sc_store t))) \<le> int (queued_count (states_of (sc_store s))) + f r"
  using assms unfolding changes_def by blast+

lemma bindS_E:
  assumes "bindS m k s = (r, t)"
  obtains (thrown) e where "m s = (Inl e, t)" and "r = Inl e" | (returned) a u where "m s = (Inr a, u)" and "k a u = (r, t)"
  using assms by (auto simp: bindS_def split: prod.splits sum.splits)

lemma changes_calm:
  assumes "obeys (same_states dp) m" and "\<And>r. 0 \<le> f r"
  shows "changes dp f m"
  unfolding changes_def
proof (intro allI impI)
  fix s r t assume "m s = (r, t)" and "undisturbed dp" and d: "distinct (map fst (states_of (sc_store s)))"
  then have "states_of (sc_store t) = states_of (sc_store s)" using obeysD [OF assms(1)] by (simp add: same_states_def)
  then show "distinct (map fst (states_of (sc_store t))) \<and> int (queued_count (states_of (sc_store t))) \<le> int (queued_count (states_of (sc_store s))) + f r"
    using d assms(2) [of r] by simp
qed

lemma changes_return: "0 \<le> f (Inr a) \<Longrightarrow> changes dp f (returnS a)"
  by (simp add: changes_def returnS_def)

lemma changes_bind:
  assumes m: "changes dp f m" and k: "\<And>a. changes dp (g a) (k a)"
    and "\<And>e. f (Inl e) \<le> h (Inl e)" and "\<And>a r. f (Inr a) + g a r \<le> h r"
  shows "changes dp h (bindS m k)"
  unfolding changes_def
proof (intro allI impI)
  fix s r t assume run: "bindS m k s = (r, t)" and u: "undisturbed dp" and d: "distinct (map fst (states_of (sc_store s)))"
  show "distinct (map fst (states_of (sc_store t))) \<and> int (queued_count (states_of (sc_store t))) \<le> int (queued_count (states_of (sc_store s))) + h r"
    using run
  proof (cases rule: bindS_E)
    case (thrown e)
    then show ?thesis using changesD [OF m thrown(1) u d] assms(3) [of e] by auto
  next
    case (returned a v)
    note 1 = changesD [OF m returned(1) u d]
    show ?thesis using 1 changesD [OF k returned(2) u 1(1)] assms(4) [of a r] by auto
  qed
qed

lemma changes_after_calm:
  assumes "obeys (same_states dp) m" and "\<And>a. changes dp h (k a)" and "\<And>e. 0 \<le> h (Inl e)"
  shows "changes dp h (bindS m k)"
  by (rule changes_bind [where f = "\<lambda>_. 0" and g = "\<lambda>_. h"]) (simp_all add: assms changes_calm)

lemma changes_before_calm:
  assumes "changes dp (\<lambda>_. n) m" and "\<And>a. obeys (same_states dp) (k a)"
  shows "changes dp (\<lambda>_. n) (bindS m k)"
  by (rule changes_bind [where f = "\<lambda>_. n" and g = "\<lambda>_ _. 0"]) (simp_all add: assms changes_calm)

lemma tx_E:
  assumes "tx dp f s = (r, t)" and "undisturbed dp"
  obtains (threw) e where "r = Inl e" and "sc_store t = sc_store s" | (did) a where "r = Inr a" and "f (sc_calls s) (sc_store s) = Inr (a, sc_store t)"
proof -
  have d: "dp_others dp (sc_calls s) (sc_store s) = sc_store s" using assms(2) by (simp add: undisturbed_def)
  show ?thesis
  proof (cases "dp_fails dp (sc_calls s)")
    case None
    show ?thesis
    proof (cases "f (sc_calls s) (sc_store s)")
      case (Inl e)
      then show ?thesis using assms(1) None d threw [of e] by (auto simp: tx_def)
    next
      case (Inr p)
      obtain x y where "p = (x, y)" by (cases p)
      then show ?thesis using assms(1) Inr None d did [of x] by (auto simp: tx_def)
    qed
  next
    case (Some e)
    then show ?thesis using assms(1) d threw [of e] by (auto simp: tx_def)
  qed
qed

lemma transitionS_states:
  assumes "transitionS dp i req s = (r, t)" and "undisturbed dp"
  shows "states_of (sc_store t) = states_of (sc_store s) \<or> states_of (sc_store t) = move_state i (rq_to req) (states_of (sc_store s))"
proof -
  from assms(1) have run: "tx dp (\<lambda>n d. transitionWorkspace (dp_uuids dp n) d i req) s = (r, t)" by (simp add: transitionS_def)
  from run assms(2) show ?thesis
  proof (cases rule: tx_E)
    case (did a)
    then show ?thesis using transition_states by blast
  qed (simp add: states_of_def)
qed

lemma changes_transition: "changes dp (\<lambda>_. if rq_to req = Queued then 1 else 0) (transitionS dp i req)"
  unfolding changes_def
proof (intro allI impI)
  fix s r t assume "transitionS dp i req s = (r, t)" "undisturbed dp" and d: "distinct (map fst (states_of (sc_store s)))"
  then show "distinct (map fst (states_of (sc_store t)))
      \<and> int (queued_count (states_of (sc_store t))) \<le> int (queued_count (states_of (sc_store s))) + (if rq_to req = Queued then 1 else 0)"
    using transitionS_states [of dp i req s r t] move_count [OF d, of i Queued] move_away_count [of "rq_to req" i "states_of (sc_store s)"]
    by (auto simp: move_ids)
qed

lemma changes_claim:
  "changes dp (\<lambda>r. case r of Inr (Some _) \<Rightarrow> - 1 | _ \<Rightarrow> 0) (tx dp (\<lambda>n d. claimWorkspaceAdmission (dp_uuids dp n) d c))"
  unfolding changes_def
proof (intro allI impI)
  fix s r t assume run: "tx dp (\<lambda>n d. claimWorkspaceAdmission (dp_uuids dp n) d c) s = (r, t)" and u: "undisturbed dp"
    and d: "distinct (map fst (states_of (sc_store s)))"
  from run u show "distinct (map fst (states_of (sc_store t)))
      \<and> int (queued_count (states_of (sc_store t))) \<le> int (queued_count (states_of (sc_store s))) + (case r of Inr (Some _) \<Rightarrow> - 1 | _ \<Rightarrow> 0)"
  proof (cases rule: tx_E)
    case (did a)
    show ?thesis
    proof (cases a)
      case None
      with did(2) have "claimWorkspaceAdmission (dp_uuids dp (sc_calls s)) (sc_store s) c = Inr (None, sc_store t)" by simp
      then have "sc_store t = sc_store s" by (cases rule: claimWorkspaceAdmission_cases) simp_all
      then show ?thesis using did(1) None d by simp
    next
      case (Some row)
      with did(2) claim_states have "(cm_workspaceId c, Queued) \<in> set (states_of (sc_store s))"
        and "states_of (sc_store t) = move_state (cm_workspaceId c) Provisioning (states_of (sc_store s))" by blast+
      then show ?thesis using did(1) Some d claim_count [of "cm_workspaceId c" "states_of (sc_store s)"] by (simp add: move_ids)
    qed
  qed (simp add: d)
qed

lemma changes_launch_failed: "changes dp (\<lambda>r. if r = Inr True then 0 else 1) (launch_failed dp row st e)"
proof -
  let ?h = "\<lambda>r :: js_error + bool. if r = Inr True then 0 else (1 :: int)"
  have away: "changes dp ?h (thenS (transitionS dp j (request src Failed re at patch)) m)" if "obeys (same_states dp) m" for j src re at patch m
    unfolding thenS_def
    by (rule changes_bind [OF changes_transition, where g = "\<lambda>_ _. 0"]) (simp_all add: request_def that changes_calm)
  have requeue: "changes dp ?h (thenS (transitionS dp j req) (returnS False))" for j req
    unfolding thenS_def
    by (rule changes_bind [OF changes_transition, where g = "\<lambda>_ r. if r = Inr True then - 1 else 0"]) (simp_all add: changes_return)
  show ?thesis
    unfolding launch_failed_def
    by (intro changes_after_calm calm.questions calm.op_prepare conjI impI, simp)
      (auto intro!: changes_return requeue away changes_after_calm calm.op_base calm.tx_rules)
qed

text \<open>A launch that succeeds leaves one queued workspace fewer; one that does not leaves no more than there were.\<close>

lemma changes_launch: "changes dp (\<lambda>r. if r = Inr True then - 1 else 0) (launch dp row)"
proof -
  let ?h = "\<lambda>r :: js_error + bool. if r = Inr True then - 1 else (0 :: int)"
  let ?g = "\<lambda>r :: js_error + bool. if r = Inr True then 0 else (1 :: int)"
  have start: "changes dp ?g (bindS (attemptS m) (\<lambda>started. case started of Inl e \<Rightarrow> launch_failed dp w True e | Inr _ \<Rightarrow> returnS True))"
    if "obeys (same_states dp) m" for m :: "unit sched" and w
    by (rule changes_after_calm [OF calm.attempt [OF that]]) (auto split: sum.split intro: changes_launch_failed changes_return)
  have prepared: "changes dp ?g (bindS (attemptS m) (\<lambda>prepared. case prepared of Inl e \<Rightarrow> launch_failed dp w False e
      | Inr mounts \<Rightarrow> bindS (attemptS (start_provider dp w inp mounts)) (\<lambda>started. case started of Inl e \<Rightarrow> launch_failed dp w True e | Inr _ \<Rightarrow> returnS True)))"
    if "obeys (same_states dp) m" for m :: "json list sched" and w inp
    by (rule changes_after_calm [OF calm.attempt [OF that]]) (auto split: sum.split intro: changes_launch_failed start calm.op_prepare)
  have claim: "changes dp ?h (bindS (tx dp (\<lambda>n d. claimWorkspaceAdmission (dp_uuids dp n) d c)) k)"
    if "k None = returnS False" and "\<And>w. changes dp ?g (k (Some w))" for c k
    by (rule changes_bind [OF changes_claim, where g = "\<lambda>a. case a of None \<Rightarrow> ?h | Some _ \<Rightarrow> ?g"])
      (auto simp: that changes_return split: option.split)
  show ?thesis
    unfolding launch_def
    apply (rule changes_after_calm [OF calm.op_prepare(4)])
    subgoal for ok
      apply (cases ok; simp add: changes_return)
      apply (rule changes_after_calm [OF calm.questions(2)])
      subgoal for fenced'
        apply (cases fenced'; simp add: changes_return)
        apply (rule changes_after_calm [OF calm.questions(2)])
         apply (rule changes_after_calm [OF calm.questions(2)])
          apply (clarsimp)
          apply (rule changes_after_calm [OF calm.pure(3)])
           apply (rule claim; simp)
           apply (rule prepared)
        by (intro calm.tx_rules calm.op_prepare calm.op_storage | simp)+
      by simp
    by simp
qed

definition round_gain :: "bool \<Rightarrow> js_error + (bool \<times> active_counts) \<Rightarrow> int" where
  "round_gain progressed r = (case r of Inr (True, _) \<Rightarrow> if progressed then 0 else - 1 | _ \<Rightarrow> 0)"

lemma round_gain_simps: "round_gain p (Inl e) = 0" "round_gain p (Inr (b, c)) = (if b \<and> \<not> p then - 1 else 0)" "round_gain True = (\<lambda>r. 0)" "- 1 \<le> round_gain p r"
  by (auto simp: round_gain_def fun_eq_iff split: sum.split bool.split)

lemma changes_round: "changes dp (round_gain progressed) (admitRound dp groups rotation counts progressed)"
proof (induction rotation arbitrary: counts progressed)
  case Nil
  show ?case by (simp add: changes_return round_gain_simps)
next
  case (Cons p rotation)
  have rec: "changes dp (\<lambda>r. 0) (bindS (recordAdmission row counts) (\<lambda>counts'. admitRound dp groups rotation counts' True))" for row
    using Cons.IH [of True] by (intro changes_after_calm calm.bookkeeping) (simp_all add: round_gain_simps)
  have go: "changes dp (round_gain progressed) (bindS (launch dp row) (\<lambda>ok. if ok
      then bindS (recordAdmission row counts) (\<lambda>counts'. admitRound dp groups rotation counts' True) else admitRound dp groups rotation counts progressed))" for row
  proof (rule changes_bind [OF changes_launch, where g = "\<lambda>ok. if ok then \<lambda>r. 0 else round_gain progressed"])
    show "changes dp (if ok then \<lambda>r. 0 else round_gain progressed) (if ok
        then bindS (recordAdmission row counts) (\<lambda>counts'. admitRound dp groups rotation counts' True) else admitRound dp groups rotation counts progressed)"
      for ok using Cons.IH [of progressed counts] rec by (cases ok) simp_all
  qed (simp_all add: round_gain_simps)
  have stop: "changes dp (round_gain progressed) (returnS (progressed, counts))" by (simp add: changes_return round_gain_simps)
  show ?case
    by (subst admitRound.simps, rule changes_after_calm [OF calm.questions(2)])
      (simp_all add: stop go Cons.IH round_gain_simps split: option.split list.split)
qed

text \<open>With at most this many queued workspaces the loop returns before its rounds run out.\<close>

definition ends :: "scheduler_deps \<Rightarrow> int \<Rightarrow> bool sched \<Rightarrow> bool" where
  "ends dp n m \<longleftrightarrow> (\<forall>s r t. m s = (r, t) \<longrightarrow> undisturbed dp \<longrightarrow> distinct (map fst (states_of (sc_store s))) \<longrightarrow>
     int (queued_count (states_of (sc_store s))) < n \<longrightarrow> r \<noteq> Inr False)"

lemma ends_return: "ends dp n (returnS True)"
  by (simp add: ends_def returnS_def)

lemma ends_bind:
  assumes m: "changes dp f m" and k: "\<And>a. ends dp (n + f (Inr a)) (k a)"
  shows "ends dp n (bindS m k)"
  unfolding ends_def
proof (intro allI impI)
  fix s r t assume run: "bindS m k s = (r, t)" and u: "undisturbed dp" and d: "distinct (map fst (states_of (sc_store s)))"
    and b: "int (queued_count (states_of (sc_store s))) < n"
  from run show "r \<noteq> Inr False"
  proof (cases rule: bindS_E)
    case (returned a v)
    note 1 = changesD [OF m returned(1) u d]
    then have "int (queued_count (states_of (sc_store v))) < n + f (Inr a)" using b by simp
    then show ?thesis using k [of a] returned(2) u 1(1) unfolding ends_def by blast
  qed simp
qed

lemma ends_after_calm: "obeys (same_states dp) m \<Longrightarrow> (\<And>a. ends dp n (k a)) \<Longrightarrow> ends dp n (bindS m k)"
  using ends_bind [where f = "\<lambda>_. 0" and m = m and k = k and n = n] changes_calm [of dp m "\<lambda>_. 0"] by simp

lemma ends_none: "n \<le> 0 \<Longrightarrow> ends dp n m"
  by (simp add: ends_def)

lemma admit_ends: "ends dp (int rounds) (admit rounds dp)"
proof (induction rounds)
  case (Suc rounds)
  have again: "ends dp (int (Suc rounds)) (bindS (admitRound dp groups rotation counts False) (\<lambda>(progressed, counts').
      if \<not> progressed \<or> full counts' then returnS True
      else thenS (recordCapacityReasons dp counts' None) (if done' counts' then returnS True else admit rounds dp)))" for groups rotation counts full done'
  proof (rule ends_bind [OF changes_round])
    have "ends dp (int rounds) (thenS (recordCapacityReasons dp counts' None) (if done' counts' then returnS True else admit rounds dp))" for counts'
      unfolding thenS_def by (rule ends_after_calm [OF calm.op_reasons]) (simp add: ends_return Suc.IH)
    then show "ends dp (int (Suc rounds) + round_gain False (Inr a))
        (case a of (progressed, counts') \<Rightarrow> if \<not> progressed \<or> full counts' then returnS True
         else thenS (recordCapacityReasons dp counts' None) (if done' counts' then returnS True else admit rounds dp))" for a
      by (cases a) (simp add: ends_return round_gain_simps)
  qed
  have pick: "ends dp (int (Suc rounds)) (if c then returnS True else m)" if "ends dp (int (Suc rounds)) m" for c m
    using that by (simp add: ends_return)
  have took: "ends dp (int (Suc rounds)) (case x of Inl _ \<Rightarrow> returnS True | Inr a \<Rightarrow> g a)" if "\<And>a. ends dp (int (Suc rounds)) (g a)"
    for x :: "js_error + admission_snapshot" and g using that by (cases x) (simp_all add: ends_return)
  show ?case
    unfolding admit.simps Let_def
    by (intro ends_after_calm pick took again calm.tx_rules calm.op_reasons)
qed (simp add: ends_none)

text \<open>Once the loop returns, more rounds change nothing.\<close>

definition extends :: "bool sched \<Rightarrow> bool sched \<Rightarrow> bool" where
  "extends m m' \<longleftrightarrow> (\<forall>s. fst (m s) \<noteq> Inr False \<longrightarrow> m' s = m s)"

lemma extends_rules:
  "extends m m" "extends (returnS False) m"
  "extends m m' \<Longrightarrow> extends m' m'' \<Longrightarrow> extends m m''"
  by (simp_all add: extends_def returnS_def)

lemma extends_bind: "(\<And>a. extends (k a) (k' a)) \<Longrightarrow> extends (bindS m k) (bindS m k')"
  by (simp add: extends_def bindS_def split: prod.split sum.split)

lemma extends_cases:
  "extends m m' \<Longrightarrow> extends (if c then n else m) (if c then n else m')"
  "(\<And>a. extends (f a) (f' a)) \<Longrightarrow> extends (case x of Inl e \<Rightarrow> g e | Inr a \<Rightarrow> f a) (case x of Inl e \<Rightarrow> g e | Inr a \<Rightarrow> f' a)"
  "(\<And>a b. extends (h a b) (h' a b)) \<Longrightarrow> extends (case p of (a, b) \<Rightarrow> h a b) (case p of (a, b) \<Rightarrow> h' a b)"
  by (simp_all add: extends_rules(1) split: sum.split prod.split)

lemma admit_extends: "n \<le> k \<Longrightarrow> extends (admit n dp) (admit k dp)"
proof (induction rule: dec_induct)
  case (step k)
  have "extends (admit k dp) (admit (Suc k) dp)" for k
  proof (induction k)
    case (Suc k)
    show ?case
      by (subst admit.simps(2) [of k dp], subst admit.simps(2) [of "Suc k" dp], unfold Let_def thenS_def, intro extends_bind extends_cases Suc.IH)
  qed (simp add: extends_rules(2))
  then show ?case using step.IH extends_rules(3) by blast
qed (rule extends_rules(1))

lemma states_distinct: "full_inv d \<Longrightarrow> distinct (map fst (states_of d))"
  by (simp add: full_inv_def store_inv_def states_of_def comp_def)

text \<open>
  C17. The admission loop ends: while no other process changes the store, and whatever the driver, the launch policy and the database answer, its body runs
  at most once more than there are queued workspaces; a higher bound on the rounds does not change its result.
\<close>
theorem admit_terminates:
  assumes "undisturbed dp" and "full_inv (sc_store s)" and "countQueued (sc_store s) < n"
  shows "fst (admit n dp s) \<noteq> Inr False \<and> (n \<le> k \<longrightarrow> admit k dp s = admit n dp s)"
proof -
  obtain r t where run: "admit n dp s = (r, t)" by (cases "admit n dp s")
  have "r \<noteq> Inr False"
    using admit_ends [of dp n] run assms(1) states_distinct [OF assms(2)] assms(3) unfolding ends_def countQueued_states by fastforce
  then show ?thesis using admit_extends [of n k dp] run by (simp add: extends_def)
qed

lemma ex_undisturbed: "undisturbed ex_deps"
  by (simp add: undisturbed_def ex_deps_def)

theorem admit_terminates_witness:
  "fst (admit 2 ex_deps ex_scheduler) \<noteq> Inr False \<and> admit 9 ex_deps ex_scheduler = admit 2 ex_deps ex_scheduler"
proof -
  have "countQueued (sc_store ex_scheduler) < 2" by (simp add: countQueued_def ex_created_tables)
  moreover have "full_inv (sc_store ex_scheduler)" using ex_created_inv by simp
  ultimately show ?thesis using admit_terminates [of ex_deps ex_scheduler 2 9] ex_undisturbed by simp
qed

section \<open>Retries of a failed cleanup\<close>

interpretation cleanup_backoff: backoff_policy CLEANUP_RETRY_BASE_MS CLEANUP_RETRY_MAX_MS "\<lambda>n. retry_delay (Suc n)"
  by unfold_locales (simp_all add: CLEANUP_RETRY_BASE_MS_def CLEANUP_RETRY_MAX_MS_def retry_delay_def backoff_ms_def)

lemma retry_is_spaced:
  assumes "note_failure dp i s = (r, t)"
  shows "\<exists>due. sc_retries t i = Some ((case sc_retries s i of None \<Rightarrow> 0 | Some (k, _) \<Rightarrow> k) + 1, due)
    \<and> dp_now dp (sc_calls s) + CLEANUP_RETRY_BASE_MS \<le> due \<and> due \<le> dp_now dp (sc_calls s) + CLEANUP_RETRY_MAX_MS"
  using assms cleanup_backoff.delay_bounds by (auto simp: note_failure_def bindS_def ask_def askE_def Let_def)

section \<open>A workspace ends after its provider\<close>

definition grows :: "scheduler \<Rightarrow> scheduler \<Rightarrow> bool" where
  "grows s t \<longleftrightarrow> (\<exists>cs. sc_trace t = sc_trace s @ cs)"

lemma grows_tx: "obeys grows (tx dp f)"
  unfolding obeys_def grows_def tx_def by (auto simp: Let_def split: option.splits sum.splits)

interpretation trace: scheduler_operations grows dp for dp
  by unfold_locales (auto simp: grows_tx writeS_def transitionS_def grows_def)

text \<open>An operation that returns only after the driver has answered a call.\<close>

definition marks :: "driver_call \<Rightarrow> 'a sched \<Rightarrow> bool" where
  "marks c m \<longleftrightarrow> (\<forall>s a t. m s = (Inr a, t) \<longrightarrow> (\<exists>cs. sc_trace t = sc_trace s @ cs \<and> c \<in> set cs))"

lemma marks_drive: "marks c (drive c g)"
  by (auto simp: marks_def drive_def bindS_def askE_def split: sum.splits prod.splits)

lemma marks_bind_right:
  assumes "obeys grows m" and "\<And>a. marks c (k a)"
  shows "marks c (bindS m k)"
  unfolding marks_def
proof (intro allI impI)
  fix s a t assume "bindS m k s = (Inr a, t)"
  then show "\<exists>cs. sc_trace t = sc_trace s @ cs \<and> c \<in> set cs"
  proof (cases rule: bindS_E)
    case (returned b u)
    have "\<exists>cs. sc_trace u = sc_trace s @ cs" using obeysD [OF assms(1) returned(1)] by (simp add: grows_def)
    moreover have "\<exists>cs. sc_trace t = sc_trace u @ cs \<and> c \<in> set cs" using assms(2) [of b] returned(2) unfolding marks_def by blast
    ultimately show ?thesis by auto
  qed simp
qed

lemma marks_bind_left:
  assumes "marks c m" and "\<And>a. obeys grows (k a)"
  shows "marks c (bindS m k)"
  unfolding marks_def
proof (intro allI impI)
  fix s a t assume "bindS m k s = (Inr a, t)"
  then show "\<exists>cs. sc_trace t = sc_trace s @ cs \<and> c \<in> set cs"
  proof (cases rule: bindS_E)
    case (returned b u)
    have "\<exists>cs. sc_trace t = sc_trace u @ cs" using obeysD [OF assms(2) returned(2)] by (simp add: grows_def)
    moreover have "\<exists>cs. sc_trace u = sc_trace s @ cs \<and> c \<in> set cs" using assms(1) returned(1) unfolding marks_def by blast
    ultimately show ?thesis by auto
  qed simp
qed

lemma marks_stop: "marks (CallRemove (provider_ref knd ref)) (stopWorkspaceProvider dp i knd (Some ref) grace at)"
  unfolding stopWorkspaceProvider_def option.case Let_def
  apply (rule marks_bind_right)
   apply (intro trace.tx_rules)
  unfolding thenS_def
  apply (rule marks_bind_right [OF _ marks_drive])
  by (intro trace.tx_rules)

lemma cleanup_marks:
  shows "marks (CallPurge (ws_id row)) (cleanup_provider dp row at)"
    and "ws_providerRef row = Some ref \<Longrightarrow> marks (CallRemove (provider_ref (ws_providerKind row) ref)) (cleanup_provider dp row at)"
    and "dp_revoke dp \<noteq> None \<Longrightarrow> marks (CallRevoke (ws_id row)) (cleanup_provider dp row at)"
proof -
  let ?revoke = "case dp_revoke dp of None \<Rightarrow> returnS () | Some rv \<Rightarrow> drive (CallRevoke (ws_id row)) (\<lambda>n. rv n (ws_id row))"
  let ?stop = "\<lambda>grace. if ws_providerRef row \<noteq> None
    then thenS (stopWorkspaceProvider dp (ws_id row) (ws_providerKind row) (ws_providerRef row) grace at) (drive (CallPurge (ws_id row)) (\<lambda>n. dp_purgeInput dp n (ws_id row)))
    else cleanupUncommittedProvider dp row grace at"
  have split: "cleanup_provider dp row at = bindS ?revoke (\<lambda>_. bindS (liftE (graceSeconds row)) ?stop)"
    by (simp add: cleanup_provider_def thenS_def)
  have quiet: "obeys grows ?revoke" "\<And>grace. obeys grows (?stop grace)" by (intro trace.tx_rules trace.op_stop trace.op_cleanup)+
  have stops: "marks c (cleanup_provider dp row at)" if "\<And>grace. marks c (?stop grace)" for c
    unfolding split by (intro marks_bind_right quiet(1) trace.pure that)
  have "marks (CallPurge (ws_id row)) (cleanupUncommittedProvider dp row grace at)" for grace
    unfolding cleanupUncommittedProvider_def thenS_def
    by (rule marks_bind_right [OF trace.reads], rule marks_bind_right [OF _ marks_drive])
      (intro trace.tx_rules trace.op_stop trace.op_cleanup)
  then have "marks (CallPurge (ws_id row)) (?stop grace)" for grace
    by (simp add: thenS_def marks_bind_right [OF trace.op_stop marks_drive])
  then show "marks (CallPurge (ws_id row)) (cleanup_provider dp row at)" by (rule stops)
  show "marks (CallRemove (provider_ref (ws_providerKind row) ref)) (cleanup_provider dp row at)" if "ws_providerRef row = Some ref"
    by (rule stops) (simp add: that thenS_def marks_bind_left [OF marks_stop trace.driver])
  show "marks (CallRevoke (ws_id row)) (cleanup_provider dp row at)" if "dp_revoke dp \<noteq> None"
    unfolding split using that marks_drive by (intro marks_bind_left trace.bind trace.pure quiet(2)) auto
qed

lemma state_lookup: "map_of (states_of d) i = map_option ws_state (getWorkspace d i)"
proof -
  have "map_of (map (\<lambda>r. (ws_id r, ws_state r)) rows) i = map_option ws_state (row_by ws_id i rows)" for rows
    by (induction rows) simp_all
  then show ?thesis by (simp add: states_of_def getWorkspace_def)
qed

lemma move_lookup: "map_of (move_state i x xs) i = (if i \<in> fst ` set xs then Some x else None)"
  by (induction xs) (auto simp: move_state_def)

text \<open>An operation that moves at most one workspace, to one state.\<close>

definition moves :: "scheduler_deps \<Rightarrow> ident \<Rightarrow> workspace_state \<Rightarrow> 'a sched \<Rightarrow> bool" where
  "moves dp i x m \<longleftrightarrow> (\<forall>s r t. m s = (r, t) \<longrightarrow> undisturbed dp \<longrightarrow>
     states_of (sc_store t) = states_of (sc_store s) \<or> states_of (sc_store t) = move_state i x (states_of (sc_store s)))"

lemma moves_calm: "obeys (same_states dp) m \<Longrightarrow> moves dp i x m"
  unfolding moves_def by (auto dest!: obeysD simp: same_states_def)

lemma moves_then_return: "moves dp i x m \<Longrightarrow> moves dp i x (thenS m (returnS b))"
  unfolding moves_def thenS_def by (auto elim!: bindS_E simp: returnS_def)

lemma moves_transition: "moves dp i (rq_to req) (transitionS dp i req)"
  using transitionS_states unfolding moves_def by blast

lemma moves_after_calm:
  assumes "obeys (same_states dp) m" and "moves dp i x k"
  shows "moves dp i x (thenS m k)"
  unfolding moves_def thenS_def
proof (intro allI impI)
  fix s r t assume run: "bindS m (\<lambda>_. k) s = (r, t)" and u: "undisturbed dp"
  from run show "states_of (sc_store t) = states_of (sc_store s) \<or> states_of (sc_store t) = move_state i x (states_of (sc_store s))"
  proof (cases rule: bindS_E)
    case (thrown e)
    then show ?thesis using obeysD [OF assms(1) thrown(1)] u by (simp add: same_states_def)
  next
    case (returned a v)
    then have "states_of (sc_store v) = states_of (sc_store s)" using obeysD [OF assms(1) returned(1)] u by (simp add: same_states_def)
    then show ?thesis using assms(2) returned(2) u unfolding moves_def by metis
  qed
qed

lemma finalize_E:
  assumes "finalize dp row ts re at s = (r, t)" and "undisturbed dp"
  obtains (kept) "states_of (sc_store t) = states_of (sc_store s) \<or> states_of (sc_store t) = move_state (ws_id row) Terminating (states_of (sc_store s))"
  | (cleaned) u where "cleanup_provider dp row at s = (Inr (), u)" and "grows u t"
proof -
  obtain c u where c: "cleanup_provider dp row at s = (c, u)" by (cases "cleanup_provider dp row at s")
  then have a: "attemptS (cleanup_provider dp row at) s = (Inr c, u)" by (simp add: attemptS_def)
  show ?thesis
  proof (cases c)
    case (Inl e)
    have m: "moves dp (ws_id row) Terminating (thenS (note_failure dp (ws_id row)) (thenS (transitionS dp (ws_id row) (request src Terminating rc at p)) (returnS ())))"
      for src rc p
      by (intro moves_after_calm calm.bookkeeping moves_then_return)
        (metis moves_transition request_def transition_request.select_convs(2))
    have "states_of (sc_store u) = states_of (sc_store s)"
      using obeysD [OF calm.op_cleanup_provider(1) c] assms(2) by (simp add: same_states_def)
    moreover have "states_of (sc_store t) = states_of (sc_store u) \<or> states_of (sc_store t) = move_state (ws_id row) Terminating (states_of (sc_store u))"
      using assms m unfolding finalize_def bindS_def a moves_def by (simp add: Inl)
    ultimately show ?thesis using kept by simp
  next
    case (Inr x)
    have "grows u t"
      using assms(1) unfolding finalize_def
    proof (cases rule: bindS_E)
      case (returned b v)
      then show ?thesis using a Inr
        by (simp) (erule obeysD [rotated], intro trace.all_rules trace.op_base trace.op_cleanup_provider)
    qed (simp add: a)
    then show ?thesis using cleaned c Inr by simp
  qed
qed


definition ex_ending :: workspace_row where
  "ex_ending = ex_row\<lparr>ws_providerKind := Some ''docker'', ws_providerRef := Some (JObj [(''id'', JStr ''c1'')])\<rparr>"

lemma ex_grace: "duration_ms ''10s'' = Inr 10000"
  by (simp add: duration_ms_def parseDurationMs_def duration_match_def is_digit_def UNIT_MS_def number_of_digits_def digit_value_def)

lemma ex_ending_simps:
  "ws_id ex_ending = ''w1''" "ws_providerKind ex_ending = Some ''docker''" "ws_providerRef ex_ending = Some (JObj [(''id'', JStr ''c1'')])"
  "ws_templateSnapshot ex_ending = ex_snapshot" "ws_runtimeRegistration ex_ending = None"
  by (simp_all add: ex_ending_def) (simp add: ex_row_def new_workspace_def Let_def)

lemma ex_cleaned:
  "\<exists>u. cleanup_provider ex_deps ex_ending 50 ex_scheduler = (Inr (), u) \<and> sc_store u = ex_created"
  by (simp add: cleanup_provider_def ex_deps_def thenS_def bindS_def returnS_def liftE_def graceSeconds_def timeoutMs_def ex_ending_simps
      ex_snapshot_def ex_spec_def ex_grace stopWorkspaceProvider_def drive_def askE_def catchS_def ex_scheduler_def Let_def)

definition ex_end_request :: transition_request where
  "ex_end_request = request [Queued, Provisioning, Connected, Ready, Terminating] Canceled (Some (Some CanceledByCaller)) 50
     (no_patch\<lparr>pt_launchInput := Some None, pt_registrationDigest := Some None\<rparr>)"

lemma ex_end_transition:
  "\<exists>row d. transitionWorkspace (ex_uuids ''2'') ex_created ''w1'' ex_end_request = Inr (Some row, d)
     \<and> getWorkspace d ''w1'' = Some row \<and> ws_state row = Canceled"
proof -
  let ?t = "transition_row ex_row ex_end_request"
  have st: "ws_state ?t = Canceled" "ws_id ?t = ''w1''" "ws_templateSnapshot ?t = ex_snapshot" "ws_purgeRequestedAt ?t = None"
    by (simp_all add: transition_row_def Let_def ex_end_request_def request_def isTerminal_def TERMINAL_STATES_def)
  have perm: "permitsTransition ex_row ex_end_request"
    by (simp add: permitsTransition_def ex_end_request_def request_def canTransition_def)
  have "\<exists>d. transitionWorkspace (ex_uuids ''2'') ex_created ''w1'' ex_end_request = Inr (Some ?t, d) \<and> getWorkspace d ''w1'' = Some ?t"
    using perm st
    by (simp add: transitionWorkspace_def commit_transition_def ex_created_def empty_store_def run_check_def ex_end_request_def
        request_def prepareLeaseTransition_def Let_def fenceWorkspaceLeaseRows_def fenced_def pendingWorkspaceLeases_def
        isTerminal_def TERMINAL_STATES_def appendTransition_def ex_uuids_def set_row_def ex_snapshot_def ex_spec_def
        ex_duration retain_conversation_def getWorkspace_def)
  then show ?thesis using st by blast
qed

lemma ex_ended_run:
  "\<exists>t w. finalize ex_deps ex_ending Canceled (Some CanceledByCaller) 50 ex_scheduler = (Inr (), t)
     \<and> getWorkspace (sc_store t) ''w1'' = Some w \<and> ws_state w = Canceled"
proof -
  obtain u where u: "cleanup_provider ex_deps ex_ending 50 ex_scheduler = (Inr (), u)" "sc_store u = ex_created" using ex_cleaned by blast
  obtain row d where d: "transitionWorkspace (ex_uuids ''2'') ex_created ''w1'' ex_end_request = Inr (Some row, d)"
    "getWorkspace d ''w1'' = Some row" "ws_state row = Canceled" using ex_end_transition by blast
  have deps: "dp_storage ex_deps = None" "\<And>n x. dp_others ex_deps n x = x" "\<And>n. dp_fails ex_deps n = None" "\<And>n. dp_uuids ex_deps n = ex_uuids ''2''"
    by (simp_all add: ex_deps_def)
  show ?thesis
    using d u
    by (simp add: finalize_def attemptS_def bindS_def thenS_def returnS_def ex_ending_simps cleanupWorkspaceStorage_def deps transitionS_def tx_def
        ex_end_request_def Let_def drive_def askE_def)
qed


section \<open>Principals take turns\<close>

lemma index_of_split:
  assumes "p \<in> set xs"
  shows "take (Suc (index_of p xs)) xs = take (index_of p xs) xs @ [p]" "index_of p xs < length xs"
  using assms by (induction xs) (auto simp: index_of_def)

lemma rotation_last:
  assumes "p \<noteq> []" and "p \<in> set xs"
  shows "last (principalRotation (Some p) xs) = p"
proof (cases "Suc (index_of p xs) = length xs")
  case True
  then have "xs = take (index_of p xs) xs @ [p]" using index_of_split(1) [OF assms(2)] by simp
  then have "last xs = p" by (metis last_snoc)
  then show ?thesis using True assms by (simp add: principalRotation_def start_index_def)
next
  case False
  then show ?thesis using assms index_of_split [OF assms(2)] by (simp add: principalRotation_def start_index_def)
qed



end
