(* ===== verification/Spec2Isabelle.thy ===== *)
theory Spec2Isabelle
  imports Auth_Theorems Outbox_Dispatcher Execution_Theorems Checkpoint_Theorems Journal_Theorems Preview_Flow Egress_Theorems Scheduler_Theorems
begin

text \<open>
  A model of the control plane of pocketcoder, which runs coding agents in isolated workspaces. A server accepts
  workspaces and executions, keeps them in a database, launches workspaces through a driver and reports their lifecycle as
  signed events; a supervisor inside each workspace carries previews, checkpoints and network traffic. The development
  models the packages that decide what happens to a workspace: \<^verbatim>\<open>packages/db\<close> (the transactions), \<^verbatim>\<open>packages/contracts\<close>
  (states, formats and checks), \<^verbatim>\<open>packages/runtime-contracts\<close> (rows and requests) and parts of \<^verbatim>\<open>packages/runtime-core\<close>.

  \<^bold>\<open>How the program is represented.\<close> A table is the list of its rows in insertion order; a transaction is a function
  from the tables and its arguments to an error or the result and the tables afterwards, so that a raised error leaves the
  tables as they were. A row is a record, a JSON document the datatype \<open>json\<close>, a date its number of milliseconds, text a list of
  bytes. Thrown errors are the left side of a sum. Clocks, generated identifiers, SHA-256, HMAC, the answers of a sink, of a
  disk or of a name server are arguments; where a theorem relies on them the assumption is in its statement (for digests, a collision is
  one of the conclusions, so nothing is assumed of the hash). Concurrency is interleaving: a step
  relation has a rule for every transaction, and the properties hold in every state its runs reach.

  \<^bold>\<open>The theories.\<close>
  \<^item> \<open>Prelude\<close>: errors, tables, the locales \<open>keyed_table\<close>, \<open>invariant_system\<close>, \<open>monotone_system\<close> and \<open>backoff_policy\<close>, each
    interpreted on the components below.
  \<^item> \<open>Duration\<close>, \<open>Json\<close>, \<open>Json_Text\<close>, \<open>Json_Parse\<close>: durations, canonical JSON, printing and reading documents; the canonical text
    determines the document up to the order of properties.
  \<^item> \<open>Key_Authority\<close>, \<open>Journal\<close>, \<open>Auth_Store\<close>, \<open>Auth_Properties\<close>, \<open>Auth_Theorems\<close>: principals and machine keys
    (\<^verbatim>\<open>runtime-core/src/keys/principal-authority.ts\<close>, \<^verbatim>\<open>db/src/modules/auth\<close>): no escalation, permanent revocation, idempotent issuance.
  \<^item> \<open>Workspace_State\<close>, \<open>Workspace_Rows\<close>, \<open>Lease_Store\<close>, \<open>Workspace_Store\<close>: the transition table and the transactions on
    workspaces, leases, the outbox, warm runtimes, operations, checkpoints and storage (\<^verbatim>\<open>db/src/modules\<close>).
  \<^item> \<open>Lifecycle_Spec\<close>, \<open>Workspace_Steps\<close>, \<open>Workspace_Refinement\<close>, \<open>Store_Steps\<close>, \<open>Workspace_Theorems\<close>, \<open>Store_Theorems\<close>,
    \<open>Outbox_Theorems\<close>: the abstract lifecycle, the simulation that the store implements it, and its consequences.
  \<^item> \<open>Execution_Validation\<close>, \<open>Execution_Store\<close>, \<open>Execution_Steps\<close>, \<open>Request_Frames\<close>, \<open>Ledger_Ops\<close>, \<open>Execution_Example\<close>,
    \<open>Execution_Theorems\<close>: the ledger of executions (\<^verbatim>\<open>execution-dispatch.ts\<close> and its neighbours): accepted once, dispatched
    once, final when settled.
  \<^item> \<open>Outbox_Dispatcher\<close>: delivery of events (\<^verbatim>\<open>runtime-core/src/outbox/outbox.ts\<close>), drained by a sink that answers.
  \<^item> \<open>Journal_File\<close>, \<open>Journal_Theorems\<close>: the deletion journal (\<^verbatim>\<open>db/src/journal/journal.ts\<close>) under failed writes and crashes.
  \<^item> \<open>Tar_Header\<close>, \<open>Checkpoint_Format\<close>, \<open>Checkpoint_Archive\<close>, \<open>Checkpoint_Wire\<close>, \<open>Checkpoint_Size\<close>, \<open>Checkpoint_Digest\<close>,
    \<open>Entry_Graph\<close>, \<open>Checkpoint_Theorems\<close>: checkpoint archives (\<^verbatim>\<open>contracts/src/checkpoints\<close>): writer and reader are inverse, the
    measured size is exact, the digest binds the content, accepted links stay inside their mount.
  \<^item> \<open>Preview_Flow\<close>: flow control of preview sockets (\<^verbatim>\<open>contracts/src/previews/socket-flow.ts\<close>) between two ends.
  \<^item> \<open>Egress_Policy\<close>, \<open>Egress_Proxy\<close>, \<open>Egress_Theorems\<close>: the sidecar of restricted networks (\<^verbatim>\<open>contracts/src/network\<close>, \<^verbatim>\<open>egress/src\<close>): no connection
    outside the policy, the ordered and bounded audit log, and the event that blocks it.
  \<^item> \<open>Scheduler_Base\<close>, \<open>Scheduler\<close>, \<open>Scheduler_Client\<close>, \<open>Scheduler_Theorems\<close>: the scheduler (\<^verbatim>\<open>runtime-core/src/scheduler\<close>) as operations on its state that may throw, with
    the answers of the driver and the transactions of other processes as arguments. The locales \<open>effect_relation\<close>, \<open>quiet_operations\<close> and \<open>scheduler_operations\<close> prove once
    what every operation respects and are interpreted three times: every tick is a run of store transactions, only transitions and claims change states, the driver's trace
    only grows. From them: the admission loop ends, a workspace ends after its provider, principals take turns.
  \<^bold>\<open>Termination and fuel.\<close> Loops are total functions with a measure. The reader of JSON takes as fuel the length of the text, which
  bounds the nesting; its lemmas show that a printed document is always read. The admission loop takes its number of rounds; one more than the
  number of queued workspaces is enough while nothing else changes the store. The link walk ends because it counts to 64. Limits of the
  source (64 links, 512-byte blocks, payload members, 65536-byte frames, batches of 100) are constants of the model with the source's values.

  \<^bold>\<open>Not modelled.\<close> Routes, web sockets and configuration of \<^verbatim>\<open>packages/server\<close>, the supervisor's processes and file systems, the Docker and
  Kubernetes drivers, the manager, the command line, the SDK, the remote tunnel and the test kit are input and output around the parts above. The schemas of
  REST resources and templates are declarative zod documents of which only the refinements that tie fields together matter here. The
  scheduler calls the transactions proved here; it is modelled without the warm pool, the transfer runtime and the queueing of ticks. The warm pool's, the reconciler's and the execution dispatcher's loops are not modelled. Locks, permissions and placement of the journal file, replication off the
  node and the erasure of purged content in object storage are left out.
\<close>

end
